theory Spec2Isabelle
  imports Main "HOL-Library.Word" "HOL-Library.Char_ord" "HOL-Library.List_Lexorder"
begin

section \<open>Python values, dictionaries, exceptions and the object store\<close>

text \<open>
  A Python float is an IEEE-754 double, kept here as its 64-bit pattern. The only float
  arithmetic in the modelled code is unary minus, which flips the sign bit. Reading a float
  from text (\<^verbatim>\<open>float(s)\<close>) and printing one (\<^verbatim>\<open>str(v)\<close>) belong to the interpreter and
  are parameters of the functions that use them.
\<close>

type_synonym pyfloat = "64 word"

definition fneg :: "pyfloat \<Rightarrow> pyfloat" where
  "fneg v = xor v (push_bit 63 1)"

datatype pyval = PNone | PBool bool | PInt int | PFloat pyfloat | PStr string

text \<open>
  A \<^verbatim>\<open>dict\<close> with string keys is an association list in insertion order with distinct
  keys: \<^verbatim>\<open>d[k] = v\<close> rebinds \<open>k\<close> in place when it is present and appends it otherwise.
\<close>

type_synonym pydict = "(string \<times> pyval) list"

datatype exn =
    KeyError string
  | TypeError
  | ValueError
  | AttributeError string
  | ObjectDoesNotExist
  | MultipleObjectsReturned
  | OtherError string

definition keys :: "pydict \<Rightarrow> string list" where
  "keys d = map fst d"

definition contains :: "pydict \<Rightarrow> string \<Rightarrow> bool" where
  "contains d k = (map_of d k \<noteq> None)"

definition getitem :: "pydict \<Rightarrow> string \<Rightarrow> exn + pyval" where
  "getitem d k = (case map_of d k of None \<Rightarrow> Inl (KeyError k) | Some v \<Rightarrow> Inr v)"

fun setitem :: "('k \<times> 'v) list \<Rightarrow> 'k \<Rightarrow> 'v \<Rightarrow> ('k \<times> 'v) list" where
  "setitem [] k v = [(k, v)]"
| "setitem ((k', v') # d) k v = (if k' = k then (k, v) # d else (k', v') # setitem d k v)"

text \<open>
  Dictionaries are objects: a variable holds a reference, and an assignment through one
  reference is seen through every other. The store is the list of all dictionaries
  allocated so far; a reference is an index into it, and a new dictionary gets the next
  index.
\<close>

type_synonym addr = nat
type_synonym heap = "pydict list"

definition alloc :: "heap \<Rightarrow> pydict \<Rightarrow> heap \<times> addr" where
  "alloc h d = (h @ [d], length h)"

fun show_nat :: "nat \<Rightarrow> string" where
  "show_nat n =
     (if n < 10 then [char_of (48 + n)]
      else show_nat (n div 10) @ [char_of (48 + n mod 10)])"

declare show_nat.simps [simp del]


fun split_on :: "char \<Rightarrow> string \<Rightarrow> string list" where
  "split_on c [] = [[]]"
| "split_on c (x # xs) =
     (if x = c then [] # split_on c xs
      else (case split_on c xs of
              w # ws \<Rightarrow> (x # w) # ws
            | [] \<Rightarrow> [[x]]))"

section \<open>The Balsam evaluator (deephyper/evaluators/\_balsam.py)\<close>

subsection \<open>What the evaluator works on\<close>

text \<open>
  The base class \<^verbatim>\<open>Evaluator\<close> is not part of the sources at hand. Its class attributes
  that \<^verbatim>\<open>BalsamEvaluator\<close> reads are the fields of \<open>evaluator_class\<close>; they are parameters
  of everything below.
\<close>

record evaluator_class =
  WORKERS_PER_NODE :: int
  PYTHON_EXE :: string
  KERAS_BACKEND :: string
  FAIL_RETURN_VALUE :: pyfloat
  runner_executable :: string
  encode :: "pydict \<Rightarrow> string"

text \<open>
  The table of \<^verbatim>\<open>ApplicationDefinition\<close> rows behind Django's ORM. \<^verbatim>\<open>objects.get\<close>
  raises \<^verbatim>\<open>ObjectDoesNotExist\<close> when no row matches and \<^verbatim>\<open>MultipleObjectsReturned\<close>
  when several do; \<^verbatim>\<open>save\<close> on a new object inserts a row. Either can fail for a reason
  of the database itself (\<open>faults\<close> tells, access by access, whether the next one does).
  Every access is recorded with the connection's \<^verbatim>\<open>in_atomic_block\<close> flag, which is set
  exactly while a \<^verbatim>\<open>transaction.atomic\<close> block is open.
\<close>

record appdef =
  app_name :: string
  executable :: string

datatype access = Get string | Save appdef

record db =
  rows :: "appdef list"
  faults :: "string option list"
  in_atomic_block :: bool
  accesses :: "(bool \<times> access) list"

definition begin_access :: "db \<Rightarrow> access \<Rightarrow> db \<times> string option" where
  "begin_access d a =
     (let d1 = d\<lparr>accesses := accesses d @ [(in_atomic_block d, a)]\<rparr>
      in case faults d1 of
           [] \<Rightarrow> (d1, None)
         | f # fs \<Rightarrow> (d1\<lparr>faults := fs\<rparr>, f))"

definition objects_get :: "db \<Rightarrow> string \<Rightarrow> db \<times> (exn + appdef)" where
  "objects_get d nm =
     (case begin_access d (Get nm) of
        (d1, Some msg) \<Rightarrow> (d1, Inl (OtherError msg))
      | (d1, None) \<Rightarrow>
          (case filter (\<lambda>a. app_name a = nm) (rows d1) of
             [] \<Rightarrow> (d1, Inl ObjectDoesNotExist)
           | [a] \<Rightarrow> (d1, Inr a)
           | _ \<Rightarrow> (d1, Inl MultipleObjectsReturned)))"

definition save :: "db \<Rightarrow> appdef \<Rightarrow> db \<times> (exn + unit)" where
  "save d a =
     (case begin_access d (Save a) of
        (d1, Some msg) \<Rightarrow> (d1, Inl (OtherError msg))
      | (d1, None) \<Rightarrow> (d1\<lparr>rows := rows d1 @ [a]\<rparr>, Inr ()))"

text \<open>A row of Balsam's job table, with the files of its working directory.\<close>

record job =
  name :: string
  workflow :: string
  application :: string
  args :: string
  environ_vars :: string
  request :: pydict
  cute_id :: string
  workdir :: "(string \<times> string) list"

record future_task =
  task :: job
  task_args :: string

text \<open>
  What \<^verbatim>\<open>balsam.launcher.dag\<close> holds: the job this process runs under, if any, the jobs
  added so far, and the short identifier the launcher gives to the n-th job.
\<close>

record dag =
  current_job :: "job option"
  jobs :: "job list"
  assign_cute_id :: "nat \<Rightarrow> string"

definition add_job :: "dag \<Rightarrow> string \<Rightarrow> string \<Rightarrow> string \<Rightarrow> string \<Rightarrow> string \<Rightarrow> pydict
    \<Rightarrow> dag \<times> job" where
  "add_job g nm wfl app ar env kwargs =
     (let j = \<lparr>name = nm, workflow = wfl, application = app, args = ar, environ_vars = env,
                request = kwargs, cute_id = assign_cute_id g (length (jobs g)), workdir = []\<rparr>
      in (g\<lparr>jobs := jobs g @ [j]\<rparr>, j))"

text \<open>
  \<^verbatim>\<open>job.read_file_in_workdir(fname)\<close> is Balsam's; it raises when the working directory
  has no such file.
\<close>

definition read_file_in_workdir :: "job \<Rightarrow> string \<Rightarrow> exn + string" where
  "read_file_in_workdir j fname =
     (case map_of (workdir j) fname of None \<Rightarrow> Inl ValueError | Some txt \<Rightarrow> Inr txt)"

text \<open>
  An evaluator object. \<open>run_function\<close> is the pair (\<^verbatim>\<open>__module__\<close>, \<^verbatim>\<open>__name__\<close>) of
  \<^verbatim>\<open>self._run_function\<close>, which the base initialiser stores, as it does \<open>counter\<close>.
  \<open>transaction_context\<close> is \<open>None\<close> until the attribute is assigned.
\<close>

datatype context_manager = transaction_atomic

record evaluator =
  cls :: evaluator_class
  run_function :: "string \<times> string"
  counter :: nat
  id_key_map :: pydict
  num_workers :: int
  appName :: string
  transaction_context :: "context_manager option"

text \<open>The state of the process that runs the evaluator.\<close>

record process =
  database :: db
  store :: heap
  launcher :: dag
  logged :: "string list"

subsection \<open>Registration: \_init\_app and \_\_init\_\_\<close>

definition init_app :: "evaluator \<Rightarrow> process \<Rightarrow> process \<times> (exn + evaluator)" where
  "init_app self p =
     (let (moduleName, funcName) = run_function self;
          self1 = self\<lparr>appName := moduleName @ ''.'' @ funcName\<rparr>;
          (d1, found) = objects_get (database p) (appName self1)
      in case found of
           Inr app \<Rightarrow>
             (p\<lparr>database := d1,
                logged := logged p @ [''BalsamEvaluator will use existing app '' @ appName self1
                                       @ '': '' @ executable app]\<rparr>,
              Inr self1)
         | Inl e \<Rightarrow>
             if e = ObjectDoesNotExist then
               (let lg = logged p @ [''ApplicationDefinition did not exist for '' @ appName self1
                                      @ ''; creating new app in BalsamDB''];
                    app = \<lparr>app_name = appName self1,
                           executable = runner_executable (cls self1)\<rparr>;
                    (d2, saved) = save d1 app
                in case saved of
                     Inl e2 \<Rightarrow> (p\<lparr>database := d2, logged := lg\<rparr>, Inl e2)
                   | Inr _ \<Rightarrow> (p\<lparr>database := d2, logged := lg\<rparr>, Inr self1))
             else (p\<lparr>database := d1\<rparr>, Inl e))"

text \<open>
  \<^verbatim>\<open>__init__\<close>, from the object as \<^verbatim>\<open>super().__init__(run_function, cache_key)\<close> leaves it.
  \<open>LAUNCHER_NODES\<close> is the module constant read from the environment at import.
\<close>

definition init :: "int \<Rightarrow> evaluator \<Rightarrow> process \<Rightarrow> process \<times> (exn + evaluator)" where
  "init LAUNCHER_NODES self p =
     (let self1 = self\<lparr>id_key_map := [],
                      num_workers := LAUNCHER_NODES * WORKERS_PER_NODE (cls self)\<rparr>;
          p1 = p\<lparr>logged := logged p @ [''Balsam Evaluator instantiated'',
                                        ''Backend runs will use Python: '' @ PYTHON_EXE (cls self1)]\<rparr>;
          (p2, r) = init_app self1 p1
      in case r of
           Inl e \<Rightarrow> (p2, Inl e)
         | Inr self2 \<Rightarrow>
             (p2\<lparr>logged := logged p2 @ [''Backend runs will execute function: '' @ appName self2]\<rparr>,
              Inr (self2\<lparr>transaction_context := Some transaction_atomic\<rparr>)))"

subsection \<open>Submission: \_eval\_exec\<close>

definition default_resources :: "evaluator_class \<Rightarrow> pydict" where
  "default_resources c =
     [(''num_nodes'', PInt 1),
      (''ranks_per_node'', PInt 1),
      (''threads_per_rank'', PInt 64),
      (''node_packing_count'', PInt (WORKERS_PER_NODE c))]"

text \<open>
  \<^verbatim>\<open>for key in resources: if key in x: resources[key] = x[key]\<close>, with \<open>x\<close> at
  reference \<open>xa\<close> and \<open>resources\<close> at reference \<open>ra\<close>. The assignment rebinds a key
  that \<open>resources\<close> already has, so the keys iterated over do not change.
\<close>

fun override_loop :: "addr \<Rightarrow> addr \<Rightarrow> string list \<Rightarrow> heap \<Rightarrow> heap" where
  "override_loop xa ra [] h = h"
| "override_loop xa ra (key # ks) h =
     (case map_of (h ! xa) key of
        Some v \<Rightarrow> override_loop xa ra ks (h[ra := setitem (h ! ra) key v])
      | None \<Rightarrow> override_loop xa ra ks h)"

definition eval_exec :: "evaluator \<Rightarrow> process \<Rightarrow> addr \<Rightarrow> process \<times> future_task" where
  "eval_exec self p xa =
     (let jobname = ''task'' @ show_nat (counter self);
          ar = [CHR 0x27] @ encode (cls self) (store p ! xa) @ [CHR 0x27];
          envs = ''KERAS_BACKEND='' @ KERAS_BACKEND (cls self);
          (h1, ra) = alloc (store p) (default_resources (cls self));
          h2 = override_loop xa ra (keys (h1 ! ra)) h1;
          wfl = (case current_job (launcher p) of
                   Some cj \<Rightarrow> workflow cj
                 | None \<Rightarrow> appName self);
          (g, t) = add_job (launcher p) jobname wfl (appName self) ar envs (h2 ! ra)
      in (p\<lparr>store := h2, launcher := g,
            logged := logged p @ [''Created job '' @ jobname, ''Args: '' @ ar]\<rparr>,
          \<lparr>task = t, task_args = ar\<rparr>))"

subsection \<open>Callbacks: \_on\_done and \_on\_fail\<close>

text \<open>
  Modelled from the spec: \<^verbatim>\<open>Evaluator._parse\<close>, a static method of the base class that is
  not among the sources. The spec describes the artifact as "a per-task text file whose
  last relevant line matches a fixed OUTPUT: <float> pattern, parsed to recover the
  objective": a line is relevant when it is \<^verbatim>\<open>OUTPUT: \<close> followed by text that
  \<^verbatim>\<open>float\<close> accepts, and the value of the last such line is returned. The spec does not say
  what happens without such a line; the model answers \<open>None\<close> there.
\<close>

definition output_value :: "(string \<Rightarrow> pyfloat option) \<Rightarrow> string \<Rightarrow> pyfloat option" where
  "output_value float_of line =
     (if take 8 line = ''OUTPUT: '' then float_of (drop 8 line) else None)"

definition parse :: "(string \<Rightarrow> pyfloat option) \<Rightarrow> string \<Rightarrow> pyfloat option" where
  "parse float_of output =
     (case rev (List.map_filter (output_value float_of) (split_on CHR 0x0A output)) of
        [] \<Rightarrow> None
      | v # _ \<Rightarrow> Some v)"

definition on_done :: "(string \<Rightarrow> pyfloat option) \<Rightarrow> job \<Rightarrow> exn + pyfloat option" where
  "on_done float_of j =
     (case read_file_in_workdir j (name j @ ''.out'') of
        Inl e \<Rightarrow> Inl e
      | Inr output \<Rightarrow> Inr (parse float_of output))"

definition on_fail :: "evaluator_class \<Rightarrow> job \<Rightarrow> string list \<Rightarrow> string list \<times> (exn + pyfloat)" where
  "on_fail c j lg =
     (lg @ [''Task '' @ cute_id j @ '' failed; setting objective as float_max''],
      Inr (FAIL_RETURN_VALUE c))"

subsection \<open>A process using the evaluator\<close>

text \<open>
  What a client of the class can do: construct an evaluator from a freshly allocated
  object, or submit the configuration at a reference through an evaluator it has
  constructed. An exception that an action raises is the client's to handle: the session
  goes on with the next action, and the results of all actions are kept. A client that
  stops at its first exception is the run of the actions up to that one.
\<close>

datatype action = Construct evaluator | Submit nat addr

record session =
  proc :: process
  evaluators :: "evaluator list"
  futures :: "future_task list"

definition exec :: "int \<Rightarrow> action \<Rightarrow> session \<Rightarrow> session \<times> (exn + unit)" where
  "exec LAUNCHER_NODES a s =
     (case a of
        Construct self \<Rightarrow>
          (case init LAUNCHER_NODES self (proc s) of
             (p, Inl e) \<Rightarrow> (s\<lparr>proc := p\<rparr>, Inl e)
           | (p, Inr ev) \<Rightarrow> (s\<lparr>proc := p, evaluators := evaluators s @ [ev]\<rparr>, Inr ()))
      | Submit i xa \<Rightarrow>
          if i < length (evaluators s) \<and> xa < length (store (proc s)) then
            (let (p, f) = eval_exec (evaluators s ! i) (proc s) xa
             in (s\<lparr>proc := p, futures := futures s @ [f]\<rparr>, Inr ()))
          else (s, Inl (OtherError ''NameError'')))"

fun run_actions :: "int \<Rightarrow> action list \<Rightarrow> session \<Rightarrow> session \<times> (exn + unit) list" where
  "run_actions LAUNCHER_NODES [] s = (s, [])"
| "run_actions LAUNCHER_NODES (a # as) s =
     (case exec LAUNCHER_NODES a s of
        (s1, r) \<Rightarrow>
          (case run_actions LAUNCHER_NODES as s1 of
             (s2, rs) \<Rightarrow> (s2, r # rs)))"

definition save_count :: "string \<Rightarrow> db \<Rightarrow> nat" where
  "save_count nm d =
     length (filter (\<lambda>(g, a). case a of Save r \<Rightarrow> app_name r = nm | Get _ \<Rightarrow> False) (accesses d))"

definition registrations :: "string \<Rightarrow> db \<Rightarrow> nat" where
  "registrations nm d = length (filter (\<lambda>a. app_name a = nm) (rows d))"

subsection \<open>Constructions that overlap in time\<close>

text \<open>
  The two database accesses of \<^verbatim>\<open>_init_app\<close> are separate calls: between the lookup and
  the save another process can reach the table. \<open>step\<close> runs \<^verbatim>\<open>_init_app\<close> up to and
  including its next database access; \<open>interleave\<close> lets a schedule pick which of several
  constructions moves next.
\<close>

datatype pc = AtLookup | AtSave | Done | Failed exn

record construction =
  obj :: evaluator
  at :: pc

definition step :: "construction \<Rightarrow> db \<Rightarrow> construction \<times> db" where
  "step t d =
     (case at t of
        AtLookup \<Rightarrow>
          (let (moduleName, funcName) = run_function (obj t);
               self1 = (obj t)\<lparr>appName := moduleName @ ''.'' @ funcName\<rparr>;
               (d1, found) = objects_get d (appName self1)
           in case found of
                Inr app \<Rightarrow> (\<lparr>obj = self1, at = Done\<rparr>, d1)
              | Inl e \<Rightarrow>
                  if e = ObjectDoesNotExist then (\<lparr>obj = self1, at = AtSave\<rparr>, d1)
                  else (\<lparr>obj = self1, at = Failed e\<rparr>, d1))
      | AtSave \<Rightarrow>
          (let app = \<lparr>app_name = appName (obj t),
                      executable = runner_executable (cls (obj t))\<rparr>;
               (d2, saved) = save d app
           in case saved of
                Inl e2 \<Rightarrow> (t\<lparr>at := Failed e2\<rparr>, d2)
              | Inr _ \<Rightarrow> (t\<lparr>at := Done\<rparr>, d2))
      | Done \<Rightarrow> (t, d)
      | Failed e \<Rightarrow> (t, d))"

fun interleave :: "nat list \<Rightarrow> construction list \<Rightarrow> db \<Rightarrow> construction list \<times> db" where
  "interleave [] ts d = (ts, d)"
| "interleave (i # sched) ts d =
     (if i < length ts then
        (let (t1, d1) = step (ts ! i) d in interleave sched (ts[i := t1]) d1)
      else interleave sched ts d)"

definition outcome :: "construction \<Rightarrow> (exn + evaluator) option" where
  "outcome t =
     (case at t of
        Done \<Rightarrow> Some (Inr (obj t))
      | Failed e \<Rightarrow> Some (Inl e)
      | _ \<Rightarrow> None)"

section \<open>The lazy problem namespace (deephyper/problem/\_\_init\_\_.py)\<close>

text \<open>
  Objects are told apart by their identity. A module is its table of attributes. The
  interpreter state that \<^verbatim>\<open>LazyImport\<close> touches is the class attribute \<^verbatim>\<open>cache\<close>, shared by
  all instances, and \<^verbatim>\<open>sys.modules\<close>; \<open>import_calls\<close> records each call of
  \<^verbatim>\<open>importlib.import_module\<close>. Finding and executing a module that is not yet in
  \<^verbatim>\<open>sys.modules\<close> is the import system's work, the parameter \<open>loader\<close>.
\<close>

type_synonym obj = nat
type_synonym pymodule = "(string \<times> obj) list"

record lazy_import =
  "module_name" :: string
  wrapped :: pymodule

record interp =
  cache :: "(string \<times> obj) list"
  sys_modules :: "(string \<times> pymodule) list"
  import_calls :: "string list"

definition attrs :: "(string \<times> string) list" where
  "attrs = [(''NaProblem'', ''_neuralarchitecture:NaProblem''),
            (''HpProblem'', ''_hyperparameter:HpProblem'')]"

definition import_module :: "(string \<Rightarrow> exn + pymodule) \<Rightarrow> string \<Rightarrow> interp
    \<Rightarrow> interp \<times> (exn + pymodule)" where
  "import_module loader nm st =
     (let st1 = st\<lparr>import_calls := import_calls st @ [nm]\<rparr>
      in case map_of (sys_modules st1) nm of
           Some m \<Rightarrow> (st1, Inr m)
         | None \<Rightarrow>
             (case loader nm of
                Inl e \<Rightarrow> (st1, Inl e)
              | Inr m \<Rightarrow> (st1\<lparr>sys_modules := setitem (sys_modules st1) nm m\<rparr>, Inr m)))"

definition lazy_init :: "string \<Rightarrow> interp \<Rightarrow> exn + lazy_import" where
  "lazy_init nm st =
     (case map_of (sys_modules st) nm of
        None \<Rightarrow> Inl (KeyError nm)
      | Some m \<Rightarrow> Inr \<lparr>module_name = nm, wrapped = m\<rparr>)"

definition getattr :: "(string \<Rightarrow> exn + pymodule) \<Rightarrow> lazy_import \<Rightarrow> string \<Rightarrow> interp
    \<Rightarrow> interp \<times> (exn + obj)" where
  "getattr loader self nm st =
     (case map_of (cache st) nm of
        Some v \<Rightarrow> (st, Inr v)
      | None \<Rightarrow>
          (case map_of attrs nm of
             Some attr \<Rightarrow>
               (case split_on CHR '':'' attr of
                  [sub_module_name, attr_name] \<Rightarrow>
                    (let full_module_name = module_name self @ ''.'' @ sub_module_name;
                         (st1, imported) = import_module loader full_module_name st
                     in case imported of
                          Inl e \<Rightarrow> (st1, Inl e)
                        | Inr m \<Rightarrow>
                            (let st2 = st1\<lparr>sys_modules :=
                                            setitem (sys_modules st1) full_module_name m\<rparr>
                             in case map_of m attr_name of
                                  None \<Rightarrow> (st2, Inl (AttributeError attr_name))
                                | Some a \<Rightarrow> (st2\<lparr>cache := setitem (cache st2) nm a\<rparr>, Inr a)))
                | _ \<Rightarrow> (st, Inl ValueError))
           | None \<Rightarrow>
               (st, case map_of (wrapped self) nm of
                      None \<Rightarrow> Inl (AttributeError nm)
                    | Some v \<Rightarrow> Inr v)))"

text \<open>Any number of further lookups, through any instances, whatever they return.\<close>

fun lookups :: "(string \<Rightarrow> exn + pymodule) \<Rightarrow> (lazy_import \<times> string) list \<Rightarrow> interp \<Rightarrow> interp" where
  "lookups loader [] st = st"
| "lookups loader ((self, nm) # rest) st = lookups loader rest (fst (getattr loader self nm st))"

section \<open>The bAbI training script (benchmarks/b3/babi\_rnn.py)\<close>

subsection \<open>The world of the script\<close>

text \<open>
  The script prints, reads and writes files, and changes the dictionary it is given.
  A file is a directory, a saved Keras model, a pickled dictionary, or something else.
\<close>

datatype 'm fcontent = Directory | H5 'm | Pickle pydict | Bytes

record 'm world =
  memory :: heap
  stdout :: "string list"
  fs :: "(string \<times> 'm fcontent) list"

datatype rnn = GRU | SimpleRNN | LSTM

record hyper =
  BATCH_SIZE :: pyval
  EPOCHS :: pyval
  DROPOUT :: pyval
  RNN :: rnn
  EMBED_HIDDEN_SIZE :: pyval
  SENT_HIDDEN_SIZE :: pyval
  QUERY_HIDDEN_SIZE :: pyval

text \<open>
  What the script calls and does not define: the shared command-line builder
  \<^verbatim>\<open>keras_cmdline\<close> (the defaults of its parser, \<^verbatim>\<open>return_optimizer\<close>), the interpreter's
  formatting and float comparison, the directory of the script, Keras's \<^verbatim>\<open>get_file\<close>,
  SHA-224, and the numerical work on data of type \<open>'d\<close> and models of type \<open>'m\<close>:
  \<open>load_data\<close> stands for lines 250 to 272 (reading the archive, \<^verbatim>\<open>get_stories\<close>,
  the vocabulary, \<^verbatim>\<open>vectorize_stories\<close> and the lines printed there), \<open>build_model\<close> for
  lines 293 to 309, \<open>fit_evaluate\<close> for \<^verbatim>\<open>model.fit\<close> followed by \<^verbatim>\<open>model.evaluate\<close>,
  which gives the trained model, the loss and the accuracy.
\<close>

record ('d, 'm) externals =
  parser_options :: "string list"
  parser_defaults :: pydict
  return_optimizer :: "pydict \<Rightarrow> exn + string"
  show_val :: "pyval \<Rightarrow> string"
  show_dict :: "pydict \<Rightarrow> string"
  show_strs :: "string list \<Rightarrow> string"
  show_rnn :: "rnn \<Rightarrow> string"
  format4 :: "pyfloat \<Rightarrow> string"
  float_lt :: "pyval \<Rightarrow> pyval \<Rightarrow> bool"
  script_dir :: string
  get_file :: "string \<Rightarrow> string \<Rightarrow> exn + string"
  sha224_hexdigest :: "string \<Rightarrow> string"
  load_data :: "string \<Rightarrow> exn + (string list \<times> 'd)"
  build_model :: "'d \<Rightarrow> hyper \<Rightarrow> string \<Rightarrow> exn + 'm"
  fit_evaluate :: "'m \<Rightarrow> 'd \<Rightarrow> pyval \<Rightarrow> pyval \<Rightarrow> exn + ('m \<times> pyfloat \<times> pyfloat)"

definition then_do :: "exn + 'a \<Rightarrow> ('a \<Rightarrow> exn + 'b) \<Rightarrow> exn + 'b" where
  "then_do r f = (case r of Inl e \<Rightarrow> Inl e | Inr a \<Rightarrow> f a)"

definition BNAME :: string where
  "BNAME = ''babi_rnn''"

definition path_exists :: "(string \<times> 'm fcontent) list \<Rightarrow> string \<Rightarrow> bool" where
  "path_exists files p = (map_of files p \<noteq> None)"

definition path_join :: "string \<Rightarrow> string \<Rightarrow> string" where
  "path_join a b =
     (if b \<noteq> [] \<and> hd b = CHR ''/'' then b
      else if a = [] \<or> last a = CHR ''/'' then a @ b
      else a @ ''/'' @ b)"

text \<open>
  \<^verbatim>\<open>a < b\<close> on values: integers (and booleans, which are integers) by value, strings
  by code point, floats by the interpreter; anything else raises \<^verbatim>\<open>TypeError\<close>.
\<close>

fun as_int :: "pyval \<Rightarrow> int option" where
  "as_int (PInt i) = Some i"
| "as_int (PBool b) = Some (if b then 1 else 0)"
| "as_int _ = None"

fun is_number :: "pyval \<Rightarrow> bool" where
  "is_number (PInt _) = True"
| "is_number (PBool _) = True"
| "is_number (PFloat _) = True"
| "is_number _ = False"

definition py_less :: "(pyval \<Rightarrow> pyval \<Rightarrow> bool) \<Rightarrow> pyval \<Rightarrow> pyval \<Rightarrow> exn + bool" where
  "py_less flt a b =
     (case (as_int a, as_int b) of
        (Some i, Some j) \<Rightarrow> Inr (i < j)
      | _ \<Rightarrow>
          if is_number a \<and> is_number b then Inr (flt a b)
          else (case (a, b) of
                  (PStr s, PStr t) \<Rightarrow> Inr (s < t)
                | _ \<Rightarrow> Inl TypeError))"

subsection \<open>Defaults\<close>

text \<open>
  A parser is the list of its option strings together with the defaults of its
  destinations, which is what \<^verbatim>\<open>vars(parser.parse_args(''))\<close> returns. Adding an option
  string that the parser already has raises; a destination that already has a default
  keeps it. A string default of an option with \<^verbatim>\<open>type=int\<close> is converted.
\<close>

type_synonym parser = "string list \<times> pydict"

definition add_argument :: "parser \<Rightarrow> string \<Rightarrow> string \<Rightarrow> pyval \<Rightarrow> exn + parser" where
  "add_argument parser flag dest dflt =
     (if flag \<in> set (fst parser) then Inl (OtherError ''ArgumentError'')
      else Inr (fst parser @ [flag],
                if contains (snd parser) dest then snd parser
                else snd parser @ [(dest, dflt)]))"

definition augment_parser :: "parser \<Rightarrow> exn + parser" where
  "augment_parser parser =
     then_do (add_argument parser ''--rnn_type'' ''rnn_type'' (PStr ''LSTM'')) (\<lambda>p1.
     then_do (add_argument p1 ''--embed_hidden_size'' ''embed_hidden_size'' (PInt 50)) (\<lambda>p2.
     then_do (add_argument p2 ''--sent_hidden_size'' ''sent_hidden_size'' (PInt 100)) (\<lambda>p3.
     add_argument p3 ''--query_hidden_size'' ''query_hidden_size'' (PInt 100))))"

definition defaults :: "('d, 'm) externals \<Rightarrow> exn + pydict" where
  "defaults ext =
     then_do (augment_parser (parser_options ext, parser_defaults ext)) (\<lambda>def_parser.
     Inr (snd def_parser))"

subsection \<open>Helpers of the script\<close>

text \<open>\<^verbatim>\<open>extension_from_parameters\<close>: the lines it prints and the extension it returns.\<close>

fun extension_loop :: "(pyval \<Rightarrow> string) \<Rightarrow> pydict \<Rightarrow> string list \<Rightarrow> string list \<times> string
    \<Rightarrow> string list \<times> string" where
  "extension_loop sh param_dict [] acc = acc"
| "extension_loop sh param_dict (key # ks) (out, extension) =
     (if key \<noteq> ''epochs'' then
        (case map_of param_dict key of
           Some v \<Rightarrow>
             extension_loop sh param_dict ks
               (out @ [key @ '': '' @ sh v], extension @ ''.'' @ key @ ''='' @ sh v)
         | None \<Rightarrow> extension_loop sh param_dict ks (out, extension))
      else extension_loop sh param_dict ks (out, extension))"

definition extension_from_parameters :: "(pyval \<Rightarrow> string) \<Rightarrow> pydict \<Rightarrow> string list \<times> string" where
  "extension_from_parameters sh param_dict =
     (let (out, extension) = extension_loop sh param_dict (sort (keys param_dict)) ([], [])
      in (out @ [extension], extension))"

definition load_model :: "(string \<times> 'm fcontent) list \<Rightarrow> string \<Rightarrow> exn + 'm" where
  "load_model files filename =
     (case map_of files filename of
        Some (H5 m) \<Rightarrow> Inr m
      | _ \<Rightarrow> Inl (OtherError ''OSError''))"

definition load_meta_data :: "(string \<times> 'm fcontent) list \<Rightarrow> string \<Rightarrow> exn + pydict" where
  "load_meta_data files filename =
     (case map_of files filename of
        Some (Pickle data) \<Rightarrow> Inr data
      | Some _ \<Rightarrow> Inl (OtherError ''UnpicklingError'')
      | None \<Rightarrow> Inl (OtherError ''FileNotFoundError''))"

definition save_meta_data :: "pydict \<Rightarrow> string \<Rightarrow> (string \<times> 'm fcontent) list
    \<Rightarrow> (string \<times> 'm fcontent) list" where
  "save_meta_data data filename files = setitem files filename (Pickle data)"

fun stage_loop :: "('d, 'm) externals \<Rightarrow> string \<Rightarrow> string \<Rightarrow> bool \<Rightarrow> string list
    \<Rightarrow> (string \<times> string) list \<Rightarrow> string list \<Rightarrow> string list \<times> (exn + (string \<times> string) list)" where
  "stage_loop ext prepend origin_dir_path use_cache [] paths out = (out, Inr paths)"
| "stage_loop ext prepend origin_dir_path use_cache (nm # names) paths out =
     (let origin = path_join origin_dir_path nm
      in if use_cache then
           (case get_file ext (prepend @ nm) (''file://'' @ origin) of
              Inl e \<Rightarrow> (out, Inl e)
            | Inr p \<Rightarrow>
                stage_loop ext prepend origin_dir_path use_cache names (setitem paths nm p)
                  (out @ [''File '' @ nm @ '' will be read from '' @ p]))
         else
           stage_loop ext prepend origin_dir_path use_cache names (setitem paths nm origin)
             (out @ [''File '' @ nm @ '' will be read from '' @ origin]))"

definition stage_in :: "('d, 'm) externals \<Rightarrow> string list \<Rightarrow> string \<Rightarrow> bool \<Rightarrow> 'm world
    \<Rightarrow> 'm world \<times> (exn + (string \<times> string) list)" where
  "stage_in ext file_names local_path use_cache w =
     (let prepend = (if path_exists (fs w) local_path then local_path else []);
          origin_dir_path = path_join (script_dir ext) ''data'';
          out = stdout w @ [''Looking for files: '' @ show_strs ext file_names,
                            ''In origin: '' @ origin_dir_path];
          (out1, r) = stage_loop ext prepend origin_dir_path use_cache file_names [] out
      in (w\<lparr>stdout := out1\<rparr>, r))"

subsection \<open>run, in the order of its source\<close>

text \<open>Lines 206 to 209: the defaults fill the keys that \<open>param_dict\<close> lacks.\<close>

fun fill_loop :: "addr \<Rightarrow> pydict \<Rightarrow> heap \<Rightarrow> heap" where
  "fill_loop pa [] h = h"
| "fill_loop pa ((key, dflt) # rest) h =
     (if \<not> contains (h ! pa) key
      then fill_loop pa rest (h[pa := setitem (h ! pa) key dflt])
      else fill_loop pa rest h)"

text \<open>Lines 213 to 226.\<close>

definition read_hyper :: "pydict \<Rightarrow> exn + hyper" where
  "read_hyper param_dict =
     then_do (getitem param_dict ''batch_size'') (\<lambda>bs.
     then_do (getitem param_dict ''epochs'') (\<lambda>ep.
     then_do (getitem param_dict ''dropout'') (\<lambda>dr.
     then_do (getitem param_dict ''rnn_type'') (\<lambda>rt.
     then_do (getitem param_dict ''embed_hidden_size'') (\<lambda>em.
     then_do (getitem param_dict ''sent_hidden_size'') (\<lambda>se.
     then_do (getitem param_dict ''query_hidden_size'') (\<lambda>qu.
       Inr \<lparr>BATCH_SIZE = bs, EPOCHS = ep, DROPOUT = dr,
            RNN = (if rt = PStr ''GRU'' then GRU
                   else if rt = PStr ''SimpleRNN'' then SimpleRNN
                   else LSTM),
            EMBED_HIDDEN_SIZE = em, SENT_HIDDEN_SIZE = se, QUERY_HIDDEN_SIZE = qu\<rparr>)))))))"

text \<open>Lines 233 to 240: the bare \<^verbatim>\<open>except\<close> prints the hint and raises the error again.\<close>

definition download_hint :: string where
  "download_hint =
     ''Error downloading dataset, please download it manually:'' @ [CHR 0x0A] @
     ''$ wget http://www.thespermwhale.com/jaseweston/babi/tasks_1-20_v1-2.tar.gz'' @ [CHR 0x0A] @
     ''$ mv tasks_1-20_v1-2.tar.gz ~/.keras/datasets/babi-tasks-v1-2.tar.gz''"

definition stage_dataset :: "('d, 'm) externals \<Rightarrow> 'm world \<Rightarrow> 'm world \<times> (exn + string)" where
  "stage_dataset ext w =
     (case stage_in ext [''babi-tasks-v1-2.tar.gz''] ''/local/scratch/'' True w of
        (w1, Inl e) \<Rightarrow> (w1\<lparr>stdout := stdout w1 @ [download_hint]\<rparr>, Inl e)
      | (w1, Inr paths) \<Rightarrow>
          (case map_of paths ''babi-tasks-v1-2.tar.gz'' of
             None \<Rightarrow>
               (w1\<lparr>stdout := stdout w1 @ [download_hint]\<rparr>,
                Inl (KeyError ''babi-tasks-v1-2.tar.gz''))
           | Some path \<Rightarrow> (w1, Inr path)))"

text \<open>
  Lines 275 to 289: the names of the checkpoint files and the decision to resume.
  \<open>loaded\<close> is the local variable \<^verbatim>\<open>model\<close>, unbound until \<^verbatim>\<open>load_model\<close> returns.
\<close>

record 'm checkpoint =
  model_name :: string
  model_mda_name :: string
  initial_epoch :: pyval
  resume :: bool
  loaded :: "'m option"

definition find_checkpoint :: "('d, 'm) externals \<Rightarrow> addr \<Rightarrow> 'm world
    \<Rightarrow> 'm world \<times> (exn + 'm checkpoint)" where
  "find_checkpoint ext pa w =
     (let (out, extension) = extension_from_parameters (show_val ext) (memory w ! pa);
          w1 = w\<lparr>stdout := stdout w @ out\<rparr>;
          hex_name = sha224_hexdigest ext extension;
          c = \<lparr>model_name = BNAME @ ''-'' @ hex_name @ ''.h5'',
               model_mda_name = BNAME @ ''-'' @ hex_name @ ''.pkl'',
               initial_epoch = PInt 0, resume = False, loaded = None\<rparr>
      in if path_exists (fs w1) (model_name c) \<and> path_exists (fs w1) (model_mda_name c) then
           (let w2 = w1\<lparr>stdout := stdout w1
                         @ [''model and meta data exists; loading model from h5 file'']\<rparr>
            in case load_model (fs w2) (model_name c) of
                 Inl e \<Rightarrow> (w2, Inl e)
               | Inr m \<Rightarrow>
                   (case load_meta_data (fs w2) (model_mda_name c) of
                      Inl e \<Rightarrow> (w2, Inl e)
                    | Inr saved_param_dict \<Rightarrow>
                        (case getitem saved_param_dict ''epochs'' of
                           Inl e \<Rightarrow> (w2, Inl e)
                         | Inr ie \<Rightarrow>
                             (case getitem (memory w2 ! pa) ''epochs'' of
                                Inl e \<Rightarrow> (w2, Inl e)
                              | Inr requested \<Rightarrow>
                                  (case py_less (float_lt ext) ie requested of
                                     Inl e \<Rightarrow> (w2, Inl e)
                                   | Inr lt \<Rightarrow>
                                       (w2, Inr (c\<lparr>initial_epoch := ie, loaded := Some m,
                                                   resume := lt\<rparr>)))))))
         else (w1, Inr c))"

text \<open>Lines 291 to 309: without a checkpoint to resume from, the model is built anew.\<close>

definition obtain_model :: "('d, 'm) externals \<Rightarrow> 'd \<Rightarrow> hyper \<Rightarrow> string \<Rightarrow> 'm checkpoint
    \<Rightarrow> 'm world \<Rightarrow> 'm world \<times> (exn + 'm)" where
  "obtain_model ext data hp optimizer c w =
     (if \<not> resume c then
        (w\<lparr>stdout := stdout w @ [''Build model...'']\<rparr>, build_model ext data hp optimizer)
      else
        (w, case loaded c of
              Some m \<Rightarrow> Inr m
            | None \<Rightarrow> Inl (OtherError ''UnboundLocalError'')))"

text \<open>Lines 311 to 319: training, the report, the checkpoint, the result.\<close>

definition train_and_report :: "('d, 'm) externals \<Rightarrow> 'd \<Rightarrow> hyper \<Rightarrow> 'm \<Rightarrow> 'm checkpoint
    \<Rightarrow> addr \<Rightarrow> 'm world \<Rightarrow> 'm world \<times> (exn + pyfloat)" where
  "train_and_report ext data hp m c pa w =
     (let w1 = w\<lparr>stdout := stdout w @ [''Training'']\<rparr>
      in case fit_evaluate ext m data (BATCH_SIZE hp) (EPOCHS hp) of
           Inl e \<Rightarrow> (w1, Inl e)
         | Inr (trained, loss, acc) \<Rightarrow>
             (let w2 = w1\<lparr>stdout := stdout w1
                           @ [''Test loss / test accuracy = '' @ format4 ext loss
                                @ '' / '' @ format4 ext acc,
                              ''OUTPUT: '' @ show_val ext (PFloat (fneg acc))]\<rparr>;
                  files1 = setitem (fs w2) (model_name c) (H5 trained);
                  files2 = save_meta_data (memory w2 ! pa) (model_mda_name c) files1
              in (w2\<lparr>fs := files2\<rparr>, Inr (fneg acc))))"

text \<open>Lines 206 to 231: defaults, optimizer, hyperparameters.\<close>

definition prepare :: "('d, 'm) externals \<Rightarrow> addr \<Rightarrow> 'm world
    \<Rightarrow> 'm world \<times> (exn + string \<times> hyper)" where
  "prepare ext pa w =
     (case defaults ext of
        Inl e \<Rightarrow> (w, Inl e)
      | Inr default_params \<Rightarrow>
          (let w1 = w\<lparr>memory := fill_loop pa default_params (memory w)\<rparr>
           in case return_optimizer ext (memory w1 ! pa) of
                Inl e \<Rightarrow> (w1, Inl e)
              | Inr optimizer \<Rightarrow>
                  (let w2 = w1\<lparr>stdout := stdout w1 @ [show_dict ext (memory w1 ! pa)]\<rparr>
                   in case read_hyper (memory w2 ! pa) of
                        Inl e \<Rightarrow> (w2, Inl e)
                      | Inr hp \<Rightarrow>
                          (w2\<lparr>stdout := stdout w2
                                 @ [''RNN / Embed / Sent / Query = '' @ show_rnn ext (RNN hp)
                                    @ '', '' @ show_val ext (EMBED_HIDDEN_SIZE hp)
                                    @ '', '' @ show_val ext (SENT_HIDDEN_SIZE hp)
                                    @ '', '' @ show_val ext (QUERY_HIDDEN_SIZE hp)]\<rparr>,
                           Inr (optimizer, hp)))))"

definition run :: "('d, 'm) externals \<Rightarrow> addr \<Rightarrow> 'm world \<Rightarrow> 'm world \<times> (exn + pyfloat)" where
  "run ext pa w =
     (case prepare ext pa w of
        (w3, Inl e) \<Rightarrow> (w3, Inl e)
      | (w3, Inr (optimizer, hp)) \<Rightarrow>
          (case stage_dataset ext w3 of
             (w4, Inl e) \<Rightarrow> (w4, Inl e)
           | (w4, Inr path) \<Rightarrow>
               (case load_data ext path of
                  Inl e \<Rightarrow> (w4, Inl e)
                | Inr (printed, data) \<Rightarrow>
                    (let w5 = w4\<lparr>stdout := stdout w4 @ printed\<rparr>
                     in case find_checkpoint ext pa w5 of
                          (w6, Inl e) \<Rightarrow> (w6, Inl e)
                        | (w6, Inr c) \<Rightarrow>
                            (case obtain_model ext data hp optimizer c w6 of
                               (w7, Inl e) \<Rightarrow> (w7, Inl e)
                             | (w7, Inr m) \<Rightarrow>
                                 train_and_report ext data hp m c pa w7)))))"

section \<open>Reading the claims\<close>

text \<open>
  The resource request that the submission path is meant to derive: every default, unless
  the configuration has the key, and then the configuration's value.
\<close>

definition overridden :: "pydict \<Rightarrow> pydict \<Rightarrow> pydict" where
  "overridden x res = map (\<lambda>(k, d). (k, case map_of x k of Some v \<Rightarrow> v | None \<Rightarrow> d)) res"

text \<open>Concrete objects on which the theorems below are exercised.\<close>

definition demo_class :: evaluator_class where
  "demo_class =
     \<lparr>WORKERS_PER_NODE = 2, PYTHON_EXE = ''python3'', KERAS_BACKEND = ''tensorflow'',
      FAIL_RETURN_VALUE = 0x7FEFFFFFFFFFFFFF, runner_executable = ''python3 runner.py'',
      encode = (\<lambda>d. concat (map fst d))\<rparr>"

definition demo_object :: evaluator where
  "demo_object =
     \<lparr>cls = demo_class, run_function = (''benchmarks.b3.babi_rnn'', ''run''), counter = 0,
      id_key_map = [], num_workers = 0, appName = [], transaction_context = None\<rparr>"

definition demo_evaluator :: evaluator where
  "demo_evaluator =
     demo_object\<lparr>num_workers := 2, appName := ''benchmarks.b3.babi_rnn.run'',
                 transaction_context := Some transaction_atomic\<rparr>"

definition empty_db :: db where
  "empty_db = \<lparr>rows = [], faults = [], in_atomic_block = False, accesses = []\<rparr>"

definition demo_process :: process where
  "demo_process =
     \<lparr>database = empty_db,
      store = [[(''epochs'', PInt 10), (''num_nodes'', PInt 4)], [(''epochs'', PInt 10)]],
      launcher = \<lparr>current_job = None, jobs = [], assign_cute_id = show_nat\<rparr>,
      logged = []\<rparr>"

text \<open>
  The name under which an entry-point is registered, and the row \<^verbatim>\<open>_init_app\<close> creates
  for it.
\<close>

definition entry_point :: "evaluator \<Rightarrow> string" where
  "entry_point self = fst (run_function self) @ ''.'' @ snd (run_function self)"

definition new_app :: "evaluator \<Rightarrow> appdef" where
  "new_app self = \<lparr>app_name = entry_point self, executable = runner_executable (cls self)\<rparr>"

text \<open>
  The object and the process as \<^verbatim>\<open>__init__\<close> hands them to \<^verbatim>\<open>_init_app\<close>.
\<close>

definition prepared :: "int \<Rightarrow> evaluator \<Rightarrow> evaluator" where
  "prepared LN self = self\<lparr>id_key_map := [], num_workers := LN * WORKERS_PER_NODE (cls self)\<rparr>"

definition announced :: "evaluator \<Rightarrow> process \<Rightarrow> process" where
  "announced self p = p\<lparr>logged := logged p @ [''Balsam Evaluator instantiated'',
                                        ''Backend runs will use Python: '' @ PYTHON_EXE (cls self)]\<rparr>"

definition down_db :: db where
  "down_db = empty_db\<lparr>faults := [Some ''OperationalError'']\<rparr>"

definition down_process :: process where
  "down_process = demo_process\<lparr>database := down_db\<rparr>"

text \<open>
  Two facts about a session: a name is saved at most once, and only when that left a row
  behind, which the actions keep as long as the database answers every access; every
  evaluator constructed and every job added names an application that has exactly one
  row, which the actions always keep.
\<close>

definition saved_once :: "string \<Rightarrow> session \<Rightarrow> bool" where
  "saved_once nm s =
     (save_count nm (database (proc s)) \<le> 1
      \<and> (0 < save_count nm (database (proc s)) \<longrightarrow> 0 < registrations nm (database (proc s))))"

definition all_registered :: "session \<Rightarrow> bool" where
  "all_registered s =
     ((\<forall>ev \<in> set (evaluators s). registrations (appName ev) (database (proc s)) = 1)
      \<and> (\<forall>j \<in> set (jobs (launcher (proc s))).
            registrations (application j) (database (proc s)) = 1))"

definition demo_session :: session where
  "demo_session = \<lparr>proc = demo_process, evaluators = [], futures = []\<rparr>"

definition registered_db :: db where
  "registered_db =
     empty_db\<lparr>rows := [\<lparr>app_name = ''benchmarks.b3.babi_rnn.run'',
                         executable = ''python3 runner.py''\<rparr>]\<rparr>"

definition registered_process :: process where
  "registered_process = demo_process\<lparr>database := registered_db\<rparr>"

text \<open>A construction that has reached \<^verbatim>\<open>_init_app\<close> and not yet touched the table.\<close>

definition start :: "evaluator \<Rightarrow> construction" where
  "start self = \<lparr>obj = self, at = AtLookup\<rparr>"

text \<open>A small stand-in for the interpreter, Keras and the file system.\<close>

fun demo_show :: "pyval \<Rightarrow> string" where
  "demo_show (PInt i) = show_nat (nat i)"
| "demo_show (PStr s) = s"
| "demo_show (PFloat v) = (if v = 0xBFE75C28F5C28F5C then ''-0.73'' else ''0.5'')"
| "demo_show (PBool b) = (if b then ''True'' else ''False'')"
| "demo_show PNone = ''None''"

definition demo_ext :: "(unit, nat) externals" where
  "demo_ext =
     \<lparr>parser_options = [''--batch_size'', ''--epochs'', ''--dropout'', ''--optimizer''],
      parser_defaults = [(''batch_size'', PInt 32), (''epochs'', PInt 10),
                          (''dropout'', PFloat 0x3FE0000000000000), (''optimizer'', PStr ''adam'')],
      return_optimizer = (\<lambda>d. Inr ''adam''),
      show_val = demo_show,
      show_dict = (\<lambda>d. concat (map fst d)),
      show_strs = concat,
      show_rnn = (\<lambda>r. ''rnn''),
      format4 = (\<lambda>v. ''0.0000''),
      float_lt = (\<lambda>a b. False),
      script_dir = ''/repo/benchmarks/b3'',
      get_file = (\<lambda>fname origin. Inr (''/cache/'' @ fname)),
      sha224_hexdigest = (\<lambda>s. s),
      load_data = (\<lambda>path. Inr ([], ())),
      build_model = (\<lambda>d hp opt. Inr 0),
      fit_evaluate = (\<lambda>m d bs ep. Inr (Suc m, 0x3FE0000000000000, 0x3FE75C28F5C28F5C))\<rparr>"

definition demo_world :: "nat world" where
  "demo_world = \<lparr>memory = [[(''epochs'', PInt 10)]], stdout = [], fs = []\<rparr>"

definition offline_ext :: "(unit, nat) externals" where
  "offline_ext = demo_ext\<lparr>get_file := (\<lambda>fname origin. Inl (OtherError ''URLError''))\<rparr>"

definition demo_filled_dict :: pydict where
  "demo_filled_dict =
     [(''epochs'', PInt 10), (''batch_size'', PInt 32),
      (''dropout'', PFloat 0x3FE0000000000000), (''optimizer'', PStr ''adam''),
      (''rnn_type'', PStr ''LSTM''), (''embed_hidden_size'', PInt 50),
      (''sent_hidden_size'', PInt 100), (''query_hidden_size'', PInt 100)]"

definition demo_hyper :: hyper where
  "demo_hyper =
     \<lparr>BATCH_SIZE = PInt 32, EPOCHS = PInt 10, DROPOUT = PFloat 0x3FE0000000000000, RNN = LSTM,
      EMBED_HIDDEN_SIZE = PInt 50, SENT_HIDDEN_SIZE = PInt 100, QUERY_HIDDEN_SIZE = PInt 100\<rparr>"

text \<open>
  The name that the claim gives the two checkpoint files: the hash of the parameters
  other than \<^verbatim>\<open>epochs\<close>, taken in the sorted order of their keys, each written as
  \<^verbatim>\<open>.key=value\<close>; then the prefix and the suffix of the file.
\<close>

definition sorted_non_epoch_parameters :: "(pyval \<Rightarrow> string) \<Rightarrow> pydict \<Rightarrow> string" where
  "sorted_non_epoch_parameters sh param_dict =
     concat (map (\<lambda>key. case map_of param_dict key of
                           Some v \<Rightarrow> ''.'' @ key @ ''='' @ sh v
                         | None \<Rightarrow> [])
                 (filter (\<lambda>key. key \<noteq> ''epochs'') (sort (keys param_dict))))"

definition checkpoint_name :: "('d, 'm) externals \<Rightarrow> pydict \<Rightarrow> string \<Rightarrow> string" where
  "checkpoint_name ext param_dict suffix =
     BNAME @ ''-'' @ sha224_hexdigest ext (sorted_non_epoch_parameters (show_val ext) param_dict)
       @ suffix"

text \<open>
  A configuration that asks for \<open>e\<close> epochs in an empty directory, the dictionary that
  \<^verbatim>\<open>run\<close> makes of it, and a configuration that asks for 10 epochs in the directory that
  the run for \<open>e\<close> epochs leaves behind.
\<close>

definition first_world :: "int \<Rightarrow> nat world" where
  "first_world e = \<lparr>memory = [[(''epochs'', PInt e)]], stdout = [], fs = []\<rparr>"

definition filled_dict :: "int \<Rightarrow> pydict" where
  "filled_dict e =
     [(''epochs'', PInt e), (''batch_size'', PInt 32),
      (''dropout'', PFloat 0x3FE0000000000000), (''optimizer'', PStr ''adam''),
      (''rnn_type'', PStr ''LSTM''), (''embed_hidden_size'', PInt 50),
      (''sent_hidden_size'', PInt 100), (''query_hidden_size'', PInt 100)]"

definition second_world :: "int \<Rightarrow> nat world" where
  "second_world e =
     \<lparr>memory = [[(''epochs'', PInt 10)]], stdout = [],
      fs = fs (fst (run demo_ext 0 (first_world e)))\<rparr>"

definition demo_float_of :: "string \<Rightarrow> pyfloat option" where
  "demo_float_of s = (if s = ''-0.73'' then Some 0xBFE75C28F5C28F5C else None)"

definition demo_job :: job where
  "demo_job =
     \<lparr>name = ''task0'', workflow = ''benchmarks.b3.babi_rnn.run'',
      application = ''benchmarks.b3.babi_rnn.run'', args = [], environ_vars = [],
      request = [], cute_id = ''0'',
      workdir = [(''task0.out'', ''Training'' @ [CHR 0x0A] @ ''OUTPUT: -0.73'' @ [CHR 0x0A])]\<rparr>"

definition demo_loader :: "string \<Rightarrow> exn + pymodule" where
  "demo_loader nm =
     (if nm = ''deephyper.problem._neuralarchitecture'' then Inr [(''NaProblem'', 42)]
      else Inl (OtherError ''ModuleNotFoundError''))"

definition demo_lazy :: lazy_import where
  "demo_lazy = \<lparr>module_name = ''deephyper.problem'', wrapped = [(''Categorical'', 7)]\<rparr>"

definition demo_interp :: interp where
  "demo_interp =
     \<lparr>cache = [], sys_modules = [(''deephyper.problem'', [(''Categorical'', 7)])],
      import_calls = []\<rparr>"

text \<open>A database that answers the first access and fails the second.\<close>

definition flaky_db :: db where
  "flaky_db = empty_db\<lparr>faults := [None, Some ''OperationalError'']\<rparr>"

definition flaky_session :: session where
  "flaky_session = demo_session\<lparr>proc := demo_process\<lparr>database := flaky_db\<rparr>\<rparr>"

section \<open>Properties of the evaluator\<close>

subsection \<open>Dictionaries and the store\<close>

lemma map_of_setitem: "map_of (setitem d k v) = (map_of d)(k \<mapsto> v)"
  by (induction d) (auto simp: fun_eq_iff)

lemma override_loop_frame:
  "xa \<noteq> ra \<Longrightarrow> i \<noteq> ra \<Longrightarrow> override_loop xa ra ks h ! i = h ! i"
  by (induction ks arbitrary: h) (auto split: option.splits)

lemma override_loop_length: "length (override_loop xa ra ks h) = length h"
  by (induction ks arbitrary: h) (auto split: option.splits)

lemma override_loop_at:
  "xa \<noteq> ra \<Longrightarrow> ra < length h \<Longrightarrow>
   override_loop xa ra ks h ! ra =
     foldl (\<lambda>r k. case map_of (h ! xa) k of Some v \<Rightarrow> setitem r k v | None \<Rightarrow> r) (h ! ra) ks"
  by (induction ks arbitrary: h) (auto split: option.splits)

subsection \<open>The resource request\<close>

lemma request_eval_exec:
  assumes "xa < length (store p)"
  shows "request (task (snd (eval_exec self p xa))) =
     foldl (\<lambda>r k. case map_of (store p ! xa) k of Some v \<Rightarrow> setitem r k v | None \<Rightarrow> r)
       (default_resources (cls self)) (keys (default_resources (cls self)))"
  using assms
  by (simp add: eval_exec_def alloc_def add_job_def Let_def override_loop_at nth_append
      split: prod.splits)

lemma request_overridden:
  assumes "xa < length (store p)"
  shows "request (task (snd (eval_exec self p xa))) =
     overridden (store p ! xa) (default_resources (cls self))"
  unfolding request_eval_exec [OF assms]
  by (simp add: default_resources_def keys_def overridden_def split: option.splits)

lemma submitted_eval_exec:
  "jobs (launcher (fst (eval_exec self p xa))) = jobs (launcher p) @ [task (snd (eval_exec self p xa))]"
  by (simp add: eval_exec_def alloc_def add_job_def Let_def split: prod.splits)

lemma keys_overridden: "keys (overridden x res) = keys res"
  by (induction res) (auto simp: overridden_def keys_def)

lemma map_of_overridden:
  "map_of (overridden x res) k =
     (case map_of res k of
        None \<Rightarrow> None
      | Some d \<Rightarrow> Some (case map_of x k of Some v \<Rightarrow> v | None \<Rightarrow> d))"
  by (induction res) (auto simp: overridden_def split: option.splits)

lemma overridden_absent:
  "\<forall>k \<in> set (keys res). \<not> contains x k \<Longrightarrow> overridden x res = res"
  by (induction res) (auto simp: overridden_def keys_def contains_def)

lemma in_keys_map_of: "k \<in> set (keys d) \<Longrightarrow> \<exists>v. map_of d k = Some v"
  by (induction d) (auto simp: keys_def)

lemma demo_store_0: "store demo_process ! 0 = [(''epochs'', PInt 10), (''num_nodes'', PInt 4)]"
  by (simp add: demo_process_def)

lemma demo_store_1: "store demo_process ! Suc 0 = [(''epochs'', PInt 10)]"
  by (simp add: demo_process_def)

text \<open>
  Claim C1. For a configuration \<open>x\<close> handed to \<^verbatim>\<open>_eval_exec\<close>, the resource request of
  the submitted job is the defaults (1 node, 1 rank per node, 64 threads per rank,
  \<^verbatim>\<open>WORKERS_PER_NODE\<close> as packing count) when \<open>x\<close> has none of these keys; for each of
  these keys that \<open>x\<close> has, the request carries the value of \<open>x\<close>. The request has these
  four keys and no other, and the job carrying it is the one added to the launcher.
\<close>

theorem eval_exec_resource_request:
  assumes "xa < length (store p)"
  shows "((\<forall>k \<in> set (keys (default_resources (cls self))). \<not> contains (store p ! xa) k) \<longrightarrow>
            request (task (snd (eval_exec self p xa))) =
              [(''num_nodes'', PInt 1), (''ranks_per_node'', PInt 1),
               (''threads_per_rank'', PInt 64),
               (''node_packing_count'', PInt (WORKERS_PER_NODE (cls self)))])
       \<and> (\<forall>k v. k \<in> set (keys (default_resources (cls self))) \<and> map_of (store p ! xa) k = Some v \<longrightarrow>
             getitem (request (task (snd (eval_exec self p xa)))) k = Inr v)
       \<and> keys (request (task (snd (eval_exec self p xa)))) = keys (default_resources (cls self))
       \<and> last (jobs (launcher (fst (eval_exec self p xa)))) = task (snd (eval_exec self p xa))"
proof -
  let ?x = "store p ! xa"
  let ?res = "default_resources (cls self)"
  let ?r = "request (task (snd (eval_exec self p xa)))"
  have r: "?r = overridden ?x ?res"
    by (rule request_overridden [OF assms])
  have a: "(\<forall>k \<in> set (keys ?res). \<not> contains ?x k) \<longrightarrow>
            ?r = [(''num_nodes'', PInt 1), (''ranks_per_node'', PInt 1),
               (''threads_per_rank'', PInt 64),
               (''node_packing_count'', PInt (WORKERS_PER_NODE (cls self)))]"
  proof
    assume "\<forall>k \<in> set (keys ?res). \<not> contains ?x k"
    then have "?r = ?res" unfolding r by (rule overridden_absent)
    then show "?r = [(''num_nodes'', PInt 1), (''ranks_per_node'', PInt 1),
               (''threads_per_rank'', PInt 64),
               (''node_packing_count'', PInt (WORKERS_PER_NODE (cls self)))]"
      by (simp only: default_resources_def)
  qed
  have b: "\<forall>k v. k \<in> set (keys ?res) \<and> map_of ?x k = Some v \<longrightarrow> getitem ?r k = Inr v"
  proof (intro allI impI)
    fix k v assume h: "k \<in> set (keys ?res) \<and> map_of ?x k = Some v"
    then obtain d where "map_of ?res k = Some d" using in_keys_map_of by blast
    with h show "getitem ?r k = Inr v"
      unfolding r by (simp add: getitem_def map_of_overridden)
  qed
  have c: "keys ?r = keys ?res"
    unfolding r by (rule keys_overridden)
  have d: "last (jobs (launcher (fst (eval_exec self p xa)))) = task (snd (eval_exec self p xa))"
    by (simp add: submitted_eval_exec)
  show ?thesis using a b c d by (intro conjI)
qed

theorem eval_exec_resource_request_witness:
  "(0::nat) < length (store demo_process)
   \<and> getitem (request (task (snd (eval_exec demo_evaluator demo_process 0)))) ''num_nodes'' = Inr (PInt 4)
   \<and> request (task (snd (eval_exec demo_evaluator demo_process 1))) =
       [(''num_nodes'', PInt 1), (''ranks_per_node'', PInt 1), (''threads_per_rank'', PInt 64),
        (''node_packing_count'', PInt 2)]"
proof -
  have h0: "(0::nat) < length (store demo_process)" and h1: "(1::nat) < length (store demo_process)"
    by (simp_all add: demo_process_def)
  have k: "''num_nodes'' \<in> set (keys (default_resources (cls demo_evaluator)))"
    by (simp add: keys_def default_resources_def)
  have m: "map_of (store demo_process ! 0) ''num_nodes'' = Some (PInt 4)"
    by (simp add: demo_store_0)
  have n: "\<forall>k \<in> set (keys (default_resources (cls demo_evaluator))). \<not> contains (store demo_process ! 1) k"
    by (simp add: keys_def default_resources_def demo_store_1 contains_def)
  have w: "WORKERS_PER_NODE (cls demo_evaluator) = 2"
    by (simp add: demo_evaluator_def demo_object_def demo_class_def)
  from eval_exec_resource_request [OF h0, of demo_evaluator] k m
  have a: "getitem (request (task (snd (eval_exec demo_evaluator demo_process 0)))) ''num_nodes'' = Inr (PInt 4)"
    by blast
  from eval_exec_resource_request [OF h1, of demo_evaluator] n
  have "request (task (snd (eval_exec demo_evaluator demo_process 1))) =
       [(''num_nodes'', PInt 1), (''ranks_per_node'', PInt 1), (''threads_per_rank'', PInt 64),
        (''node_packing_count'', PInt (WORKERS_PER_NODE (cls demo_evaluator)))]"
    by blast
  then have b: "request (task (snd (eval_exec demo_evaluator demo_process 1))) =
       [(''num_nodes'', PInt 1), (''ranks_per_node'', PInt 1), (''threads_per_rank'', PInt 64),
        (''node_packing_count'', PInt 2)]"
    by (simp only: w)
  from h0 a b show ?thesis by (intro conjI)
qed

subsection \<open>Failed tasks\<close>

text \<open>
  Claim C2. For a failed task, \<^verbatim>\<open>_on_fail\<close> returns \<^verbatim>\<open>Evaluator.FAIL_RETURN_VALUE\<close>: it
  does not raise, and the value depends neither on the job nor on what was logged before.
\<close>

theorem on_fail_sentinel:
  "snd (on_fail c j lg) = Inr (FAIL_RETURN_VALUE c)
   \<and> (\<forall>e. snd (on_fail c j lg) \<noteq> Inl e)
   \<and> snd (on_fail c j' lg') = snd (on_fail c j lg)"
  by (simp add: on_fail_def)

subsection \<open>Registration\<close>

lemma begin_access_props:
  "begin_access d a = (d1, f) \<Longrightarrow>
     rows d1 = rows d \<and> in_atomic_block d1 = in_atomic_block d
     \<and> accesses d1 = accesses d @ [(in_atomic_block d, a)]"
  by (auto simp: begin_access_def Let_def split: list.splits)

lemma objects_get_props:
  assumes "objects_get d nm = (d1, r)"
  shows "rows d1 = rows d" and "in_atomic_block d1 = in_atomic_block d"
    and "accesses d1 = accesses d @ [(in_atomic_block d, Get nm)]"
    and "r = Inl ObjectDoesNotExist \<Longrightarrow> registrations nm d = 0"
    and "r = Inr a \<Longrightarrow> registrations nm d = 1 \<and> app_name a = nm"
proof -
  obtain d0 f where b: "begin_access d (Get nm) = (d0, f)" by (cases "begin_access d (Get nm)")
  note p = begin_access_props [OF b]
  from assms b have d1: "d1 = d0"
    by (auto simp: objects_get_def split: option.splits list.splits)
  show "rows d1 = rows d" "in_atomic_block d1 = in_atomic_block d"
    "accesses d1 = accesses d @ [(in_atomic_block d, Get nm)]"
    using p d1 by simp_all
  show "r = Inl ObjectDoesNotExist \<Longrightarrow> registrations nm d = 0"
    using assms b p by (auto simp: objects_get_def registrations_def split: option.splits list.splits)
  show "r = Inr a \<Longrightarrow> registrations nm d = 1 \<and> app_name a = nm"
  proof -
    assume ra: "r = Inr a"
    with assms b p have f: "filter (\<lambda>a. app_name a = nm) (rows d) = [a]"
      by (auto simp: objects_get_def split: option.splits list.splits)
    have "a \<in> set (filter (\<lambda>a. app_name a = nm) (rows d))" unfolding f by simp
    then have "app_name a = nm" by simp
    with f show ?thesis by (simp add: registrations_def)
  qed
qed

lemma objects_get_found:
  "objects_get d nm = (d1, Inl e) \<Longrightarrow> 0 < registrations nm d \<Longrightarrow> e \<noteq> ObjectDoesNotExist"
  using objects_get_props(4) by fastforce

lemma save_props:
  assumes "save d a = (d2, r)"
  shows "accesses d2 = accesses d @ [(in_atomic_block d, Save a)]"
    and "in_atomic_block d2 = in_atomic_block d"
    and "r = Inr u \<Longrightarrow> rows d2 = rows d @ [a]"
    and "r = Inl e \<Longrightarrow> rows d2 = rows d"
proof -
  obtain d0 f where b: "begin_access d (Save a) = (d0, f)" by (cases "begin_access d (Save a)")
  note p = begin_access_props [OF b]
  show "accesses d2 = accesses d @ [(in_atomic_block d, Save a)]"
    "in_atomic_block d2 = in_atomic_block d"
    "r = Inr u \<Longrightarrow> rows d2 = rows d @ [a]" "r = Inl e \<Longrightarrow> rows d2 = rows d"
    using assms b p by (auto simp: save_def split: option.splits)
qed


lemma init_app_found:
  assumes "objects_get (database p) (entry_point self) = (d1, Inr app)"
  shows "database (fst (init_app self p)) = d1"
    and "snd (init_app self p) = Inr (self\<lparr>appName := entry_point self\<rparr>)"
    and "store (fst (init_app self p)) = store p"
    and "launcher (fst (init_app self p)) = launcher p"
  using assms
  by (cases "run_function self"; simp add: init_app_def entry_point_def Let_def)+

lemma init_app_error:
  assumes "objects_get (database p) (entry_point self) = (d1, Inl e)" and "e \<noteq> ObjectDoesNotExist"
  shows "init_app self p = (p\<lparr>database := d1\<rparr>, Inl e)"
  using assms
  by (cases "run_function self") (simp add: init_app_def entry_point_def Let_def)

lemma init_app_absent:
  assumes "objects_get (database p) (entry_point self) = (d1, Inl ObjectDoesNotExist)"
    and "save d1 (new_app self) = (d2, saved)"
  shows "database (fst (init_app self p)) = d2"
    and "snd (init_app self p) =
           (case saved of Inl e2 \<Rightarrow> Inl e2 | Inr u \<Rightarrow> Inr (self\<lparr>appName := entry_point self\<rparr>))"
    and "store (fst (init_app self p)) = store p"
    and "launcher (fst (init_app self p)) = launcher p"
  using assms
  by (cases "run_function self"; cases saved;
      simp add: init_app_def entry_point_def new_app_def Let_def)+

lemma init_via_init_app:
  "database (fst (init LN self p)) = database (fst (init_app (prepared LN self) (announced self p)))"
  "store (fst (init LN self p)) = store (fst (init_app (prepared LN self) (announced self p)))"
  "launcher (fst (init LN self p)) = launcher (fst (init_app (prepared LN self) (announced self p)))"
  "snd (init LN self p) =
     (case snd (init_app (prepared LN self) (announced self p)) of
        Inl e \<Rightarrow> Inl e
      | Inr ev \<Rightarrow> Inr (ev\<lparr>transaction_context := Some transaction_atomic\<rparr>))"
  by (simp_all add: init_def prepared_def announced_def Let_def split: prod.splits sum.splits)

lemma prepared_simps [simp]:
  "entry_point (prepared LN self) = entry_point self"
  "new_app (prepared LN self) = new_app self"
  "database (announced self p) = database p"
  "store (announced self p) = store p"
  "launcher (announced self p) = launcher p"
  by (simp_all add: prepared_def announced_def entry_point_def new_app_def)

lemma init_found:
  assumes "objects_get (database p) (entry_point self) = (d1, Inr app)"
  shows "database (fst (init LN self p)) = d1"
    and "snd (init LN self p) =
           Inr (prepared LN self\<lparr>appName := entry_point self,
                                  transaction_context := Some transaction_atomic\<rparr>)"
proof -
  from assms have g: "objects_get (database (announced self p)) (entry_point (prepared LN self)) = (d1, Inr app)"
    by simp
  show "database (fst (init LN self p)) = d1"
    by (simp only: init_via_init_app init_app_found(1) [OF g])
  show "snd (init LN self p) =
           Inr (prepared LN self\<lparr>appName := entry_point self,
                                  transaction_context := Some transaction_atomic\<rparr>)"
    by (simp add: init_via_init_app init_app_found(2) [OF g])
qed

lemma init_error:
  assumes "objects_get (database p) (entry_point self) = (d1, Inl e)" and "e \<noteq> ObjectDoesNotExist"
  shows "database (fst (init LN self p)) = d1" and "snd (init LN self p) = Inl e"
proof -
  from assms have g: "objects_get (database (announced self p)) (entry_point (prepared LN self)) = (d1, Inl e)"
    by simp
  note r = init_app_error [OF g assms(2)]
  show "database (fst (init LN self p)) = d1" "snd (init LN self p) = Inl e"
    by (simp_all add: init_via_init_app r)
qed

lemma init_absent:
  assumes "objects_get (database p) (entry_point self) = (d1, Inl ObjectDoesNotExist)"
    and "save d1 (new_app self) = (d2, saved)"
  shows "database (fst (init LN self p)) = d2"
    and "snd (init LN self p) =
           (case saved of
              Inl e2 \<Rightarrow> Inl e2
            | Inr u \<Rightarrow> Inr (prepared LN self\<lparr>appName := entry_point self,
                                    transaction_context := Some transaction_atomic\<rparr>))"
proof -
  from assms have g: "objects_get (database (announced self p)) (entry_point (prepared LN self)) = (d1, Inl ObjectDoesNotExist)"
    and s: "save d1 (new_app (prepared LN self)) = (d2, saved)"
    by simp_all
  note r = init_app_absent [OF g s]
  show "database (fst (init LN self p)) = d2"
    by (simp only: init_via_init_app r(1))
  show "snd (init LN self p) =
           (case saved of
              Inl e2 \<Rightarrow> Inl e2
            | Inr u \<Rightarrow> Inr (prepared LN self\<lparr>appName := entry_point self,
                                    transaction_context := Some transaction_atomic\<rparr>))"
    by (cases saved) (simp_all add: init_via_init_app r(2))
qed

lemma init_frame:
  "store (fst (init LN self p)) = store p" "launcher (fst (init LN self p)) = launcher p"
proof -
  obtain d1 found where g: "objects_get (database (announced self p)) (entry_point (prepared LN self)) = (d1, found)"
    by (cases "objects_get (database (announced self p)) (entry_point (prepared LN self))")
  obtain d2 saved where s: "save d1 (new_app (prepared LN self)) = (d2, saved)"
    by (cases "save d1 (new_app (prepared LN self))")
  have "store (fst (init LN self p)) = store p \<and> launcher (fst (init LN self p)) = launcher p"
  proof (cases found)
    case (Inr app)
    with g init_app_found(3,4) [of "announced self p" "prepared LN self" d1 app]
    show ?thesis by (simp add: init_via_init_app)
  next
    case (Inl e)
    show ?thesis
    proof (cases "e = ObjectDoesNotExist")
      case True
      with Inl g s init_app_absent(3,4) [of "announced self p" "prepared LN self" d1 d2 saved]
      show ?thesis by (simp add: init_via_init_app)
    next
      case False
      with Inl g init_app_error [of "announced self p" "prepared LN self" d1 e]
      show ?thesis by (simp add: init_via_init_app)
    qed
  qed
  then show "store (fst (init LN self p)) = store p" "launcher (fst (init LN self p)) = launcher p"
    by simp_all
qed

lemma down_lookup:
  "objects_get (database down_process) (entry_point demo_object) =
     (down_db\<lparr>accesses := [(False, Get (entry_point demo_object))], faults := []\<rparr>,
      Inl (OtherError ''OperationalError''))"
  by (simp add: down_process_def down_db_def empty_db_def objects_get_def begin_access_def)

text \<open>
  Claim C6. In \<^verbatim>\<open>_init_app\<close> a lookup that fails with anything but "not found"
  (\<^verbatim>\<open>ObjectDoesNotExist\<close>) leaves the function with that very error: the constructor
  fails with it, and the lookup was the only access to the table (no second lookup, no
  save, no row added). Only "not found" is handled, by saving a new
  \<^verbatim>\<open>ApplicationDefinition\<close>; a lookup that finds the row changes nothing.
\<close>

theorem init_lookup_failure_propagates:
  assumes "objects_get (database p) (entry_point self) = (d1, found)"
  shows "(\<forall>e. found = Inl e \<and> e \<noteq> ObjectDoesNotExist \<longrightarrow>
            init_app self p = (p\<lparr>database := d1\<rparr>, Inl e)
            \<and> snd (init LAUNCHER_NODES self p) = Inl e
            \<and> database (fst (init LAUNCHER_NODES self p)) = d1
            \<and> accesses d1 = accesses (database p)
                 @ [(in_atomic_block (database p), Get (entry_point self))]
            \<and> rows d1 = rows (database p))
       \<and> (found = Inl ObjectDoesNotExist \<longrightarrow>
            database (fst (init LAUNCHER_NODES self p)) = fst (save d1 (new_app self))
            \<and> (snd (save d1 (new_app self)) = Inr () \<longrightarrow>
                 (\<exists>ev. snd (init LAUNCHER_NODES self p) = Inr ev)))
       \<and> (\<forall>app. found = Inr app \<longrightarrow>
            database (fst (init LAUNCHER_NODES self p)) = d1
            \<and> (\<exists>ev. snd (init LAUNCHER_NODES self p) = Inr ev))"
proof (intro conjI allI impI)
  fix e assume h: "found = Inl e \<and> e \<noteq> ObjectDoesNotExist"
  with assms have g: "objects_get (database p) (entry_point self) = (d1, Inl e)" by simp
  from h have ne: "e \<noteq> ObjectDoesNotExist" by simp
  show "init_app self p = (p\<lparr>database := d1\<rparr>, Inl e)" by (rule init_app_error [OF g ne])
  show "snd (init LAUNCHER_NODES self p) = Inl e" by (rule init_error(2) [OF g ne])
  show "database (fst (init LAUNCHER_NODES self p)) = d1" by (rule init_error(1) [OF g ne])
  show "accesses d1 = accesses (database p) @ [(in_atomic_block (database p), Get (entry_point self))]"
    by (rule objects_get_props(3) [OF assms])
  show "rows d1 = rows (database p)" by (rule objects_get_props(1) [OF assms])
next
  assume h: "found = Inl ObjectDoesNotExist"
  with assms have g: "objects_get (database p) (entry_point self) = (d1, Inl ObjectDoesNotExist)" by simp
  obtain d2 saved where s: "save d1 (new_app self) = (d2, saved)" by (cases "save d1 (new_app self)")
  show "database (fst (init LAUNCHER_NODES self p)) = fst (save d1 (new_app self))"
    by (simp add: init_absent(1) [OF g s] s)
  show "\<exists>ev. snd (init LAUNCHER_NODES self p) = Inr ev" if "snd (save d1 (new_app self)) = Inr ()"
    using that s by (simp add: init_absent(2) [OF g s])
next
  fix app assume h: "found = Inr app"
  with assms have g: "objects_get (database p) (entry_point self) = (d1, Inr app)" by simp
  show "database (fst (init LAUNCHER_NODES self p)) = d1" by (rule init_found(1) [OF g])
  show "\<exists>ev. snd (init LAUNCHER_NODES self p) = Inr ev" by (simp add: init_found(2) [OF g])
qed

theorem init_lookup_failure_propagates_witness:
  "objects_get (database down_process) (entry_point demo_object) =
     (down_db\<lparr>accesses := [(False, Get (entry_point demo_object))], faults := []\<rparr>,
      Inl (OtherError ''OperationalError''))
   \<and> OtherError ''OperationalError'' \<noteq> ObjectDoesNotExist
   \<and> snd (init 1 demo_object down_process) = Inl (OtherError ''OperationalError'')
   \<and> rows (database (fst (init 1 demo_object down_process))) = []"
proof -
  from init_lookup_failure_propagates [OF down_lookup, of 1]
  have "snd (init 1 demo_object down_process) = Inl (OtherError ''OperationalError'')
        \<and> database (fst (init 1 demo_object down_process)) =
            down_db\<lparr>accesses := [(False, Get (entry_point demo_object))], faults := []\<rparr>"
    by simp
  then show ?thesis using down_lookup by (simp add: down_db_def empty_db_def)
qed

lemma save_count_get:
  "accesses d1 = accesses d @ [(g, Get nm')] \<Longrightarrow> save_count nm d1 = save_count nm d"
  by (simp add: save_count_def)

lemma save_count_save:
  "accesses d2 = accesses d1 @ [(g, Save a)] \<Longrightarrow>
     save_count nm d2 = save_count nm d1 + (if app_name a = nm then 1 else 0)"
  by (simp add: save_count_def)

lemma registrations_rows: "rows d1 = rows d \<Longrightarrow> registrations nm d1 = registrations nm d"
  by (simp add: registrations_def)

lemma registrations_added:
  "rows d2 = rows d1 @ [a] \<Longrightarrow>
     registrations nm d2 = registrations nm d1 + (if app_name a = nm then 1 else 0)"
  by (simp add: registrations_def)

lemma app_name_new_app [simp]: "app_name (new_app self) = entry_point self"
  by (simp add: new_app_def)

text \<open>What one construction does to the table, seen from any name.\<close>

lemma init_effect:
  fixes LN self p nm
  defines "d \<equiv> database p" and "d' \<equiv> database (fst (init LN self p))"
    and "r \<equiv> snd (init LN self p)"
  shows "registrations nm d \<le> registrations nm d'"
    and "save_count nm d' \<le> save_count nm d + 1"
    and "0 < registrations nm d \<Longrightarrow>
           save_count nm d' = save_count nm d \<and> registrations nm d' = registrations nm d"
    and "0 < registrations (entry_point self) d \<Longrightarrow> rows d' = rows d"
    and "r = Inr ev \<Longrightarrow> save_count nm d < save_count nm d' \<Longrightarrow> 0 < registrations nm d'"
    and "r = Inr ev \<Longrightarrow> appName ev = entry_point self \<and> registrations (entry_point self) d' = 1"
    and "nm \<noteq> entry_point self \<Longrightarrow>
           save_count nm d' = save_count nm d \<and> registrations nm d' = registrations nm d"
proof -
  obtain d1 found where g: "objects_get d (entry_point self) = (d1, found)"
    by (cases "objects_get d (entry_point self)")
  obtain d2 saved where s: "save d1 (new_app self) = (d2, saved)"
    by (cases "save d1 (new_app self)")
  note gp = objects_get_props [OF g]
  note sp = save_props [OF s]
  have c1: "save_count nm d1 = save_count nm d" by (rule save_count_get [OF gp(3)])
  have r1: "registrations nm d1 = registrations nm d" by (rule registrations_rows [OF gp(1)])
  have c2: "save_count nm d2 = save_count nm d1 + (if entry_point self = nm then 1 else 0)"
    using save_count_save [OF sp(1), of nm] by simp
  consider (found) app where "found = Inr app"
    | (error) e where "found = Inl e" "e \<noteq> ObjectDoesNotExist"
    | (created) "found = Inl ObjectDoesNotExist" "saved = Inr ()"
    | (failed) e2 where "found = Inl ObjectDoesNotExist" "saved = Inl e2"
    by (cases found; cases saved) auto
  then have all: "registrations nm d \<le> registrations nm d'
      \<and> save_count nm d' \<le> save_count nm d + 1
      \<and> (0 < registrations nm d \<longrightarrow>
           save_count nm d' = save_count nm d \<and> registrations nm d' = registrations nm d)
      \<and> (0 < registrations (entry_point self) d \<longrightarrow> rows d' = rows d)
      \<and> (r = Inr ev \<longrightarrow> save_count nm d < save_count nm d' \<longrightarrow> 0 < registrations nm d')
      \<and> (r = Inr ev \<longrightarrow> appName ev = entry_point self \<and> registrations (entry_point self) d' = 1)
      \<and> (nm \<noteq> entry_point self \<longrightarrow>
           save_count nm d' = save_count nm d \<and> registrations nm d' = registrations nm d)"
  proof cases
    case (found app)
    with g have g': "objects_get (database p) (entry_point self) = (d1, Inr app)" by (simp add: d_def)
    have dd: "d' = d1" unfolding d'_def by (rule init_found(1) [OF g'])
    have rr: "r = Inr (prepared LN self\<lparr>appName := entry_point self,
                                  transaction_context := Some transaction_atomic\<rparr>)"
      unfolding r_def by (rule init_found(2) [OF g'])
    from gp(5) [OF found] have "registrations (entry_point self) d1 = 1"
      using registrations_rows [OF gp(1)] by simp
    with dd rr c1 r1 gp(1) show ?thesis by auto
  next
    case (error e)
    with g have g': "objects_get (database p) (entry_point self) = (d1, Inl e)" by (simp add: d_def)
    have dd: "d' = d1" unfolding d'_def by (rule init_error(1) [OF g' error(2)])
    have rr: "r = Inl e" unfolding r_def by (rule init_error(2) [OF g' error(2)])
    with dd c1 r1 gp(1) show ?thesis by auto
  next
    case created
    with g have g': "objects_get (database p) (entry_point self) = (d1, Inl ObjectDoesNotExist)"
      by (simp add: d_def)
    have dd: "d' = d2" unfolding d'_def by (rule init_absent(1) [OF g' s])
    have rr: "r = Inr (prepared LN self\<lparr>appName := entry_point self,
                                  transaction_context := Some transaction_atomic\<rparr>)"
      unfolding r_def using init_absent(2) [OF g' s, of LN] created by simp
    have z: "registrations (entry_point self) d = 0" by (rule gp(4) [OF created(1)])
    have r2: "registrations nm d2 = registrations nm d1 + (if entry_point self = nm then 1 else 0)"
      using registrations_added [OF sp(3) [OF created(2)], of nm] by simp
    have r3: "registrations (entry_point self) d2 = 1"
      using registrations_added [OF sp(3) [OF created(2)], of "entry_point self"]
        registrations_rows [OF gp(1), of "entry_point self"] z by simp
    from dd rr c1 r1 c2 r2 r3 z show ?thesis by auto
  next
    case (failed e2)
    with g have g': "objects_get (database p) (entry_point self) = (d1, Inl ObjectDoesNotExist)"
      by (simp add: d_def)
    have dd: "d' = d2" unfolding d'_def by (rule init_absent(1) [OF g' s])
    have rr: "r = Inl e2"
      unfolding r_def using init_absent(2) [OF g' s, of LN] failed by simp
    have z: "registrations (entry_point self) d = 0" by (rule gp(4) [OF failed(1)])
    have r2: "registrations nm d2 = registrations nm d1"
      by (rule registrations_rows [OF sp(4) [OF failed(2)]])
    from dd rr c1 r1 c2 r2 z show ?thesis by auto
  qed
  from all show "registrations nm d \<le> registrations nm d'" by blast
  from all show "save_count nm d' \<le> save_count nm d + 1" by blast
  from all show "0 < registrations nm d \<Longrightarrow>
           save_count nm d' = save_count nm d \<and> registrations nm d' = registrations nm d" by blast
  from all show "0 < registrations (entry_point self) d \<Longrightarrow> rows d' = rows d" by blast
  from all show "r = Inr ev \<Longrightarrow> save_count nm d < save_count nm d' \<Longrightarrow> 0 < registrations nm d'"
    by blast
  from all show "r = Inr ev \<Longrightarrow> appName ev = entry_point self \<and> registrations (entry_point self) d' = 1"
    by blast
  from all show "nm \<noteq> entry_point self \<Longrightarrow>
           save_count nm d' = save_count nm d \<and> registrations nm d' = registrations nm d"
    by blast
qed

lemma eval_exec_frame:
  "database (fst (eval_exec self p xa)) = database p"
  "jobs (launcher (fst (eval_exec self p xa))) = jobs (launcher p) @ [task (snd (eval_exec self p xa))]"
  "application (task (snd (eval_exec self p xa))) = appName self"
  by (simp_all add: eval_exec_def alloc_def add_job_def Let_def split: prod.splits)

lemma exec_construct:
  "exec LN (Construct self) s =
     (case snd (init LN self (proc s)) of
        Inl e \<Rightarrow> (s\<lparr>proc := fst (init LN self (proc s))\<rparr>, Inl e)
      | Inr ev \<Rightarrow> (s\<lparr>proc := fst (init LN self (proc s)), evaluators := evaluators s @ [ev]\<rparr>, Inr ()))"
  by (cases "init LN self (proc s)") (auto simp: exec_def split: sum.splits)

lemma exec_submit:
  "exec LN (Submit i xa) s =
     (if i < length (evaluators s) \<and> xa < length (store (proc s)) then
        (s\<lparr>proc := fst (eval_exec (evaluators s ! i) (proc s) xa),
           futures := futures s @ [snd (eval_exec (evaluators s ! i) (proc s) xa)]\<rparr>, Inr ())
      else (s, Inl (OtherError ''NameError'')))"
  by (cases "eval_exec (evaluators s ! i) (proc s) xa") (simp add: exec_def)

lemma demo_lookup:
  "objects_get (database demo_process) (entry_point demo_object) =
     (empty_db\<lparr>accesses := [(False, Get (entry_point demo_object))]\<rparr>, Inl ObjectDoesNotExist)"
  by (simp add: demo_process_def empty_db_def objects_get_def begin_access_def)

lemma demo_save:
  "save (empty_db\<lparr>accesses := [(False, Get (entry_point demo_object))]\<rparr>) (new_app demo_object) =
     (empty_db\<lparr>accesses := [(False, Get (entry_point demo_object)), (False, Save (new_app demo_object))],
               rows := [new_app demo_object]\<rparr>, Inr ())"
  by (simp add: empty_db_def save_def begin_access_def)

lemma demo_init_succeeds: "\<exists>ev. snd (init 1 demo_object demo_process) = Inr ev"
  using init_absent(2) [OF demo_lookup demo_save, of 1] by simp

lemma registered_entry:
  "registrations (entry_point demo_object) (database registered_process) = 1"
  by (simp add: registrations_def registered_process_def registered_db_def empty_db_def
      entry_point_def demo_object_def)

subsection \<open>Registration without a transaction\<close>

lemma begin_access_no_fault:
  "faults d = [] \<Longrightarrow>
     begin_access d a = (d\<lparr>accesses := accesses d @ [(in_atomic_block d, a)]\<rparr>, None)"
  by (simp add: begin_access_def)

lemma objects_get_absent:
  "faults d = [] \<Longrightarrow> registrations nm d = 0 \<Longrightarrow>
     objects_get d nm = (d\<lparr>accesses := accesses d @ [(in_atomic_block d, Get nm)]\<rparr>,
                         Inl ObjectDoesNotExist)"
  by (simp add: objects_get_def begin_access_no_fault registrations_def)

lemma objects_get_one:
  assumes "faults d = []" and "registrations nm d = 1"
  shows "\<exists>a. objects_get d nm = (d\<lparr>accesses := accesses d @ [(in_atomic_block d, Get nm)]\<rparr>, Inr a)"
proof -
  from assms(2) obtain a where "filter (\<lambda>a. app_name a = nm) (rows d) = [a]"
    by (auto simp: registrations_def length_Suc_conv)
  with assms(1) show ?thesis
    by (simp add: objects_get_def begin_access_no_fault)
qed

lemma save_no_fault:
  "faults d = [] \<Longrightarrow>
     save d a = (d\<lparr>accesses := accesses d @ [(in_atomic_block d, Save a)],
                    rows := rows d @ [a]\<rparr>, Inr ())"
  by (simp add: save_def begin_access_no_fault)

lemma step_lookup_absent:
  assumes "at t = AtLookup" and "faults d = []" and "registrations (entry_point (obj t)) d = 0"
  shows "step t d =
     (\<lparr>obj = (obj t)\<lparr>appName := entry_point (obj t)\<rparr>, at = AtSave\<rparr>,
      d\<lparr>accesses := accesses d @ [(in_atomic_block d, Get (entry_point (obj t)))]\<rparr>)"
  using assms objects_get_absent [OF assms(2,3)]
  by (cases "run_function (obj t)") (simp add: step_def entry_point_def Let_def)

lemma step_lookup_found:
  assumes "at t = AtLookup" and "faults d = []" and "registrations (entry_point (obj t)) d = 1"
  shows "step t d =
     (\<lparr>obj = (obj t)\<lparr>appName := entry_point (obj t)\<rparr>, at = Done\<rparr>,
      d\<lparr>accesses := accesses d @ [(in_atomic_block d, Get (entry_point (obj t)))]\<rparr>)"
proof -
  from objects_get_one [OF assms(2,3)] obtain a where
    "objects_get d (entry_point (obj t)) =
       (d\<lparr>accesses := accesses d @ [(in_atomic_block d, Get (entry_point (obj t)))]\<rparr>, Inr a)"
    by blast
  with assms(1) show ?thesis
    by (cases "run_function (obj t)") (simp add: step_def entry_point_def Let_def)
qed

lemma step_save:
  assumes "at t = AtSave" and "faults d = []"
  shows "step t d =
     (t\<lparr>at := Done\<rparr>,
      d\<lparr>accesses := accesses d @ [(in_atomic_block d,
            Save \<lparr>app_name = appName (obj t), executable = runner_executable (cls (obj t))\<rparr>)],
        rows := rows d @ [\<lparr>app_name = appName (obj t),
                           executable = runner_executable (cls (obj t))\<rparr>]\<rparr>)"
  using assms by (simp add: step_def Let_def save_no_fault)

text \<open>Two steps of one construction are \<^verbatim>\<open>_init_app\<close>.\<close>

lemma steps_are_init_app:
  "snd (step (fst (step (start self) (database p))) (snd (step (start self) (database p)))) =
     database (fst (init_app self p))
   \<and> outcome (fst (step (fst (step (start self) (database p))) (snd (step (start self) (database p))))) =
     Some (snd (init_app self p))"
proof -
  obtain d1 found where g: "objects_get (database p) (entry_point self) = (d1, found)"
    by (cases "objects_get (database p) (entry_point self)")
  obtain d2 saved where s: "save d1 (new_app self) = (d2, saved)"
    by (cases "save d1 (new_app self)")
  show ?thesis
  proof (cases found)
    case (Inr app)
    with g have g': "objects_get (database p) (entry_point self) = (d1, Inr app)" by simp
    from g' have "step (start self) (database p) = (\<lparr>obj = self\<lparr>appName := entry_point self\<rparr>, at = Done\<rparr>, d1)"
      by (cases "run_function self") (simp add: step_def start_def entry_point_def Let_def)
    then show ?thesis
      by (simp add: step_def outcome_def init_app_found [OF g'])
  next
    case (Inl e)
    show ?thesis
    proof (cases "e = ObjectDoesNotExist")
      case False
      from g Inl have g': "objects_get (database p) (entry_point self) = (d1, Inl e)" by simp
      from g' False have "step (start self) (database p) = (\<lparr>obj = self\<lparr>appName := entry_point self\<rparr>, at = Failed e\<rparr>, d1)"
        by (cases "run_function self") (simp add: step_def start_def entry_point_def Let_def)
      then show ?thesis
        by (simp add: step_def outcome_def init_app_error [OF g' False])
    next
      case True
      from g Inl True have g': "objects_get (database p) (entry_point self) = (d1, Inl ObjectDoesNotExist)"
        by simp
      from g' have 1: "step (start self) (database p) = (\<lparr>obj = self\<lparr>appName := entry_point self\<rparr>, at = AtSave\<rparr>, d1)"
        by (cases "run_function self") (simp add: step_def start_def entry_point_def Let_def)
      from s have s': "save d1 \<lparr>app_name = entry_point self, executable = runner_executable (cls self)\<rparr> = (d2, saved)"
        by (simp add: new_app_def)
      show ?thesis
        unfolding 1 fst_conv snd_conv
        using init_app_absent(1,2) [OF g' s] s'
        by (cases saved) (simp_all add: step_def outcome_def Let_def)
    qed
  qed
qed

lemma registrations_simps [simp]:
  "registrations nm (d\<lparr>accesses := xs\<rparr>) = registrations nm d"
  "registrations nm (d\<lparr>rows := rs\<rparr>) = length (filter (\<lambda>a. app_name a = nm) rs)"
  by (simp_all add: registrations_def)

lemma interleaved_lookups_first:
  assumes f: "faults d = []" and z: "registrations (entry_point a) d = 0"
    and same: "entry_point b = entry_point a"
  shows "interleave [0, 1, 0, 1] [start a, start b] d =
     ([\<lparr>obj = a\<lparr>appName := entry_point a\<rparr>, at = Done\<rparr>,
       \<lparr>obj = b\<lparr>appName := entry_point a\<rparr>, at = Done\<rparr>],
      d\<lparr>accesses := accesses d @
            [(in_atomic_block d, Get (entry_point a)), (in_atomic_block d, Get (entry_point a)),
             (in_atomic_block d, Save (new_app a)), (in_atomic_block d, Save (new_app b))],
        rows := rows d @ [new_app a, new_app b]\<rparr>)"
proof -
  let ?g = "(in_atomic_block d, Get (entry_point a))"
  let ?a1 = "\<lparr>obj = a\<lparr>appName := entry_point a\<rparr>, at = AtSave\<rparr>"
  let ?b1 = "\<lparr>obj = b\<lparr>appName := entry_point a\<rparr>, at = AtSave\<rparr>"
  let ?d1 = "d\<lparr>accesses := accesses d @ [?g]\<rparr>"
  let ?d2 = "d\<lparr>accesses := accesses d @ [?g, ?g]\<rparr>"
  let ?d3 = "d\<lparr>accesses := accesses d @ [?g, ?g, (in_atomic_block d, Save (new_app a))],
               rows := rows d @ [new_app a]\<rparr>"
  have s1: "step (start a) d = (?a1, ?d1)"
    using step_lookup_absent [of "start a" d] f z by (simp add: start_def)
  have s2: "step (start b) ?d1 = (?b1, ?d2)"
    using step_lookup_absent [of "start b" ?d1] f z same by (simp add: start_def)
  have s3: "step ?a1 ?d2 = (?a1\<lparr>at := Done\<rparr>, ?d3)"
    using step_save [of ?a1 ?d2] f by (simp add: new_app_def)
  have s4: "step ?b1 ?d3 = (?b1\<lparr>at := Done\<rparr>,
      d\<lparr>accesses := accesses d @ [?g, ?g, (in_atomic_block d, Save (new_app a)),
                                    (in_atomic_block d, Save (new_app b))],
        rows := rows d @ [new_app a, new_app b]\<rparr>)"
    using step_save [of ?b1 ?d3] f same by (simp add: new_app_def)
  show ?thesis
    by (simp add: s1 s2 s3 s4)
qed

lemma one_after_the_other:
  assumes f: "faults d = []" and z: "registrations (entry_point a) d = 0"
    and same: "entry_point b = entry_point a"
  shows "interleave [0, 0, 1, 1] [start a, start b] d =
     ([\<lparr>obj = a\<lparr>appName := entry_point a\<rparr>, at = Done\<rparr>,
       \<lparr>obj = b\<lparr>appName := entry_point a\<rparr>, at = Done\<rparr>],
      d\<lparr>accesses := accesses d @
            [(in_atomic_block d, Get (entry_point a)), (in_atomic_block d, Save (new_app a)),
             (in_atomic_block d, Get (entry_point a))],
        rows := rows d @ [new_app a]\<rparr>)"
proof -
  let ?g = "(in_atomic_block d, Get (entry_point a))"
  let ?s = "(in_atomic_block d, Save (new_app a))"
  let ?a1 = "\<lparr>obj = a\<lparr>appName := entry_point a\<rparr>, at = AtSave\<rparr>"
  let ?a2 = "\<lparr>obj = a\<lparr>appName := entry_point a\<rparr>, at = Done\<rparr>"
  let ?b2 = "\<lparr>obj = b\<lparr>appName := entry_point a\<rparr>, at = Done\<rparr>"
  let ?d1 = "d\<lparr>accesses := accesses d @ [?g]\<rparr>"
  let ?d2 = "d\<lparr>accesses := accesses d @ [?g, ?s], rows := rows d @ [new_app a]\<rparr>"
  let ?d3 = "d\<lparr>accesses := accesses d @ [?g, ?s, ?g], rows := rows d @ [new_app a]\<rparr>"
  have s1: "step (start a) d = (?a1, ?d1)"
    using step_lookup_absent [of "start a" d] f z by (simp add: start_def)
  have s2: "step ?a1 ?d1 = (?a2, ?d2)"
    using step_save [of ?a1 ?d1] f by (simp add: new_app_def)
  have one: "registrations (entry_point a) ?d2 = 1"
    using z by (simp add: registrations_def)
  have s3: "step (start b) ?d2 = (?b2, ?d3)"
    using step_lookup_found [of "start b" ?d2] f one same by (simp add: start_def)
  have s4: "step ?b2 ?d3 = (?b2, ?d3)"
    by (simp add: step_def)
  show ?thesis
    by (simp add: s1 s2 s3 s4)
qed

lemma init_accesses:
  "in_atomic_block (database (fst (init LN self p))) = in_atomic_block (database p)
   \<and> (\<exists>xs. accesses (database (fst (init LN self p))) =
             accesses (database p) @ map (Pair (in_atomic_block (database p))) xs)"
proof -
  obtain d1 found where g: "objects_get (database p) (entry_point self) = (d1, found)"
    by (cases "objects_get (database p) (entry_point self)")
  obtain d2 saved where s: "save d1 (new_app self) = (d2, saved)"
    by (cases "save d1 (new_app self)")
  note gp = objects_get_props [OF g]
  note sp = save_props [OF s]
  have x1: "accesses d1 = accesses (database p) @ map (Pair (in_atomic_block (database p))) [Get (entry_point self)]"
    using gp(3) by simp
  have x2: "accesses d2 = accesses (database p)
      @ map (Pair (in_atomic_block (database p))) [Get (entry_point self), Save (new_app self)]"
    using gp(2,3) sp(1) by simp
  consider (found) app where "found = Inr app"
    | (error) e where "found = Inl e" "e \<noteq> ObjectDoesNotExist"
    | (absent) "found = Inl ObjectDoesNotExist"
    by (cases found) auto
  then show ?thesis
  proof cases
    case (found app)
    with g have "database (fst (init LN self p)) = d1" by (simp add: init_found(1))
    with gp(2) x1 show ?thesis by metis
  next
    case (error e)
    with g have "database (fst (init LN self p)) = d1" by (simp add: init_error(1))
    with gp(2) x1 show ?thesis by metis
  next
    case absent
    with g s have "database (fst (init LN self p)) = d2" by (simp add: init_absent(1))
    with gp(2) sp(2) x2 show ?thesis by metis
  qed
qed

lemma init_app_transaction_context:
  "snd (init_app self p) = Inr ev \<Longrightarrow> transaction_context ev = transaction_context self"
  by (cases "run_function self")
     (auto simp: init_app_def Let_def split: prod.splits sum.splits if_splits)

lemma empty_db_facts:
  "faults empty_db = []" "registrations nm empty_db = 0" "in_atomic_block empty_db = False"
  "accesses empty_db = []" "rows empty_db = []"
  by (simp_all add: empty_db_def registrations_def)

text \<open>
  Claim C7, as amended. The existence check and the create of \<^verbatim>\<open>_init_app\<close> are two
  separate accesses of the registry, made in whatever transaction state the connection
  already has: the constructor opens no \<^verbatim>\<open>transaction.atomic\<close> block (every access it
  makes carries the flag the connection had before, and the flag is the same afterwards),
  and \<^verbatim>\<open>transaction_context\<close> is as it was while \<^verbatim>\<open>_init_app\<close> runs. On a registry that
  answers every access and has no row for the entry-point, two constructions for it that
  run one after the other leave one registration; when both look up before either saves,
  both complete and leave two.
\<close>

theorem registration_outside_transaction:
  assumes "faults d = []" and "registrations (entry_point a) d = 0"
    and "entry_point b = entry_point a"
  shows "registrations (entry_point a) (snd (interleave [0, 0, 1, 1] [start a, start b] d)) = 1
       \<and> registrations (entry_point a) (snd (interleave [0, 1, 0, 1] [start a, start b] d)) = 2
       \<and> map at (fst (interleave [0, 1, 0, 1] [start a, start b] d)) = [Done, Done]
       \<and> in_atomic_block (database (fst (init LAUNCHER_NODES a p))) = in_atomic_block (database p)
       \<and> (\<forall>g \<in> set (map fst (drop (length (accesses (database p)))
                                  (accesses (database (fst (init LAUNCHER_NODES a p)))))).
             g = in_atomic_block (database p))
       \<and> (\<forall>ev. snd (init_app a p) = Inr ev \<longrightarrow> transaction_context ev = transaction_context a)"
proof -
  have 1: "registrations (entry_point a) (snd (interleave [0, 0, 1, 1] [start a, start b] d)) = 1"
    unfolding one_after_the_other [OF assms] snd_conv
    using assms(2) by (simp add: registrations_def)
  have 2: "registrations (entry_point a) (snd (interleave [0, 1, 0, 1] [start a, start b] d)) = 2"
    unfolding interleaved_lookups_first [OF assms] snd_conv
    using assms(2,3) by (simp add: registrations_def)
  have 3: "map at (fst (interleave [0, 1, 0, 1] [start a, start b] d)) = [Done, Done]"
    unfolding interleaved_lookups_first [OF assms] fst_conv by simp
  from init_accesses [of LAUNCHER_NODES a p] obtain xs where
    4: "in_atomic_block (database (fst (init LAUNCHER_NODES a p))) = in_atomic_block (database p)"
    and x: "accesses (database (fst (init LAUNCHER_NODES a p))) =
             accesses (database p) @ map (Pair (in_atomic_block (database p))) xs"
    by blast
  have 5: "\<forall>g \<in> set (map fst (drop (length (accesses (database p)))
                                  (accesses (database (fst (init LAUNCHER_NODES a p)))))).
             g = in_atomic_block (database p)"
    unfolding x by auto
  have 6: "\<forall>ev. snd (init_app a p) = Inr ev \<longrightarrow> transaction_context ev = transaction_context a"
    using init_app_transaction_context by blast
  from 1 2 3 4 5 6 show ?thesis by blast
qed

theorem registration_outside_transaction_witness:
  "faults empty_db = [] \<and> registrations (entry_point demo_object) empty_db = 0
   \<and> registrations (entry_point demo_object)
        (snd (interleave [0, 0, 1, 1] [start demo_object, start demo_object] empty_db)) = 1
   \<and> map at (fst (interleave [0, 1, 0, 1] [start demo_object, start demo_object] empty_db)) = [Done, Done]"
  using registration_outside_transaction [of empty_db demo_object demo_object]
  by (simp only: empty_db_facts)

theorem registration_guard_counterexample:
  "registrations (entry_point demo_object)
     (snd (interleave [0, 1, 0, 1] [start demo_object, start demo_object] empty_db)) = 2
   \<and> map fst (accesses (snd (interleave [0, 1, 0, 1] [start demo_object, start demo_object] empty_db)))
       = [False, False, False, False]
   \<and> map fst (accesses (database (fst (init 1 demo_object demo_process)))) = [False, False]"
proof -
  have i: "interleave [0, 1, 0, 1] [start demo_object, start demo_object] empty_db =
     ([\<lparr>obj = demo_object\<lparr>appName := entry_point demo_object\<rparr>, at = Done\<rparr>,
       \<lparr>obj = demo_object\<lparr>appName := entry_point demo_object\<rparr>, at = Done\<rparr>],
      empty_db\<lparr>accesses := accesses empty_db @
            [(in_atomic_block empty_db, Get (entry_point demo_object)),
             (in_atomic_block empty_db, Get (entry_point demo_object)),
             (in_atomic_block empty_db, Save (new_app demo_object)),
             (in_atomic_block empty_db, Save (new_app demo_object))],
        rows := rows empty_db @ [new_app demo_object, new_app demo_object]\<rparr>)"
    by (rule interleaved_lookups_first) (simp_all add: empty_db_facts)
  have d: "database (fst (init 1 demo_object demo_process)) =
     empty_db\<lparr>accesses := [(False, Get (entry_point demo_object)), (False, Save (new_app demo_object))],
               rows := [new_app demo_object]\<rparr>"
    by (rule init_absent(1) [OF demo_lookup demo_save])
  show ?thesis
    unfolding i d snd_conv by (simp add: empty_db_facts registrations_def)
qed

subsection \<open>Registration over the life of a process\<close>

lemma init_rows:
  fixes LN self p
  defines "d \<equiv> database p" and "d' \<equiv> database (fst (init LN self p))"
  shows "rows d' = rows d \<or> (registrations (entry_point self) d = 0 \<and> rows d' = rows d @ [new_app self])"
    and "0 < registrations (entry_point self) d \<Longrightarrow>
           accesses d' = accesses d @ [(in_atomic_block d, Get (entry_point self))]"
proof -
  obtain d1 found where g: "objects_get (database p) (entry_point self) = (d1, found)"
    by (cases "objects_get (database p) (entry_point self)")
  obtain d2 saved where s: "save d1 (new_app self) = (d2, saved)"
    by (cases "save d1 (new_app self)")
  note gp = objects_get_props [OF g]
  note sp = save_props [OF s]
  consider (found) app where "found = Inr app"
    | (error) e where "found = Inl e" "e \<noteq> ObjectDoesNotExist"
    | (absent) "found = Inl ObjectDoesNotExist"
    by (cases found) auto
  then have "(rows d' = rows d \<or> (registrations (entry_point self) d = 0 \<and> rows d' = rows d @ [new_app self]))
     \<and> (0 < registrations (entry_point self) d \<longrightarrow>
           accesses d' = accesses d @ [(in_atomic_block d, Get (entry_point self))])"
  proof cases
    case (found app)
    with g have "d' = d1" unfolding d'_def by (simp add: init_found(1))
    with gp show ?thesis by (simp add: d_def)
  next
    case (error e)
    with g have "d' = d1" unfolding d'_def by (simp add: init_error(1))
    with gp show ?thesis by (simp add: d_def)
  next
    case absent
    with g have g': "objects_get (database p) (entry_point self) = (d1, Inl ObjectDoesNotExist)" by simp
    have dd: "d' = d2" unfolding d'_def by (rule init_absent(1) [OF g' s])
    have z: "registrations (entry_point self) d = 0" unfolding d_def by (rule gp(4) [OF absent])
    have "rows d2 = rows d1 \<or> rows d2 = rows d1 @ [new_app self]"
      using sp(3,4) by (cases saved) auto
    with dd z gp(1) show ?thesis by (auto simp: d_def)
  qed
  then show "rows d' = rows d \<or> (registrations (entry_point self) d = 0 \<and> rows d' = rows d @ [new_app self])"
    and "0 < registrations (entry_point self) d \<Longrightarrow>
           accesses d' = accesses d @ [(in_atomic_block d, Get (entry_point self))]"
    by simp_all
qed

lemma exec_all_registered:
  assumes "all_registered s"
  shows "all_registered (fst (exec LN a s))"
proof (cases a)
  case (Submit i xa)
  show ?thesis
  proof (cases "i < length (evaluators s) \<and> xa < length (store (proc s))")
    case True
    then have "evaluators s ! i \<in> set (evaluators s)" by simp
    with assms have "registrations (appName (evaluators s ! i)) (database (proc s)) = 1"
      by (simp add: all_registered_def)
    with assms True show ?thesis
      unfolding Submit by (auto simp: exec_submit all_registered_def eval_exec_frame)
  next
    case False
    with assms show ?thesis unfolding Submit exec_submit by auto
  qed
next
  case (Construct self)
  let ?d = "database (proc s)" and ?p' = "fst (init LN self (proc s))"
  have keep: "registrations nm (database ?p') = 1" if "registrations nm ?d = 1" for nm
    using init_effect(3) [where nm = nm and p = "proc s" and LN = LN and self = self] that by simp
  have l: "launcher ?p' = launcher (proc s)" by (rule init_frame(2))
  show ?thesis
  proof (cases "snd (init LN self (proc s))")
    case (Inl e)
    with assms keep l show ?thesis
      unfolding Construct exec_construct by (auto simp: all_registered_def)
  next
    case (Inr ev)
    from init_effect(6) [OF Inr]
    have "registrations (appName ev) (database ?p') = 1" by simp
    with Inr assms keep l show ?thesis
      unfolding Construct exec_construct by (auto simp: all_registered_def)
  qed
qed

lemma all_registered_start:
  "evaluators s = [] \<and> jobs (launcher (proc s)) = [] \<Longrightarrow> all_registered s"
  by (simp add: all_registered_def)

lemma run_actions_fst:
  "fst (run_actions LN (a # acts) s) = fst (run_actions LN acts (fst (exec LN a s)))"
  by (simp split: prod.splits)

lemma run_actions_all_registered:
  "all_registered s \<Longrightarrow> all_registered (fst (run_actions LN acts s))"
proof (induction acts arbitrary: s)
  case Nil
  then show ?case by simp
next
  case (Cons a acts)
  from exec_all_registered [OF Cons.prems, of LN a] have "all_registered (fst (exec LN a s))" .
  from Cons.IH [OF this] show ?case by (simp only: run_actions_fst)
qed

lemma init_registrations_step:
  "registrations nm (database (fst (init LN self p))) = registrations nm (database p)
   \<or> (registrations nm (database p) = 0 \<and> registrations nm (database (fst (init LN self p))) = 1)"
proof -
  have "rows (database (fst (init LN self p))) = rows (database p)
     \<or> (registrations (entry_point self) (database p) = 0
         \<and> rows (database (fst (init LN self p))) = rows (database p) @ [new_app self])"
    by (rule init_rows(1))
  then show ?thesis
  proof (elim disjE conjE)
    assume "rows (database (fst (init LN self p))) = rows (database p)"
    then show ?thesis by (simp add: registrations_def)
  next
    assume z: "registrations (entry_point self) (database p) = 0"
      and r: "rows (database (fst (init LN self p))) = rows (database p) @ [new_app self]"
    from registrations_added [OF r, of nm] z show ?thesis by auto
  qed
qed

lemma exec_database:
  "database (proc (fst (exec LN (Construct self) s))) = database (fst (init LN self (proc s)))"
  "database (proc (fst (exec LN (Submit i xa) s))) = database (proc s)"
  by (simp_all add: exec_construct exec_submit eval_exec_frame split: sum.splits)

lemma exec_registered_frozen:
  assumes "0 < registrations nm (database (proc s))"
  shows "save_count nm (database (proc (fst (exec LN a s)))) = save_count nm (database (proc s))
       \<and> registrations nm (database (proc (fst (exec LN a s)))) = registrations nm (database (proc s))"
proof (cases a)
  case (Construct self)
  from init_effect(3) [where nm = nm and p = "proc s" and LN = LN and self = self, OF assms]
  show ?thesis unfolding Construct by (simp add: exec_database)
next
  case (Submit i xa)
  show ?thesis unfolding Submit by (simp add: exec_database)
qed

lemma exec_registrations_step:
  "registrations nm (database (proc (fst (exec LN a s)))) = registrations nm (database (proc s))
   \<or> (registrations nm (database (proc s)) = 0
       \<and> registrations nm (database (proc (fst (exec LN a s)))) = 1)"
proof (cases a)
  case (Construct self)
  from init_registrations_step [of nm LN self "proc s"]
  show ?thesis unfolding Construct by (simp add: exec_database)
next
  case (Submit i xa)
  show ?thesis unfolding Submit by (simp add: exec_database)
qed

lemma run_actions_registered_frozen:
  "0 < registrations nm (database (proc s)) \<Longrightarrow>
     save_count nm (database (proc (fst (run_actions LN acts s)))) = save_count nm (database (proc s))
     \<and> registrations nm (database (proc (fst (run_actions LN acts s)))) =
         registrations nm (database (proc s))"
proof (induction acts arbitrary: s)
  case Nil
  then show ?case by simp
next
  case (Cons a acts)
  let ?s1 = "fst (exec LN a s)"
  from exec_registered_frozen [OF Cons.prems, of LN a]
  have f: "save_count nm (database (proc ?s1)) = save_count nm (database (proc s))"
    "registrations nm (database (proc ?s1)) = registrations nm (database (proc s))" by simp_all
  with Cons.prems have "0 < registrations nm (database (proc ?s1))" by simp
  from Cons.IH [OF this] f show ?case by (simp only: run_actions_fst)
qed

lemma run_actions_registrations_step:
  "registrations nm (database (proc (fst (run_actions LN acts s)))) = registrations nm (database (proc s))
   \<or> (registrations nm (database (proc s)) = 0
       \<and> registrations nm (database (proc (fst (run_actions LN acts s)))) = 1)"
proof (induction acts arbitrary: s)
  case Nil
  then show ?case by simp
next
  case (Cons a acts)
  define s1 where "s1 = fst (exec LN a s)"
  have fin: "fst (run_actions LN (a # acts) s) = fst (run_actions LN acts s1)"
    by (simp only: run_actions_fst s1_def)
  from exec_registrations_step [of nm LN a s]
  have 1: "registrations nm (database (proc s1)) = registrations nm (database (proc s))
     \<or> (registrations nm (database (proc s)) = 0 \<and> registrations nm (database (proc s1)) = 1)"
    by (simp only: s1_def)
  from Cons.IH [of s1]
  have 2: "registrations nm (database (proc (fst (run_actions LN acts s1)))) = registrations nm (database (proc s1))
     \<or> (registrations nm (database (proc s1)) = 0
         \<and> registrations nm (database (proc (fst (run_actions LN acts s1)))) = 1)" .
  from 1 2 show ?case unfolding fin by auto
qed


lemma objects_get_no_fault:
  assumes "faults d = []"
  shows "faults (fst (objects_get d nm)) = []"
    and "accesses (fst (objects_get d nm)) = accesses d @ [(in_atomic_block d, Get nm)]"
    and "rows (fst (objects_get d nm)) = rows d"
  using assms
  by (simp_all add: objects_get_def begin_access_no_fault split: list.splits)

lemma init_no_fault:
  assumes "faults (database p) = []"
  shows "faults (database (fst (init LN self p))) = []"
    and "(save_count nm (database (fst (init LN self p))) = save_count nm (database p)
          \<and> registrations nm (database (fst (init LN self p))) = registrations nm (database p))
         \<or> (registrations nm (database p) = 0
             \<and> save_count nm (database (fst (init LN self p))) = save_count nm (database p) + 1
             \<and> registrations nm (database (fst (init LN self p))) = 1)"
proof -
  let ?d = "database p" and ?d' = "database (fst (init LN self p))"
  obtain d1 found where g: "objects_get ?d (entry_point self) = (d1, found)"
    by (cases "objects_get ?d (entry_point self)")
  from objects_get_no_fault [OF assms, of "entry_point self"] g
  have f1: "faults d1 = []" by simp
  note gp = objects_get_props [OF g]
  have c1: "save_count nm d1 = save_count nm ?d" by (rule save_count_get [OF gp(3)])
  have r1: "registrations nm d1 = registrations nm ?d" by (rule registrations_rows [OF gp(1)])
  let ?d2 = "d1\<lparr>accesses := accesses d1 @ [(in_atomic_block d1, Save (new_app self))],
                rows := rows d1 @ [new_app self]\<rparr>"
  have s: "save d1 (new_app self) = (?d2, Inr ())" by (rule save_no_fault [OF f1])
  have "faults ?d' = []
     \<and> ((save_count nm ?d' = save_count nm ?d \<and> registrations nm ?d' = registrations nm ?d)
         \<or> (registrations nm ?d = 0 \<and> save_count nm ?d' = save_count nm ?d + 1
             \<and> registrations nm ?d' = 1))"
  proof (cases found)
    case (Inr app)
    with g have "?d' = d1" by (simp add: init_found(1))
    with f1 c1 r1 show ?thesis by simp
  next
    case (Inl e)
    show ?thesis
    proof (cases "e = ObjectDoesNotExist")
      case False
      with Inl g have "?d' = d1" by (simp add: init_error(1))
      with f1 c1 r1 show ?thesis by simp
    next
      case True
      with Inl g have g': "objects_get ?d (entry_point self) = (d1, Inl ObjectDoesNotExist)" by simp
      have dd: "?d' = ?d2" by (rule init_absent(1) [OF g' s])
      have z: "registrations (entry_point self) ?d = 0" by (rule gp(4)) (simp add: Inl True)
      have c2: "save_count nm ?d2 = save_count nm d1 + (if entry_point self = nm then 1 else 0)"
        by (simp add: save_count_def)
      have r2: "registrations nm ?d2 = registrations nm d1 + (if entry_point self = nm then 1 else 0)"
        by (simp add: registrations_def)
      from dd f1 c1 r1 c2 r2 z show ?thesis by auto
    qed
  qed
  then show "faults ?d' = []"
    and "(save_count nm ?d' = save_count nm ?d \<and> registrations nm ?d' = registrations nm ?d)
         \<or> (registrations nm ?d = 0 \<and> save_count nm ?d' = save_count nm ?d + 1
             \<and> registrations nm ?d' = 1)"
    by simp_all
qed

lemma exec_saved_once:
  assumes "saved_once nm s" and "faults (database (proc s)) = []"
  shows "saved_once nm (fst (exec LN a s)) \<and> faults (database (proc (fst (exec LN a s)))) = []"
proof (cases a)
  case (Submit i xa)
  with assms show ?thesis by (simp add: exec_database saved_once_def)
next
  case (Construct self)
  have f: "faults (database (fst (init LN self (proc s)))) = []"
    by (rule init_no_fault(1) [OF assms(2)])
  from init_no_fault(2) [OF assms(2), where nm = nm and LN = LN and self = self] assms(1) f
  show ?thesis unfolding Construct by (auto simp: exec_database saved_once_def)
qed

lemma run_actions_saved_once:
  "saved_once nm s \<Longrightarrow> faults (database (proc s)) = [] \<Longrightarrow>
     saved_once nm (fst (run_actions LN acts s))"
proof (induction acts arbitrary: s)
  case Nil
  then show ?case by simp
next
  case (Cons a acts)
  from exec_saved_once [OF Cons.prems, of LN a]
  have "saved_once nm (fst (exec LN a s))" "faults (database (proc (fst (exec LN a s)))) = []"
    by simp_all
  from Cons.IH [OF this] show ?case by (simp only: run_actions_fst)
qed

lemma saved_once_start: "accesses (database (proc s)) = [] \<Longrightarrow> saved_once nm s"
  by (simp add: saved_once_def save_count_def)


lemma exec_construct_jobs:
  "jobs (launcher (proc (fst (exec LN (Construct self) s)))) = jobs (launcher (proc s))"
  by (simp add: exec_construct init_frame split: sum.splits)

lemma demo_session_jobs:
  "length (jobs (launcher (proc (fst (run_actions 1
      [Construct demo_object, Submit 0 0, Construct demo_object] demo_session))))) = 1"
proof -
  from demo_init_succeeds obtain ev where i: "snd (init 1 demo_object demo_process) = Inr ev"
    by blast
  define p1 where "p1 = fst (init 1 demo_object demo_process)"
  define s1 where "s1 = demo_session\<lparr>proc := p1, evaluators := evaluators demo_session @ [ev]\<rparr>"
  define s2 where "s2 = s1\<lparr>proc := fst (eval_exec (evaluators s1 ! 0) (proc s1) 0),
                 futures := futures s1 @ [snd (eval_exec (evaluators s1 ! 0) (proc s1) 0)]\<rparr>"
  have pd: "proc demo_session = demo_process" by (simp add: demo_session_def)
  have e1: "fst (exec 1 (Construct demo_object) demo_session) = s1"
    by (simp add: exec_construct pd i s1_def p1_def)
  have st: "length (store (proc s1)) = 2" and jb: "jobs (launcher (proc s1)) = []"
    by (simp_all add: s1_def p1_def init_frame demo_process_def)
  have ev1: "length (evaluators s1) = 1" by (simp add: s1_def demo_session_def)
  have e2: "fst (exec 1 (Submit 0 0) s1) = s2"
    unfolding exec_submit s2_def using st ev1 by simp
  have j2: "length (jobs (launcher (proc s2))) = 1"
    by (simp add: s2_def eval_exec_frame jb)
  have "fst (run_actions 1 [Construct demo_object, Submit 0 0, Construct demo_object] demo_session) =
          fst (exec 1 (Construct demo_object) s2)"
    by (simp only: run_actions_fst e1 e2 run_actions.simps(1) fst_conv)
  with j2 show ?thesis by (simp only: exec_construct_jobs)
qed

lemma run_actions_cons:
  assumes "exec LN a s = (s1, r)"
  shows "run_actions LN (a # acts) s =
           (fst (run_actions LN acts s1), r # snd (run_actions LN acts s1))"
  using assms by (simp add: split_beta)

lemma flaky_lookup:
  "objects_get flaky_db nm =
     (flaky_db\<lparr>accesses := [(False, Get nm)], faults := [Some ''OperationalError'']\<rparr>,
      Inl ObjectDoesNotExist)"
  by (simp add: flaky_db_def empty_db_def objects_get_def begin_access_def)

lemma flaky_save:
  "save (flaky_db\<lparr>accesses := [(False, Get nm)], faults := [Some ''OperationalError'']\<rparr>) a =
     (flaky_db\<lparr>accesses := [(False, Get nm), (False, Save a)], faults := []\<rparr>,
      Inl (OtherError ''OperationalError''))"
  by (simp add: flaky_db_def empty_db_def save_def begin_access_def)

lemma flaky_run:
  "save_count (entry_point demo_object)
     (database (proc (fst (run_actions 1 [Construct demo_object, Construct demo_object]
        flaky_session)))) = 2
   \<and> snd (run_actions 1 [Construct demo_object, Construct demo_object] flaky_session) =
       [Inl (OtherError ''OperationalError''), Inr ()]"
proof -
  let ?nm = "entry_point demo_object"
  define p0 where "p0 = proc flaky_session"
  have d0: "database p0 = flaky_db" by (simp add: p0_def flaky_session_def)
  define d2 where "d2 = flaky_db\<lparr>accesses := [(False, Get ?nm), (False, Save (new_app demo_object))],
                                faults := []\<rparr>"
  have g1: "objects_get (database p0) ?nm =
      (flaky_db\<lparr>accesses := [(False, Get ?nm)], faults := [Some ''OperationalError'']\<rparr>,
       Inl ObjectDoesNotExist)"
    unfolding d0 by (rule flaky_lookup)
  have s1: "save (flaky_db\<lparr>accesses := [(False, Get ?nm)], faults := [Some ''OperationalError'']\<rparr>)
              (new_app demo_object) = (d2, Inl (OtherError ''OperationalError''))"
    unfolding d2_def by (rule flaky_save)
  define p1 where "p1 = fst (init 1 demo_object p0)"
  have db1: "database p1 = d2" unfolding p1_def by (rule init_absent(1) [OF g1 s1])
  have r1: "snd (init 1 demo_object p0) = Inl (OtherError ''OperationalError'')"
    using init_absent(2) [OF g1 s1, of 1] by simp
  define s1' where "s1' = flaky_session\<lparr>proc := p1\<rparr>"
  have e1: "exec 1 (Construct demo_object) flaky_session = (s1', Inl (OtherError ''OperationalError''))"
    using r1 by (simp add: exec_construct s1'_def p1_def p0_def)
  have f2: "faults d2 = []" and z2: "registrations ?nm d2 = 0"
    and a2: "accesses d2 = [(False, Get ?nm), (False, Save (new_app demo_object))]"
    and b2: "in_atomic_block d2 = False"
    by (simp_all add: d2_def flaky_db_def empty_db_def registrations_def)
  define d3 where "d3 = d2\<lparr>accesses := accesses d2 @ [(in_atomic_block d2, Get ?nm)]\<rparr>"
  define d4 where "d4 = d3\<lparr>accesses := accesses d3 @ [(in_atomic_block d3, Save (new_app demo_object))],
                         rows := rows d3 @ [new_app demo_object]\<rparr>"
  have ps: "proc s1' = p1" by (simp add: s1'_def)
  have g2: "objects_get (database (proc s1')) ?nm = (d3, Inl ObjectDoesNotExist)"
    unfolding ps db1 d3_def by (rule objects_get_absent [OF f2 z2])
  have f3: "faults d3 = []" by (simp add: d3_def f2)
  have s2: "save d3 (new_app demo_object) = (d4, Inr ())"
    unfolding d4_def by (rule save_no_fault [OF f3])
  have db2: "database (fst (init 1 demo_object (proc s1'))) = d4"
    by (rule init_absent(1) [OF g2 s2])
  obtain ev where r2: "snd (init 1 demo_object (proc s1')) = Inr ev"
    using init_absent(2) [OF g2 s2, of 1] by simp
  define s2' where "s2' = s1'\<lparr>proc := fst (init 1 demo_object (proc s1')),
                               evaluators := evaluators s1' @ [ev]\<rparr>"
  have e2: "exec 1 (Construct demo_object) s1' = (s2', Inr ())"
    using r2 by (simp add: exec_construct s2'_def)
  have run: "run_actions 1 [Construct demo_object, Construct demo_object] flaky_session =
        (s2', [Inl (OtherError ''OperationalError''), Inr ()])"
    by (simp only: run_actions_cons [OF e1] run_actions_cons [OF e2] run_actions.simps(1)
                   fst_conv snd_conv)
  have "database (proc s2') = d4" by (simp add: s2'_def db2)
  moreover have "save_count ?nm d4 = 2"
    by (simp add: d4_def d3_def a2 b2 save_count_def)
  ultimately show ?thesis unfolding run fst_conv snd_conv by simp
qed


text \<open>
  Claim C4, as amended. \<^verbatim>\<open>_init_app\<close>, run by the constructor, is a lookup followed by a
  save, and the save is made only when the lookup finds no row for the entry-point's
  name: when a row exists the lookup is the only access and the rows stay as they are,
  and otherwise the only change is the one new row. For constructions that run one after
  another, a construction that succeeds leaves exactly one row for the name, constructing
  again for the same entry-point leaves the rows alone, a name that has a row is never
  saved again and keeps its rows whatever the process constructs and submits, and a
  process adds at most one row for a name. When moreover the database answers every
  access and the process starts without database accesses, no name is saved more than
  once. And in a process that starts without evaluators and jobs, every evaluator it has,
  every job it has added and every job it could submit next names an application that
  has its row. Beyond that nothing holds: a save that fails is made again by the next
  construction, and two constructions that both look up before either saves each add a
  row.
\<close>

theorem registration_once_and_first:
  "(0 < registrations (entry_point self) (database p) \<longrightarrow>
      rows (database (fst (init LAUNCHER_NODES self p))) = rows (database p)
      \<and> accesses (database (fst (init LAUNCHER_NODES self p))) =
          accesses (database p) @ [(in_atomic_block (database p), Get (entry_point self))])
   \<and> (rows (database (fst (init LAUNCHER_NODES self p))) = rows (database p)
      \<or> (registrations (entry_point self) (database p) = 0
          \<and> rows (database (fst (init LAUNCHER_NODES self p))) = rows (database p) @ [new_app self]))
   \<and> (\<forall>ev. snd (init LAUNCHER_NODES self p) = Inr ev \<longrightarrow>
          appName ev = entry_point self
          \<and> registrations (entry_point self) (database (fst (init LAUNCHER_NODES self p))) = 1)
   \<and> (\<forall>ev again. snd (init LAUNCHER_NODES self p) = Inr ev \<and> entry_point again = entry_point self \<longrightarrow>
          rows (database (fst (init LAUNCHER_NODES again (fst (init LAUNCHER_NODES self p))))) =
            rows (database (fst (init LAUNCHER_NODES self p))))
   \<and> (\<forall>nm. 0 < registrations nm (database (proc s0)) \<longrightarrow>
          save_count nm (database (proc (fst (run_actions LAUNCHER_NODES acts s0)))) =
            save_count nm (database (proc s0))
          \<and> registrations nm (database (proc (fst (run_actions LAUNCHER_NODES acts s0)))) =
              registrations nm (database (proc s0)))
   \<and> (\<forall>nm. registrations nm (database (proc (fst (run_actions LAUNCHER_NODES acts s0)))) =
              registrations nm (database (proc s0))
          \<or> (registrations nm (database (proc s0)) = 0
              \<and> registrations nm (database (proc (fst (run_actions LAUNCHER_NODES acts s0)))) = 1))
   \<and> (faults (database (proc s0)) = [] \<and> accesses (database (proc s0)) = [] \<longrightarrow>
        (\<forall>nm. save_count nm (database (proc (fst (run_actions LAUNCHER_NODES acts s0)))) \<le> 1))
   \<and> (evaluators s0 = [] \<and> jobs (launcher (proc s0)) = [] \<longrightarrow>
        (\<forall>ev \<in> set (evaluators (fst (run_actions LAUNCHER_NODES acts s0))).
            registrations (appName ev)
              (database (proc (fst (run_actions LAUNCHER_NODES acts s0)))) = 1)
        \<and> (\<forall>j \<in> set (jobs (launcher (proc (fst (run_actions LAUNCHER_NODES acts s0))))).
            registrations (application j)
              (database (proc (fst (run_actions LAUNCHER_NODES acts s0)))) = 1)
        \<and> (\<forall>i xa. i < length (evaluators (fst (run_actions LAUNCHER_NODES acts s0))) \<longrightarrow>
            registrations
              (application (task (snd (eval_exec
                 (evaluators (fst (run_actions LAUNCHER_NODES acts s0)) ! i)
                 (proc (fst (run_actions LAUNCHER_NODES acts s0))) xa))))
              (database (proc (fst (run_actions LAUNCHER_NODES acts s0)))) = 1))"
proof (intro conjI)
  let ?p1 = "fst (init LAUNCHER_NODES self p)"
  show "0 < registrations (entry_point self) (database p) \<longrightarrow>
      rows (database ?p1) = rows (database p)
      \<and> accesses (database ?p1) =
          accesses (database p) @ [(in_atomic_block (database p), Get (entry_point self))]"
    using init_effect(4) [of self p LAUNCHER_NODES] init_rows(2) [of self p LAUNCHER_NODES] by blast
  show "rows (database ?p1) = rows (database p)
      \<or> (registrations (entry_point self) (database p) = 0
          \<and> rows (database ?p1) = rows (database p) @ [new_app self])"
    by (rule init_rows(1))
  show "\<forall>ev. snd (init LAUNCHER_NODES self p) = Inr ev \<longrightarrow>
          appName ev = entry_point self \<and> registrations (entry_point self) (database ?p1) = 1"
    using init_effect(6) by blast
  show "\<forall>ev again. snd (init LAUNCHER_NODES self p) = Inr ev \<and> entry_point again = entry_point self \<longrightarrow>
          rows (database (fst (init LAUNCHER_NODES again ?p1))) = rows (database ?p1)"
  proof (intro allI impI)
    fix ev again
    assume h: "snd (init LAUNCHER_NODES self p) = Inr ev \<and> entry_point again = entry_point self"
    then have "registrations (entry_point again) (database ?p1) = 1"
      using init_effect(6) [of LAUNCHER_NODES self p ev] by simp
    then have "0 < registrations (entry_point again) (database ?p1)" by simp
    then show "rows (database (fst (init LAUNCHER_NODES again ?p1))) = rows (database ?p1)"
      by (rule init_effect(4))
  qed
next
  let ?s = "fst (run_actions LAUNCHER_NODES acts s0)"
  show "\<forall>nm. 0 < registrations nm (database (proc s0)) \<longrightarrow>
          save_count nm (database (proc ?s)) = save_count nm (database (proc s0))
          \<and> registrations nm (database (proc ?s)) = registrations nm (database (proc s0))"
    using run_actions_registered_frozen by blast
  show "\<forall>nm. registrations nm (database (proc ?s)) = registrations nm (database (proc s0))
          \<or> (registrations nm (database (proc s0)) = 0 \<and> registrations nm (database (proc ?s)) = 1)"
    using run_actions_registrations_step by blast
  show "faults (database (proc s0)) = [] \<and> accesses (database (proc s0)) = [] \<longrightarrow>
        (\<forall>nm. save_count nm (database (proc ?s)) \<le> 1)"
  proof (intro impI allI)
    fix nm
    assume h: "faults (database (proc s0)) = [] \<and> accesses (database (proc s0)) = []"
    then have "saved_once nm s0" by (simp add: saved_once_start)
    with h have "saved_once nm ?s" by (simp add: run_actions_saved_once)
    then show "save_count nm (database (proc ?s)) \<le> 1" by (simp add: saved_once_def)
  qed
  show "evaluators s0 = [] \<and> jobs (launcher (proc s0)) = [] \<longrightarrow>
        (\<forall>ev \<in> set (evaluators ?s). registrations (appName ev) (database (proc ?s)) = 1)
        \<and> (\<forall>j \<in> set (jobs (launcher (proc ?s))). registrations (application j) (database (proc ?s)) = 1)
        \<and> (\<forall>i xa. i < length (evaluators ?s) \<longrightarrow>
            registrations (application (task (snd (eval_exec (evaluators ?s ! i) (proc ?s) xa))))
              (database (proc ?s)) = 1)"
  proof
    assume "evaluators s0 = [] \<and> jobs (launcher (proc s0)) = []"
    then have "all_registered ?s"
      by (intro run_actions_all_registered all_registered_start)
    then show "(\<forall>ev \<in> set (evaluators ?s). registrations (appName ev) (database (proc ?s)) = 1)
        \<and> (\<forall>j \<in> set (jobs (launcher (proc ?s))). registrations (application j) (database (proc ?s)) = 1)
        \<and> (\<forall>i xa. i < length (evaluators ?s) \<longrightarrow>
            registrations (application (task (snd (eval_exec (evaluators ?s ! i) (proc ?s) xa))))
              (database (proc ?s)) = 1)"
      by (simp add: all_registered_def eval_exec_frame)
  qed
qed

theorem registration_once_and_first_witness:
  "snd (init 1 demo_object demo_process) =
      Inr (prepared 1 demo_object\<lparr>appName := entry_point demo_object,
                                   transaction_context := Some transaction_atomic\<rparr>)
   \<and> registrations (entry_point demo_object) (database (fst (init 1 demo_object demo_process))) = 1
   \<and> rows (database (fst (init 1 demo_object (fst (init 1 demo_object demo_process))))) =
       rows (database (fst (init 1 demo_object demo_process)))
   \<and> 0 < registrations (entry_point demo_object) (database registered_process)
   \<and> rows (database (fst (init 1 demo_object registered_process))) = rows (database registered_process)
   \<and> registrations (entry_point demo_object)
        (database (proc (fst (run_actions 1 [Construct demo_object, Submit 0 0, Construct demo_object]
           (demo_session\<lparr>proc := registered_process\<rparr>))))) = 1
   \<and> faults (database (proc demo_session)) = [] \<and> accesses (database (proc demo_session)) = []
   \<and> save_count (entry_point demo_object)
        (database (proc (fst (run_actions 1 [Construct demo_object, Submit 0 0, Construct demo_object]
           demo_session)))) \<le> 1
   \<and> evaluators demo_session = [] \<and> jobs (launcher (proc demo_session)) = []
   \<and> length (jobs (launcher (proc (fst (run_actions 1
           [Construct demo_object, Submit 0 0, Construct demo_object] demo_session))))) = 1
   \<and> registrations
        (application (last (jobs (launcher (proc (fst (run_actions 1
           [Construct demo_object, Submit 0 0, Construct demo_object] demo_session)))))))
        (database (proc (fst (run_actions 1
           [Construct demo_object, Submit 0 0, Construct demo_object] demo_session)))) = 1"
proof -
  let ?acts = "[Construct demo_object, Submit 0 0, Construct demo_object]"
  let ?s = "fst (run_actions 1 ?acts demo_session)"
  let ?r = "demo_session\<lparr>proc := registered_process\<rparr>"
  have h0: "snd (init 1 demo_object demo_process) =
      Inr (prepared 1 demo_object\<lparr>appName := entry_point demo_object,
                                   transaction_context := Some transaction_atomic\<rparr>)"
    using init_absent(2) [OF demo_lookup demo_save, of 1] by simp
  have h1: "faults (database (proc demo_session)) = [] \<and> accesses (database (proc demo_session)) = []"
    by (simp add: demo_session_def demo_process_def empty_db_def)
  have h2: "evaluators demo_session = [] \<and> jobs (launcher (proc demo_session)) = []"
    by (simp add: demo_session_def demo_process_def)
  have h3: "0 < registrations (entry_point demo_object) (database registered_process)"
    by (simp add: registered_entry)
  have h4: "registrations (entry_point demo_object) (database (proc ?r)) = 1"
    by (simp add: registered_entry)
  note a = registration_once_and_first
    [where self = demo_object and p = demo_process and LAUNCHER_NODES = 1
       and acts = ?acts and ?s0.0 = demo_session]
  note b = registration_once_and_first
    [where self = demo_object and p = registered_process and LAUNCHER_NODES = 1
       and acts = ?acts and ?s0.0 = ?r]
  from a h0
  have c1: "registrations (entry_point demo_object) (database (fst (init 1 demo_object demo_process))) = 1"
    by blast
  from a h0
  have c0: "rows (database (fst (init 1 demo_object (fst (init 1 demo_object demo_process))))) =
       rows (database (fst (init 1 demo_object demo_process)))"
    by blast
  from b h3
  have c2: "rows (database (fst (init 1 demo_object registered_process))) = rows (database registered_process)"
    by blast
  from b h4
  have c6: "registrations (entry_point demo_object) (database (proc (fst (run_actions 1 ?acts ?r)))) = 1"
    by (metis zero_less_one)
  from a h1
  have c3: "save_count (entry_point demo_object) (database (proc ?s)) \<le> 1"
    by blast
  from a h2
  have c4: "\<forall>j \<in> set (jobs (launcher (proc ?s))).
        registrations (application j) (database (proc ?s)) = 1"
    by blast
  have "jobs (launcher (proc ?s)) \<noteq> []" using demo_session_jobs by auto
  then have "last (jobs (launcher (proc ?s))) \<in> set (jobs (launcher (proc ?s)))" by simp
  with c4 have c5: "registrations (application (last (jobs (launcher (proc ?s))))) (database (proc ?s)) = 1"
    by blast
  from h0 c1 c0 h3 c2 c6 h1 c3 h2 demo_session_jobs c5 show ?thesis by blast
qed

theorem registration_once_counterexample:
  "accesses (database (proc flaky_session)) = []
   \<and> registrations (entry_point demo_object) (database (proc flaky_session)) = 0
   \<and> snd (run_actions 1 [Construct demo_object, Construct demo_object] flaky_session) =
       [Inl (OtherError ''OperationalError''), Inr ()]
   \<and> save_count (entry_point demo_object)
        (database (proc (fst (run_actions 1 [Construct demo_object, Construct demo_object]
           flaky_session)))) = 2
   \<and> faults empty_db = [] \<and> accesses empty_db = [] \<and> rows empty_db = []
   \<and> map at (fst (interleave [0, 1, 0, 1] [start demo_object, start demo_object] empty_db)) =
       [Done, Done]
   \<and> registrations (entry_point demo_object)
        (snd (interleave [0, 1, 0, 1] [start demo_object, start demo_object] empty_db)) = 2
   \<and> save_count (entry_point demo_object)
        (snd (interleave [0, 1, 0, 1] [start demo_object, start demo_object] empty_db)) = 2"
proof -
  have i: "interleave [0, 1, 0, 1] [start demo_object, start demo_object] empty_db =
     ([\<lparr>obj = demo_object\<lparr>appName := entry_point demo_object\<rparr>, at = Done\<rparr>,
       \<lparr>obj = demo_object\<lparr>appName := entry_point demo_object\<rparr>, at = Done\<rparr>],
      empty_db\<lparr>accesses := accesses empty_db @
            [(in_atomic_block empty_db, Get (entry_point demo_object)),
             (in_atomic_block empty_db, Get (entry_point demo_object)),
             (in_atomic_block empty_db, Save (new_app demo_object)),
             (in_atomic_block empty_db, Save (new_app demo_object))],
        rows := rows empty_db @ [new_app demo_object, new_app demo_object]\<rparr>)"
    by (rule interleaved_lookups_first) (simp_all add: empty_db_facts)
  have f: "accesses (database (proc flaky_session)) = []
         \<and> registrations (entry_point demo_object) (database (proc flaky_session)) = 0"
    by (simp add: flaky_session_def flaky_db_def empty_db_def registrations_def)
  have g: "map at (fst (interleave [0, 1, 0, 1] [start demo_object, start demo_object] empty_db)) =
       [Done, Done]
   \<and> registrations (entry_point demo_object)
        (snd (interleave [0, 1, 0, 1] [start demo_object, start demo_object] empty_db)) = 2
   \<and> save_count (entry_point demo_object)
        (snd (interleave [0, 1, 0, 1] [start demo_object, start demo_object] empty_db)) = 2"
    unfolding i fst_conv snd_conv
    by (simp add: empty_db_facts registrations_def save_count_def)
  from f g flaky_run empty_db_facts(1,4,5) show ?thesis by blast
qed

section \<open>Properties of the training script\<close>

subsection \<open>What run leaves alone\<close>

lemma stage_in_frame:
  "memory (fst (stage_in ext names local_path use_cache w)) = memory w"
  "fs (fst (stage_in ext names local_path use_cache w)) = fs w"
  by (simp_all add: stage_in_def Let_def split: prod.splits)

lemma stage_dataset_frame:
  "memory (fst (stage_dataset ext w)) = memory w"
  "fs (fst (stage_dataset ext w)) = fs w"
proof -
  obtain w1 r where s: "stage_in ext [''babi-tasks-v1-2.tar.gz''] ''/local/scratch/'' True w = (w1, r)"
    by (cases "stage_in ext [''babi-tasks-v1-2.tar.gz''] ''/local/scratch/'' True w")
  from stage_in_frame [of ext "[''babi-tasks-v1-2.tar.gz'']" "''/local/scratch/''" True w] s
  have "memory w1 = memory w" "fs w1 = fs w" by simp_all
  then show "memory (fst (stage_dataset ext w)) = memory w" "fs (fst (stage_dataset ext w)) = fs w"
    using s by (simp_all add: stage_dataset_def split: sum.splits option.splits)
qed

lemma find_checkpoint_frame:
  "memory (fst (find_checkpoint ext pa w)) = memory w"
  "fs (fst (find_checkpoint ext pa w)) = fs w"
  by (simp_all add: find_checkpoint_def Let_def split: prod.splits sum.splits)

lemma obtain_model_frame:
  "memory (fst (obtain_model ext data hp optimizer c w)) = memory w"
  "fs (fst (obtain_model ext data hp optimizer c w)) = fs w"
  by (simp_all add: obtain_model_def)

lemma train_and_report_frame:
  "memory (fst (train_and_report ext data hp m c pa w)) = memory w"
  by (simp add: train_and_report_def Let_def split: sum.splits prod.splits)


lemma stage_dataset_frameD:
  "stage_dataset ext w = (w', r) \<Longrightarrow> memory w' = memory w \<and> fs w' = fs w"
  using stage_dataset_frame [of ext w] by simp

lemma find_checkpoint_frameD:
  "find_checkpoint ext pa w = (w', r) \<Longrightarrow> memory w' = memory w \<and> fs w' = fs w"
  using find_checkpoint_frame [of ext pa w] by simp

lemma obtain_model_frameD:
  "obtain_model ext data hp optimizer c w = (w', r) \<Longrightarrow> memory w' = memory w \<and> fs w' = fs w"
  using obtain_model_frame [of ext data hp optimizer c w] by simp

lemma train_and_report_frameD:
  "train_and_report ext data hp m c pa w = (w', r) \<Longrightarrow> memory w' = memory w"
  using train_and_report_frame [of ext data hp m c pa w] by simp

lemma prepare_memory:
  "memory (fst (prepare ext pa w)) =
     (case defaults ext of
        Inl e \<Rightarrow> memory w
      | Inr default_params \<Rightarrow> fill_loop pa default_params (memory w))"
  "fs (fst (prepare ext pa w)) = fs w"
  by (simp_all add: prepare_def Let_def split: sum.splits)

lemma run_memory:
  "memory (fst (run ext pa w)) =
     (case defaults ext of
        Inl e \<Rightarrow> memory w
      | Inr default_params \<Rightarrow> fill_loop pa default_params (memory w))"
proof -
  have "memory (fst (run ext pa w)) = memory (fst (prepare ext pa w))"
    unfolding run_def
    by (auto simp: Let_def train_and_report_frame split: sum.splits prod.splits
        dest!: stage_dataset_frameD find_checkpoint_frameD obtain_model_frameD)
  then show ?thesis by (simp only: prepare_memory)
qed

lemma contains_append: "contains (d @ e) k = (contains d k \<or> contains e k)"
  by (auto simp: contains_def map_add_Some_iff split: option.splits)

lemma setitem_absent: "\<not> contains d k \<Longrightarrow> setitem d k v = d @ [(k, v)]"
  by (induction d) (auto simp: contains_def split: if_splits)

lemma contains_keys: "contains d k = (k \<in> set (keys d))"
  by (induction d) (auto simp: contains_def keys_def)

lemma fill_loop_length: "length (fill_loop pa dp h) = length h"
  by (induction dp arbitrary: h) auto

lemma fill_loop_frame: "i \<noteq> pa \<Longrightarrow> fill_loop pa dp h ! i = h ! i"
  by (induction dp arbitrary: h) auto

lemma fill_loop_at:
  "pa < length h \<Longrightarrow>
     \<exists>extra. fill_loop pa dp h ! pa = h ! pa @ extra
       \<and> set extra \<subseteq> set dp
       \<and> (\<forall>k \<in> set (keys extra). \<not> contains (h ! pa) k)
       \<and> (\<forall>k \<in> set (keys dp). contains (fill_loop pa dp h ! pa) k)"
proof (induction dp arbitrary: h)
  case Nil
  then show ?case by (simp add: keys_def)
next
  case (Cons kv rest)
  obtain k v where kv: "kv = (k, v)" by (cases kv)
  show ?case
  proof (cases "contains (h ! pa) k")
    case True
    from Cons.IH [OF Cons.prems] obtain extra where
      e: "fill_loop pa rest h ! pa = h ! pa @ extra" "set extra \<subseteq> set rest"
         "\<forall>k \<in> set (keys extra). \<not> contains (h ! pa) k"
         "\<forall>k \<in> set (keys rest). contains (fill_loop pa rest h ! pa) k"
      by blast
    from True e(1) have "contains (fill_loop pa rest h ! pa) k" by (simp add: contains_append)
    with True e show ?thesis
      unfolding kv by (intro exI [of _ extra]) (auto simp: keys_def)
  next
    case False
    let ?h1 = "h[pa := setitem (h ! pa) k v]"
    have at1: "?h1 ! pa = h ! pa @ [(k, v)]"
      using Cons.prems False by (simp add: setitem_absent)
    have "pa < length ?h1" using Cons.prems by simp
    from Cons.IH [OF this] obtain extra where
      e: "fill_loop pa rest ?h1 ! pa = ?h1 ! pa @ extra" "set extra \<subseteq> set rest"
         "\<forall>k \<in> set (keys extra). \<not> contains (?h1 ! pa) k"
         "\<forall>k \<in> set (keys rest). contains (fill_loop pa rest ?h1 ! pa) k"
      by blast
    have k_in: "contains (fill_loop pa rest ?h1 ! pa) k"
      unfolding e(1) at1 by (simp add: contains_append contains_def)
    have no: "\<forall>k' \<in> set (keys ((k, v) # extra)). \<not> contains (h ! pa) k'"
      using e(3) False unfolding at1 by (auto simp: contains_append keys_def)
    show ?thesis
      unfolding kv using False e(1,2,4) k_in no at1
      by (intro exI [of _ "(k, v) # extra"]) (auto simp: keys_def)
  qed
qed

lemma map_of_prefix: "map_of d k = Some v \<Longrightarrow> map_of (d @ e) k = Some v"
  by (simp add: map_add_Some_iff)

lemma eval_exec_store:
  assumes "i < length (store p)" and "xa < length (store p)"
  shows "store (fst (eval_exec self p xa)) ! i = store p ! i"
proof -
  have "override_loop xa (length (store p)) ks (store p @ [r]) ! i = (store p @ [r]) ! i" for ks r
    using assms by (intro override_loop_frame) simp_all
  with assms show ?thesis
    by (simp add: eval_exec_def alloc_def add_job_def Let_def nth_append split: prod.splits)
qed

lemma demo_defaults:
  "defaults demo_ext =
     Inr [(''batch_size'', PInt 32), (''epochs'', PInt 10),
          (''dropout'', PFloat 0x3FE0000000000000), (''optimizer'', PStr ''adam''),
          (''rnn_type'', PStr ''LSTM''), (''embed_hidden_size'', PInt 50),
          (''sent_hidden_size'', PInt 100), (''query_hidden_size'', PInt 100)]"
  by (simp add: defaults_def demo_ext_def augment_parser_def add_argument_def then_do_def
      contains_def)

lemma demo_filled:
  "memory (fst (run demo_ext 0 demo_world)) ! 0 =
     [(''epochs'', PInt 10), (''batch_size'', PInt 32),
      (''dropout'', PFloat 0x3FE0000000000000), (''optimizer'', PStr ''adam''),
      (''rnn_type'', PStr ''LSTM''), (''embed_hidden_size'', PInt 50),
      (''sent_hidden_size'', PInt 100), (''query_hidden_size'', PInt 100)]"
  by (simp add: run_memory demo_defaults demo_world_def contains_def)

text \<open>
  Claim C8, as amended. \<^verbatim>\<open>_eval_exec\<close> leaves the configuration it is given as it was.
  \<^verbatim>\<open>run\<close> changes the dictionary it is given in one way only: behind the entries it
  had, it adds entries of the defaults for keys the dictionary lacked. Every entry
  present before the call is there afterwards with the same value (no key is removed or
  rebound), and afterwards every key of the defaults is present.
\<close>

theorem configuration_only_extended:
  assumes "xa < length (store p)" and "pa < length (memory w)"
  shows "store (fst (eval_exec self p xa)) ! xa = store p ! xa
       \<and> (\<exists>extra. memory (fst (run ext pa w)) ! pa = memory w ! pa @ extra
             \<and> (\<forall>k \<in> set (keys extra). \<not> contains (memory w ! pa) k)
             \<and> (\<forall>kv \<in> set extra. \<exists>dp. defaults ext = Inr dp \<and> kv \<in> set dp))
       \<and> (\<forall>k v. map_of (memory w ! pa) k = Some v \<longrightarrow>
             map_of (memory (fst (run ext pa w)) ! pa) k = Some v)
       \<and> (\<forall>dp. defaults ext = Inr dp \<longrightarrow>
             (\<forall>k \<in> set (keys dp). contains (memory (fst (run ext pa w)) ! pa) k))"
proof -
  have 1: "store (fst (eval_exec self p xa)) ! xa = store p ! xa"
    by (rule eval_exec_store [OF assms(1) assms(1)])
  have 2: "\<exists>extra. memory (fst (run ext pa w)) ! pa = memory w ! pa @ extra
             \<and> (\<forall>k \<in> set (keys extra). \<not> contains (memory w ! pa) k)
             \<and> (\<forall>kv \<in> set extra. \<exists>dp. defaults ext = Inr dp \<and> kv \<in> set dp)"
  proof (cases "defaults ext")
    case (Inl e)
    then show ?thesis by (simp add: run_memory keys_def)
  next
    case (Inr dp)
    from fill_loop_at [OF assms(2), of dp] obtain extra where
      "fill_loop pa dp (memory w) ! pa = memory w ! pa @ extra" "set extra \<subseteq> set dp"
      "\<forall>k \<in> set (keys extra). \<not> contains (memory w ! pa) k"
      by blast
    with Inr show ?thesis
      by (intro exI [of _ extra]) (auto simp: run_memory)
  qed
  from 2 have 3: "\<forall>k v. map_of (memory w ! pa) k = Some v \<longrightarrow>
             map_of (memory (fst (run ext pa w)) ! pa) k = Some v"
    using map_of_prefix by fastforce
  have 4: "\<forall>dp. defaults ext = Inr dp \<longrightarrow>
             (\<forall>k \<in> set (keys dp). contains (memory (fst (run ext pa w)) ! pa) k)"
    using fill_loop_at [OF assms(2)] by (auto simp: run_memory)
  from 1 2 3 4 show ?thesis by blast
qed

theorem configuration_only_extended_witness:
  "(0::nat) < length (store demo_process) \<and> (0::nat) < length (memory demo_world)
   \<and> store (fst (eval_exec demo_evaluator demo_process 0)) ! 0 = store demo_process ! 0
   \<and> map_of (memory demo_world ! 0) ''epochs'' = Some (PInt 10)
   \<and> map_of (memory (fst (run demo_ext 0 demo_world)) ! 0) ''epochs'' = Some (PInt 10)"
proof -
  have a: "(0::nat) < length (store demo_process)" by (simp add: demo_process_def)
  have b: "(0::nat) < length (memory demo_world)" by (simp add: demo_world_def)
  have c: "map_of (memory demo_world ! 0) ''epochs'' = Some (PInt 10)" by (simp add: demo_world_def)
  from configuration_only_extended [OF a b, of demo_evaluator demo_ext] c
  have "store (fst (eval_exec demo_evaluator demo_process 0)) ! 0 = store demo_process ! 0"
    and "map_of (memory (fst (run demo_ext 0 demo_world)) ! 0) ''epochs'' = Some (PInt 10)"
    by blast+
  with a b c show ?thesis by blast
qed

theorem configuration_immutable_counterexample:
  "memory demo_world ! 0 = [(''epochs'', PInt 10)]
   \<and> memory (fst (run demo_ext 0 demo_world)) ! 0 \<noteq> memory demo_world ! 0
   \<and> getitem (memory demo_world ! 0) ''batch_size'' = Inl (KeyError ''batch_size'')
   \<and> getitem (memory (fst (run demo_ext 0 demo_world)) ! 0) ''batch_size'' = Inr (PInt 32)"
  unfolding demo_filled by (simp add: demo_world_def getitem_def)

subsection \<open>Staging the dataset\<close>

lemma stage_dataset_failure:
  assumes "stage_in ext [''babi-tasks-v1-2.tar.gz''] ''/local/scratch/'' True w3 = (w4, Inl e)"
  shows "stage_dataset ext w3 = (w4\<lparr>stdout := stdout w4 @ [download_hint]\<rparr>, Inl e)"
  using assms by (simp add: stage_dataset_def)

lemma stage_in_one_failure:
  assumes "get_file ext (prepend @ nm) (''file://'' @ path_join (path_join (script_dir ext) ''data'') nm) = Inl e"
    and "prepend = (if path_exists (fs w) local_path then local_path else [])"
  shows "stage_in ext [nm] local_path True w =
     (w\<lparr>stdout := stdout w @ [''Looking for files: '' @ show_strs ext [nm],
                               ''In origin: '' @ path_join (script_dir ext) ''data'']\<rparr>, Inl e)"
  using assms by (simp add: stage_in_def Let_def)

lemma offline_defaults: "defaults offline_ext = defaults demo_ext"
  by (simp add: defaults_def offline_ext_def)

lemma demo_fill:
  "fill_loop 0 [(''batch_size'', PInt 32), (''epochs'', PInt 10),
          (''dropout'', PFloat 0x3FE0000000000000), (''optimizer'', PStr ''adam''),
          (''rnn_type'', PStr ''LSTM''), (''embed_hidden_size'', PInt 50),
          (''sent_hidden_size'', PInt 100), (''query_hidden_size'', PInt 100)]
     (memory demo_world) = [demo_filled_dict]"
  by (simp add: demo_world_def contains_def demo_filled_dict_def)



lemma demo_items:
  "getitem demo_filled_dict ''batch_size'' = Inr (PInt 32)"
  "getitem demo_filled_dict ''epochs'' = Inr (PInt 10)"
  "getitem demo_filled_dict ''dropout'' = Inr (PFloat 0x3FE0000000000000)"
  "getitem demo_filled_dict ''rnn_type'' = Inr (PStr ''LSTM'')"
  "getitem demo_filled_dict ''embed_hidden_size'' = Inr (PInt 50)"
  "getitem demo_filled_dict ''sent_hidden_size'' = Inr (PInt 100)"
  "getitem demo_filled_dict ''query_hidden_size'' = Inr (PInt 100)"
  by (simp_all add: getitem_def demo_filled_dict_def)

lemma then_do_Inr: "then_do (Inr a) f = f a"
  by (simp add: then_do_def)

lemma demo_read_hyper: "read_hyper demo_filled_dict = Inr demo_hyper"
  unfolding read_hyper_def demo_items then_do_Inr demo_hyper_def by simp


lemma offline_optimizer: "return_optimizer offline_ext d = Inr ''adam''"
  by (simp add: offline_ext_def demo_ext_def)

lemma prepare_success:
  assumes "defaults ext = Inr dp"
    and "return_optimizer ext (fill_loop pa dp (memory w) ! pa) = Inr opt"
    and "read_hyper (fill_loop pa dp (memory w) ! pa) = Inr hp"
  shows "snd (prepare ext pa w) = Inr (opt, hp)"
  by (simp add: prepare_def assms Let_def)

lemma offline_prepare: "snd (prepare offline_ext 0 demo_world) = Inr (''adam'', demo_hyper)"
proof (rule prepare_success)
  show "defaults offline_ext =
     Inr [(''batch_size'', PInt 32), (''epochs'', PInt 10),
          (''dropout'', PFloat 0x3FE0000000000000), (''optimizer'', PStr ''adam''),
          (''rnn_type'', PStr ''LSTM''), (''embed_hidden_size'', PInt 50),
          (''sent_hidden_size'', PInt 100), (''query_hidden_size'', PInt 100)]"
    by (simp only: offline_defaults demo_defaults)
  show "return_optimizer offline_ext
     (fill_loop 0 [(''batch_size'', PInt 32), (''epochs'', PInt 10),
          (''dropout'', PFloat 0x3FE0000000000000), (''optimizer'', PStr ''adam''),
          (''rnn_type'', PStr ''LSTM''), (''embed_hidden_size'', PInt 50),
          (''sent_hidden_size'', PInt 100), (''query_hidden_size'', PInt 100)]
        (memory demo_world) ! 0) = Inr ''adam''"
    by (rule offline_optimizer)
  show "read_hyper
     (fill_loop 0 [(''batch_size'', PInt 32), (''epochs'', PInt 10),
          (''dropout'', PFloat 0x3FE0000000000000), (''optimizer'', PStr ''adam''),
          (''rnn_type'', PStr ''LSTM''), (''embed_hidden_size'', PInt 50),
          (''sent_hidden_size'', PInt 100), (''query_hidden_size'', PInt 100)]
        (memory demo_world) ! 0) = Inr demo_hyper"
    by (simp only: demo_fill nth_Cons_0 demo_read_hyper)
qed


lemma offline_stage_in:
  "stage_in offline_ext [''babi-tasks-v1-2.tar.gz''] ''/local/scratch/'' True w =
     (w\<lparr>stdout := stdout w @ [''Looking for files: '' @ show_strs offline_ext [''babi-tasks-v1-2.tar.gz''],
                               ''In origin: '' @ path_join (script_dir offline_ext) ''data'']\<rparr>,
      Inl (OtherError ''URLError''))"
proof (rule stage_in_one_failure)
  show "get_file offline_ext
          ((if path_exists (fs w) ''/local/scratch/'' then ''/local/scratch/'' else []) @ ''babi-tasks-v1-2.tar.gz'')
          (''file://'' @ path_join (path_join (script_dir offline_ext) ''data'') ''babi-tasks-v1-2.tar.gz'')
        = Inl (OtherError ''URLError'')"
    by (simp add: offline_ext_def)
  show "(if path_exists (fs w) ''/local/scratch/'' then ''/local/scratch/'' else []) =
        (if path_exists (fs w) ''/local/scratch/'' then ''/local/scratch/'' else [])"
    by (rule refl)
qed

text \<open>
  Claim C9. A dataset staging error is fatal to \<^verbatim>\<open>run\<close>: when \<^verbatim>\<open>stage_in\<close> raises, the
  download instructions are printed, and then \<^verbatim>\<open>run\<close> ends with the very error that
  \<^verbatim>\<open>stage_in\<close> raised. Nothing is printed after the hint, no file is written and no value
  is returned in its place.
\<close>

theorem staging_error_is_fatal:
  assumes "prepare ext pa w = (w3, Inr (optimizer, hp))"
    and "stage_in ext [''babi-tasks-v1-2.tar.gz''] ''/local/scratch/'' True w3 = (w4, Inl e)"
  shows "run ext pa w = (w4\<lparr>stdout := stdout w4 @ [download_hint]\<rparr>, Inl e)
       \<and> last (stdout (fst (run ext pa w))) = download_hint
       \<and> fs (fst (run ext pa w)) = fs w
       \<and> (\<forall>v. snd (run ext pa w) \<noteq> Inr v)"
proof -
  have r: "run ext pa w = (w4\<lparr>stdout := stdout w4 @ [download_hint]\<rparr>, Inl e)"
    by (simp add: run_def assms(1) stage_dataset_failure [OF assms(2)])
  have "fs w4 = fs w3"
    using stage_in_frame(2) [of ext "[''babi-tasks-v1-2.tar.gz'']" "''/local/scratch/''" True w3]
      assms(2) by simp
  moreover have "fs w3 = fs w" using prepare_memory(2) [of ext pa w] assms(1) by simp
  ultimately show ?thesis by (simp add: r)
qed

theorem staging_error_is_fatal_witness:
  "prepare offline_ext 0 demo_world = (fst (prepare offline_ext 0 demo_world), Inr (''adam'', demo_hyper))
   \<and> snd (stage_in offline_ext [''babi-tasks-v1-2.tar.gz''] ''/local/scratch/'' True
             (fst (prepare offline_ext 0 demo_world))) = Inl (OtherError ''URLError'')
   \<and> snd (run offline_ext 0 demo_world) = Inl (OtherError ''URLError'')
   \<and> last (stdout (fst (run offline_ext 0 demo_world))) = download_hint"
proof -
  have p: "prepare offline_ext 0 demo_world =
             (fst (prepare offline_ext 0 demo_world), Inr (''adam'', demo_hyper))"
    using offline_prepare by (simp add: prod_eq_iff)
  have s: "snd (stage_in offline_ext [''babi-tasks-v1-2.tar.gz''] ''/local/scratch/'' True
             (fst (prepare offline_ext 0 demo_world))) = Inl (OtherError ''URLError'')"
    by (simp only: offline_stage_in snd_conv)
  note t = staging_error_is_fatal [OF p offline_stage_in]
  have r1: "snd (run offline_ext 0 demo_world) = Inl (OtherError ''URLError'')"
    using t [THEN conjunct1] by (metis snd_conv)
  have r2: "last (stdout (fst (run offline_ext 0 demo_world))) = download_hint"
    using t [THEN conjunct2, THEN conjunct1] .
  from p s r1 r2 show ?thesis by (intro conjI)
qed

subsection \<open>Checkpoints\<close>

lemma extension_loop_cong:
  "(\<forall>k \<in> set ks. k \<noteq> ''epochs'' \<longrightarrow> map_of d k = map_of d' k) \<Longrightarrow>
     extension_loop sh d ks acc = extension_loop sh d' ks acc"
proof (induction ks arbitrary: acc)
  case Nil
  then show ?case by (cases acc) simp
next
  case (Cons k ks)
  obtain out e where acc: "acc = (out, e)" by (cases acc)
  from Cons.prems have rest: "\<forall>k \<in> set ks. k \<noteq> ''epochs'' \<longrightarrow> map_of d k = map_of d' k"
    and here: "k \<noteq> ''epochs'' \<Longrightarrow> map_of d k = map_of d' k" by simp_all
  show ?case
    unfolding acc using Cons.IH [OF rest] here by (simp split: option.splits)
qed

lemma extension_loop_skip:
  "extension_loop sh d ks acc = extension_loop sh d (filter (\<lambda>k. k \<noteq> ''epochs'') ks) acc"
proof (induction ks arbitrary: acc)
  case Nil
  then show ?case by simp
next
  case (Cons k ks)
  obtain out e where acc: "acc = (out, e)" by (cases acc)
  show ?case unfolding acc using Cons.IH by (simp split: option.splits)
qed

lemma keys_setitem_others:
  "filter (\<lambda>k'. k' \<noteq> k) (keys (setitem d k v)) = filter (\<lambda>k'. k' \<noteq> k) (keys d)"
  by (induction d) (auto simp: keys_def)

lemma extension_snd:
  "snd (extension_from_parameters sh d) = snd (extension_loop sh d (sort (keys d)) ([], []))"
  by (simp add: extension_from_parameters_def split: prod.splits)

lemma extension_ignores_epochs:
  "snd (extension_from_parameters sh (setitem d ''epochs'' v)) = snd (extension_from_parameters sh d)"
proof -
  let ?d' = "setitem d ''epochs'' v"
  let ?ks = "filter (\<lambda>k. k \<noteq> ''epochs'') (sort (keys d))"
  have ks: "filter (\<lambda>k. k \<noteq> ''epochs'') (sort (keys ?d')) = ?ks"
    by (simp only: filter_sort keys_setitem_others)
  have "extension_loop sh ?d' (sort (keys ?d')) ([], []) = extension_loop sh ?d' ?ks ([], [])"
    by (subst extension_loop_skip) (simp only: ks)
  also have "\<dots> = extension_loop sh d ?ks ([], [])"
    by (rule extension_loop_cong) (simp add: map_of_setitem)
  also have "\<dots> = extension_loop sh d (sort (keys d)) ([], [])"
    by (rule extension_loop_skip [symmetric])
  finally show ?thesis by (simp only: extension_snd)
qed

lemma find_checkpoint_present:
  assumes "extension_from_parameters (show_val ext) (memory w ! pa) = (out, extension)"
    and "map_of (fs w) (BNAME @ ''-'' @ sha224_hexdigest ext extension @ ''.h5'') = Some (H5 m)"
    and "map_of (fs w) (BNAME @ ''-'' @ sha224_hexdigest ext extension @ ''.pkl'') = Some (Pickle saved)"
    and "map_of saved ''epochs'' = Some (PInt stored)"
    and "map_of (memory w ! pa) ''epochs'' = Some (PInt requested)"
  shows "find_checkpoint ext pa w =
     (w\<lparr>stdout := stdout w @ out @ [''model and meta data exists; loading model from h5 file'']\<rparr>,
      Inr \<lparr>model_name = BNAME @ ''-'' @ sha224_hexdigest ext extension @ ''.h5'',
           model_mda_name = BNAME @ ''-'' @ sha224_hexdigest ext extension @ ''.pkl'',
           initial_epoch = PInt stored, resume = (stored < requested), loaded = Some m\<rparr>)"
  using assms
  by (simp add: find_checkpoint_def Let_def path_exists_def load_model_def load_meta_data_def
      getitem_def py_less_def)


subsection \<open>The reported objective\<close>

lemma train_and_report_success:
  assumes "train_and_report ext data hp m c pa w = (w', Inr v)"
  shows "\<exists>trained loss acc.
           fit_evaluate ext m data (BATCH_SIZE hp) (EPOCHS hp) = Inr (trained, loss, acc)
           \<and> v = fneg acc
           \<and> stdout w' = stdout w @ [''Training'',
                ''Test loss / test accuracy = '' @ format4 ext loss @ '' / '' @ format4 ext acc,
                ''OUTPUT: '' @ show_val ext (PFloat (fneg acc))]"
  using assms
  by (auto simp: train_and_report_def Let_def split: sum.splits prod.splits)

lemma run_success:
  assumes "run ext pa w = (w', Inr v)"
  shows "\<exists>w3 optimizer hp w4 path printed data w6 c w7 m.
           prepare ext pa w = (w3, Inr (optimizer, hp))
           \<and> stage_dataset ext w3 = (w4, Inr path)
           \<and> load_data ext path = Inr (printed, data)
           \<and> find_checkpoint ext pa (w4\<lparr>stdout := stdout w4 @ printed\<rparr>) = (w6, Inr c)
           \<and> obtain_model ext data hp optimizer c w6 = (w7, Inr m)
           \<and> train_and_report ext data hp m c pa w7 = (w', Inr v)"
  using assms unfolding run_def
  by (simp add: Let_def split: sum.splits prod.splits)

lemma run_along:
  assumes "prepare ext pa w = (w3, Inr (optimizer, hp))"
    and "stage_dataset ext w3 = (w4, Inr path)"
    and "load_data ext path = Inr (printed, data)"
    and "find_checkpoint ext pa (w4\<lparr>stdout := stdout w4 @ printed\<rparr>) = (w6, Inr c)"
    and "obtain_model ext data hp optimizer c w6 = (w7, Inr m)"
  shows "run ext pa w = train_and_report ext data hp m c pa w7"
  by (simp add: run_def assms Let_def)

lemma parse_last_relevant:
  assumes "split_on CHR 0x0A output = before @ [line] @ after"
    and "output_value float_of line = Some v"
    and "\<forall>l \<in> set after. output_value float_of l = None"
  shows "parse float_of output = Some v"
proof -
  have "filter (\<lambda>x. output_value float_of x \<noteq> None) after = []"
    using assms(3) by (simp add: filter_empty_conv)
  then have "List.map_filter (output_value float_of) (before @ [line] @ after) =
        List.map_filter (output_value float_of) before @ [v]"
    using assms(2) by (simp add: List.map_filter_def)
  then show ?thesis
    by (simp add: parse_def assms(1))
qed

lemma output_line_value:
  "float_of s = Some v \<Longrightarrow> output_value float_of (''OUTPUT: '' @ s) = Some v"
  by (simp add: output_value_def)


lemma stage_dataset_ok:
  assumes "\<And>fname origin. \<exists>p. get_file ext fname origin = Inr p"
  shows "\<exists>w4 path. stage_dataset ext w = (w4, Inr path)"
proof -
  let ?prepend = "if path_exists (fs w) ''/local/scratch/'' then ''/local/scratch/'' else []"
  let ?origin = "path_join (path_join (script_dir ext) ''data'') ''babi-tasks-v1-2.tar.gz''"
  from assms obtain p where
    g: "get_file ext (?prepend @ ''babi-tasks-v1-2.tar.gz'') (''file://'' @ ?origin) = Inr p"
    by blast
  have "\<exists>w4. stage_in ext [''babi-tasks-v1-2.tar.gz''] ''/local/scratch/'' True w =
          (w4, Inr [(''babi-tasks-v1-2.tar.gz'', p)])"
    using g by (simp add: stage_in_def Let_def)
  then obtain w4 where "stage_in ext [''babi-tasks-v1-2.tar.gz''] ''/local/scratch/'' True w =
          (w4, Inr [(''babi-tasks-v1-2.tar.gz'', p)])" by blast
  then have "stage_dataset ext w = (w4, Inr p)"
    by (simp add: stage_dataset_def)
  then show ?thesis by blast
qed

lemma find_checkpoint_no_files:
  assumes "fs w = []"
  shows "\<exists>w1 c. find_checkpoint ext pa w = (w1, Inr c) \<and> \<not> resume c"
  using assms
  by (simp add: find_checkpoint_def Let_def path_exists_def split: prod.splits)

lemma demo_optimizer: "return_optimizer demo_ext d = Inr ''adam''"
  by (simp add: demo_ext_def)

lemma demo_prepare: "snd (prepare demo_ext 0 demo_world) = Inr (''adam'', demo_hyper)"
proof (rule prepare_success)
  show "defaults demo_ext =
     Inr [(''batch_size'', PInt 32), (''epochs'', PInt 10),
          (''dropout'', PFloat 0x3FE0000000000000), (''optimizer'', PStr ''adam''),
          (''rnn_type'', PStr ''LSTM''), (''embed_hidden_size'', PInt 50),
          (''sent_hidden_size'', PInt 100), (''query_hidden_size'', PInt 100)]"
    by (rule demo_defaults)
  show "return_optimizer demo_ext
     (fill_loop 0 [(''batch_size'', PInt 32), (''epochs'', PInt 10),
          (''dropout'', PFloat 0x3FE0000000000000), (''optimizer'', PStr ''adam''),
          (''rnn_type'', PStr ''LSTM''), (''embed_hidden_size'', PInt 50),
          (''sent_hidden_size'', PInt 100), (''query_hidden_size'', PInt 100)]
        (memory demo_world) ! 0) = Inr ''adam''"
    by (rule demo_optimizer)
  show "read_hyper
     (fill_loop 0 [(''batch_size'', PInt 32), (''epochs'', PInt 10),
          (''dropout'', PFloat 0x3FE0000000000000), (''optimizer'', PStr ''adam''),
          (''rnn_type'', PStr ''LSTM''), (''embed_hidden_size'', PInt 50),
          (''sent_hidden_size'', PInt 100), (''query_hidden_size'', PInt 100)]
        (memory demo_world) ! 0) = Inr demo_hyper"
    by (simp only: demo_fill nth_Cons_0 demo_read_hyper)
qed

lemma demo_externals:
  "get_file demo_ext fname origin = Inr (''/cache/'' @ fname)"
  "load_data demo_ext path = Inr ([], ())"
  "build_model demo_ext data hp opt = Inr 0"
  "fit_evaluate demo_ext m data bs ep = Inr (Suc m, 0x3FE0000000000000, 0x3FE75C28F5C28F5C)"
  by (simp_all add: demo_ext_def)

lemma demo_run:
  "\<exists>w'. run demo_ext 0 demo_world = (w', Inr (fneg 0x3FE75C28F5C28F5C))"
proof -
  obtain w3 where p: "prepare demo_ext 0 demo_world = (w3, Inr (''adam'', demo_hyper))"
    using demo_prepare by (cases "prepare demo_ext 0 demo_world") simp
  have f3: "fs w3 = []"
    using prepare_memory(2) [of demo_ext 0 demo_world] p by (simp add: demo_world_def)
  obtain w4 path where s: "stage_dataset demo_ext w3 = (w4, Inr path)"
    using stage_dataset_ok [of demo_ext w3] demo_externals(1) by blast
  have f4: "fs w4 = []"
    using stage_dataset_frameD [OF s] f3 by simp
  have l: "load_data demo_ext path = Inr ([], ())" by (rule demo_externals)
  obtain w6 c where c: "find_checkpoint demo_ext 0 (w4\<lparr>stdout := stdout w4 @ []\<rparr>) = (w6, Inr c)"
    and nr: "\<not> resume c"
    using find_checkpoint_no_files [of "w4\<lparr>stdout := stdout w4 @ []\<rparr>" demo_ext 0] f4 by auto
  have o: "obtain_model demo_ext () demo_hyper ''adam'' c w6 =
             (w6\<lparr>stdout := stdout w6 @ [''Build model...'']\<rparr>, Inr 0)"
    using nr by (simp add: obtain_model_def demo_externals)
  have "run demo_ext 0 demo_world =
          train_and_report demo_ext () demo_hyper 0 c 0 (w6\<lparr>stdout := stdout w6 @ [''Build model...'']\<rparr>)"
    by (rule run_along [OF p s l c o])
  then show ?thesis
    by (simp add: train_and_report_def demo_externals Let_def)
qed

lemma fneg_demo: "fneg 0x3FE75C28F5C28F5C = 0xBFE75C28F5C28F5C"
  by (simp add: fneg_def)


lemma demo_job_lines:
  "map_of (workdir demo_job) (name demo_job @ ''.out'')
     = Some (''Training'' @ [CHR 0x0A] @ ''OUTPUT: -0.73'' @ [CHR 0x0A])"
  "split_on CHR 0x0A (''Training'' @ [CHR 0x0A] @ ''OUTPUT: -0.73'' @ [CHR 0x0A])
     = [''Training''] @ [''OUTPUT: -0.73''] @ [[]]"
  "\<forall>l \<in> set [[]]. output_value demo_float_of l = None"
  "demo_float_of ''-0.73'' = Some 0xBFE75C28F5C28F5C"
  by (simp_all add: demo_job_def output_value_def demo_float_of_def)

text \<open>
  Claim C5. A run of the training script that succeeds ends its output with the line
  \<^verbatim>\<open>OUTPUT: \<close> followed by the value it returns, and that value is the negated accuracy
  given by the evaluation of the model. \<^verbatim>\<open>_on_done\<close> reads the file named after the job
  with \<^verbatim>\<open>.out\<close> appended in the job's working directory and returns what parsing it
  gives; when the last relevant line of that file is \<^verbatim>\<open>OUTPUT: -0.73\<close>, this is the float
  that \<^verbatim>\<open>-0.73\<close> denotes.
\<close>

theorem output_contract:
  "(\<forall>v. snd (run ext pa w) = Inr v \<longrightarrow>
      last (stdout (fst (run ext pa w))) = ''OUTPUT: '' @ show_val ext (PFloat v)
      \<and> (\<exists>m data bs ep trained loss acc.
            fit_evaluate ext m data bs ep = Inr (trained, loss, acc) \<and> v = fneg acc))
   \<and> (\<forall>output. map_of (workdir j) (name j @ ''.out'') = Some output \<longrightarrow>
         on_done float_of j = Inr (parse float_of output))
   \<and> (\<forall>output before after v.
         map_of (workdir j) (name j @ ''.out'') = Some output
         \<and> split_on CHR 0x0A output = before @ [''OUTPUT: -0.73''] @ after
         \<and> (\<forall>l \<in> set after. output_value float_of l = None)
         \<and> float_of ''-0.73'' = Some v \<longrightarrow>
         on_done float_of j = Inr (Some v))"
proof (intro conjI allI impI)
  fix v assume r: "snd (run ext pa w) = Inr v"
  then have "run ext pa w = (fst (run ext pa w), Inr v)" by (simp add: prod_eq_iff)
  from run_success [OF this] obtain data hp m c w7 where
    t: "train_and_report ext data hp m c pa w7 = (fst (run ext pa w), Inr v)" by blast
  from train_and_report_success [OF t] obtain trained loss acc where
    f: "fit_evaluate ext m data (BATCH_SIZE hp) (EPOCHS hp) = Inr (trained, loss, acc)"
    and v: "v = fneg acc"
    and out: "stdout (fst (run ext pa w)) = stdout w7 @ [''Training'',
                ''Test loss / test accuracy = '' @ format4 ext loss @ '' / '' @ format4 ext acc,
                ''OUTPUT: '' @ show_val ext (PFloat (fneg acc))]"
    by blast
  show "last (stdout (fst (run ext pa w))) = ''OUTPUT: '' @ show_val ext (PFloat v)"
    unfolding out v by simp
  show "\<exists>m data bs ep trained loss acc.
            fit_evaluate ext m data bs ep = Inr (trained, loss, acc) \<and> v = fneg acc"
    using f v by blast
next
  fix contents assume "map_of (workdir j) (name j @ ''.out'') = Some contents"
  then show "on_done float_of j = Inr (parse float_of contents)"
    by (simp add: on_done_def read_file_in_workdir_def)
next
  fix contents before after v
  assume h: "map_of (workdir j) (name j @ ''.out'') = Some contents
         \<and> split_on CHR 0x0A contents = before @ [''OUTPUT: -0.73''] @ after
         \<and> (\<forall>l \<in> set after. output_value float_of l = None)
         \<and> float_of ''-0.73'' = Some v"
  then have "output_value float_of ''OUTPUT: -0.73'' = Some v"
    using output_line_value [of float_of "''-0.73''" v] by simp
  with h have "parse float_of contents = Some v"
    by (intro parse_last_relevant [of contents before "''OUTPUT: -0.73''" after]) simp_all
  with h show "on_done float_of j = Inr (Some v)"
    by (simp add: on_done_def read_file_in_workdir_def)
qed

theorem output_contract_witness:
  "snd (run demo_ext 0 demo_world) = Inr 0xBFE75C28F5C28F5C
   \<and> last (stdout (fst (run demo_ext 0 demo_world))) = ''OUTPUT: -0.73''
   \<and> map_of (workdir demo_job) (name demo_job @ ''.out'')
        = Some (''Training'' @ [CHR 0x0A] @ ''OUTPUT: -0.73'' @ [CHR 0x0A])
   \<and> demo_float_of ''-0.73'' = Some 0xBFE75C28F5C28F5C
   \<and> on_done demo_float_of demo_job = Inr (Some 0xBFE75C28F5C28F5C)"
proof -
  note t = output_contract [of demo_ext 0 demo_world demo_job demo_float_of]
  have r: "snd (run demo_ext 0 demo_world) = Inr 0xBFE75C28F5C28F5C"
    using demo_run by (auto simp: fneg_demo)
  from t r have "last (stdout (fst (run demo_ext 0 demo_world))) =
      ''OUTPUT: '' @ show_val demo_ext (PFloat 0xBFE75C28F5C28F5C)"
    by blast
  then have l: "last (stdout (fst (run demo_ext 0 demo_world))) = ''OUTPUT: -0.73''"
    by (simp add: demo_ext_def)
  from t demo_job_lines
  have d: "on_done demo_float_of demo_job = Inr (Some 0xBFE75C28F5C28F5C)"
    by blast
  from r l demo_job_lines(1,4) d show ?thesis by (intro conjI)
qed

subsection \<open>Resuming from a checkpoint\<close>

lemma extension_loop_closed:
  "snd (extension_loop sh d ks (out, e)) =
     e @ concat (map (\<lambda>key. case map_of d key of Some v \<Rightarrow> ''.'' @ key @ ''='' @ sh v | None \<Rightarrow> [])
                     (filter (\<lambda>key. key \<noteq> ''epochs'') ks))"
  by (induction ks arbitrary: out e) (simp_all split: option.splits)

lemma extension_is_sorted_non_epoch:
  "snd (extension_from_parameters sh d) = sorted_non_epoch_parameters sh d"
  by (simp only: extension_snd extension_loop_closed sorted_non_epoch_parameters_def append_Nil)

lemma checkpoint_name_ignores_epochs:
  "checkpoint_name ext (setitem d ''epochs'' v) suffix = checkpoint_name ext d suffix"
  using extension_ignores_epochs [of "show_val ext" d v]
  by (simp only: checkpoint_name_def extension_is_sorted_non_epoch)

lemma checkpoint_names_differ:
  "checkpoint_name ext d ''.h5'' \<noteq> checkpoint_name ext d ''.pkl''"
  by (simp add: checkpoint_name_def)

lemma find_checkpoint_named:
  assumes "map_of (fs w) (checkpoint_name ext (memory w ! pa) ''.h5'') = Some (H5 m)"
    and "map_of (fs w) (checkpoint_name ext (memory w ! pa) ''.pkl'') = Some (Pickle saved)"
    and "map_of saved ''epochs'' = Some (PInt stored)"
    and "map_of (memory w ! pa) ''epochs'' = Some (PInt requested)"
  shows "\<exists>w6. find_checkpoint ext pa w =
     (w6, Inr \<lparr>model_name = checkpoint_name ext (memory w ! pa) ''.h5'',
               model_mda_name = checkpoint_name ext (memory w ! pa) ''.pkl'',
               initial_epoch = PInt stored, resume = (stored < requested), loaded = Some m\<rparr>)"
proof -
  obtain out extension where
    e: "extension_from_parameters (show_val ext) (memory w ! pa) = (out, extension)"
    by (cases "extension_from_parameters (show_val ext) (memory w ! pa)")
  then have x: "extension = sorted_non_epoch_parameters (show_val ext) (memory w ! pa)"
    using extension_is_sorted_non_epoch [of "show_val ext" "memory w ! pa"] by simp
  have n: "\<And>sfx. BNAME @ ''-'' @ sha224_hexdigest ext extension @ sfx =
                  checkpoint_name ext (memory w ! pa) sfx"
    by (simp only: checkpoint_name_def x)
  from find_checkpoint_present [OF e assms(1,2) [folded n] assms(3,4)]
  show ?thesis unfolding n by blast
qed

lemma find_checkpoint_fresh:
  assumes "fs w = []"
  shows "\<exists>w1. find_checkpoint ext pa w =
     (w1, Inr \<lparr>model_name = checkpoint_name ext (memory w ! pa) ''.h5'',
               model_mda_name = checkpoint_name ext (memory w ! pa) ''.pkl'',
               initial_epoch = PInt 0, resume = False, loaded = None\<rparr>)"
proof -
  obtain out extension where
    e: "extension_from_parameters (show_val ext) (memory w ! pa) = (out, extension)"
    by (cases "extension_from_parameters (show_val ext) (memory w ! pa)")
  then have x: "extension = sorted_non_epoch_parameters (show_val ext) (memory w ! pa)"
    using extension_is_sorted_non_epoch [of "show_val ext" "memory w ! pa"] by simp
  show ?thesis
    using assms e
    by (simp add: find_checkpoint_def Let_def path_exists_def checkpoint_name_def x)
qed

lemma train_and_report_files:
  assumes "fit_evaluate ext m data (BATCH_SIZE hp) (EPOCHS hp) = Inr (trained, loss, acc)"
  shows "fs (fst (train_and_report ext data hp m c pa w)) =
           setitem (setitem (fs w) (model_name c) (H5 trained)) (model_mda_name c)
             (Pickle (memory w ! pa))"
    and "snd (train_and_report ext data hp m c pa w) = Inr (fneg acc)"
  using assms by (simp_all add: train_and_report_def Let_def save_meta_data_def)

lemma run_fresh:
  fixes ext :: "('d, 'm) externals"
  assumes p: "prepare ext pa w = (w3, Inr (optimizer, hp))"
    and s: "stage_dataset ext w3 = (w4, Inr path)"
    and l: "load_data ext path = Inr (printed, data)"
    and f: "fs w = []"
    and b: "build_model ext data hp optimizer = Inr built"
    and t: "fit_evaluate ext built data (BATCH_SIZE hp) (EPOCHS hp) = Inr (trained, loss, acc)"
  shows "fs (fst (run ext pa w)) =
           [(checkpoint_name ext (memory w3 ! pa) ''.h5'', H5 trained),
            (checkpoint_name ext (memory w3 ! pa) ''.pkl'', Pickle (memory w3 ! pa))]"
    and "snd (run ext pa w) = Inr (fneg acc)"
proof -
  let ?w5 = "w4\<lparr>stdout := stdout w4 @ printed\<rparr>"
  have f3: "fs w3 = []" using prepare_memory(2) [of ext pa w] p f by simp
  have f5: "fs ?w5 = []" and m5: "memory ?w5 = memory w3"
    using stage_dataset_frameD [OF s] f3 by simp_all
  define c where "c = \<lparr>model_name = checkpoint_name ext (memory w3 ! pa) ''.h5'',
               model_mda_name = checkpoint_name ext (memory w3 ! pa) ''.pkl'',
               initial_epoch = PInt 0, resume = False, loaded = (None :: 'm option)\<rparr>"
  from find_checkpoint_fresh [OF f5, of ext pa] obtain w6 where
    fc: "find_checkpoint ext pa ?w5 = (w6, Inr c)"
    unfolding m5 c_def by blast
  have f6: "fs w6 = []" and m6: "memory w6 = memory w3"
    using find_checkpoint_frameD [OF fc] f5 m5 by simp_all
  define w7 where "w7 = w6\<lparr>stdout := stdout w6 @ [''Build model...'']\<rparr>"
  have o: "obtain_model ext data hp optimizer c w6 = (w7, Inr built)"
    by (simp add: obtain_model_def c_def b w7_def)
  have r: "run ext pa w = train_and_report ext data hp built c pa w7"
    by (rule run_along [OF p s l fc o])
  have f7: "fs w7 = []" and m7: "memory w7 = memory w3"
    by (simp_all add: w7_def f6 m6)
  show "fs (fst (run ext pa w)) =
           [(checkpoint_name ext (memory w3 ! pa) ''.h5'', H5 trained),
            (checkpoint_name ext (memory w3 ! pa) ''.pkl'', Pickle (memory w3 ! pa))]"
    unfolding r train_and_report_files(1) [OF t] f7 m7
    using checkpoint_names_differ [of ext "memory w3 ! pa"] by (simp add: c_def)
  show "snd (run ext pa w) = Inr (fneg acc)"
    unfolding r by (rule train_and_report_files(2) [OF t])
qed

text \<open>
  Claim C3. The checkpoint file and the metadata file of \<^verbatim>\<open>run\<close> are named by hashing the
  parameters of the configuration other than \<^verbatim>\<open>epochs\<close>, in the sorted order of their
  keys, so the names do not change with the epoch count. When \<^verbatim>\<open>run\<close> reaches line 275
  (defaults filled, dataset staged and loaded) and both files exist, a saved model and
  pickled parameters with an integer epoch count, and an integer epoch count is requested,
  then \<^verbatim>\<open>resume\<close> is set exactly when the stored count is less than the requested one:
  \<^verbatim>\<open>run\<close> then goes on to train the loaded model, and otherwise it prints that it builds
  the model, builds it anew and trains that one.
\<close>

theorem resume_iff_fewer_epochs:
  assumes "prepare ext pa w = (w3, Inr (optimizer, hp))"
    and "stage_dataset ext w3 = (w4, Inr path)"
    and "load_data ext path = Inr (printed, data)"
    and "map_of (fs w) (checkpoint_name ext (memory w3 ! pa) ''.h5'') = Some (H5 m)"
    and "map_of (fs w) (checkpoint_name ext (memory w3 ! pa) ''.pkl'') = Some (Pickle saved)"
    and "map_of saved ''epochs'' = Some (PInt stored)"
    and "map_of (memory w3 ! pa) ''epochs'' = Some (PInt requested)"
  shows "(\<exists>w6 c. find_checkpoint ext pa (w4\<lparr>stdout := stdout w4 @ printed\<rparr>) = (w6, Inr c)
            \<and> resume c = (stored < requested)
            \<and> loaded c = Some m \<and> initial_epoch c = PInt stored
            \<and> model_name c = checkpoint_name ext (memory w3 ! pa) ''.h5''
            \<and> model_mda_name c = checkpoint_name ext (memory w3 ! pa) ''.pkl''
            \<and> fs w6 = fs w \<and> memory w6 = memory w3
            \<and> run ext pa w =
                (if stored < requested then train_and_report ext data hp m c pa w6
                 else (case build_model ext data hp optimizer of
                         Inl e \<Rightarrow> (w6\<lparr>stdout := stdout w6 @ [''Build model...'']\<rparr>, Inl e)
                       | Inr built \<Rightarrow>
                           train_and_report ext data hp built c pa
                             (w6\<lparr>stdout := stdout w6 @ [''Build model...'']\<rparr>))))
       \<and> snd (extension_from_parameters (show_val ext) d) =
           sorted_non_epoch_parameters (show_val ext) d
       \<and> checkpoint_name ext (setitem d ''epochs'' v) suffix = checkpoint_name ext d suffix"
proof -
  let ?w5 = "w4\<lparr>stdout := stdout w4 @ printed\<rparr>"
  have f3: "fs w3 = fs w" using prepare_memory(2) [of ext pa w] assms(1) by simp
  have f5: "fs ?w5 = fs w" and m5: "memory ?w5 = memory w3"
    using stage_dataset_frameD [OF assms(2)] f3 by simp_all
  define c where "c = \<lparr>model_name = checkpoint_name ext (memory w3 ! pa) ''.h5'',
               model_mda_name = checkpoint_name ext (memory w3 ! pa) ''.pkl'',
               initial_epoch = PInt stored, resume = (stored < requested), loaded = Some m\<rparr>"
  from find_checkpoint_named [of ?w5 ext pa m saved stored requested] assms(4-7)
  obtain w6 where fc: "find_checkpoint ext pa ?w5 = (w6, Inr c)"
    unfolding f5 m5 c_def by blast
  have f6: "fs w6 = fs w" and m6: "memory w6 = memory w3"
    using find_checkpoint_frameD [OF fc] f5 m5 by simp_all
  have r: "run ext pa w =
      (if stored < requested then train_and_report ext data hp m c pa w6
       else (case build_model ext data hp optimizer of
               Inl e \<Rightarrow> (w6\<lparr>stdout := stdout w6 @ [''Build model...'']\<rparr>, Inl e)
             | Inr built \<Rightarrow>
                 train_and_report ext data hp built c pa
                   (w6\<lparr>stdout := stdout w6 @ [''Build model...'']\<rparr>)))"
    by (simp add: run_def assms(1-3) fc Let_def obtain_model_def c_def split: sum.splits)
  have 1: "\<exists>w6 c. find_checkpoint ext pa ?w5 = (w6, Inr c)
            \<and> resume c = (stored < requested)
            \<and> loaded c = Some m \<and> initial_epoch c = PInt stored
            \<and> model_name c = checkpoint_name ext (memory w3 ! pa) ''.h5''
            \<and> model_mda_name c = checkpoint_name ext (memory w3 ! pa) ''.pkl''
            \<and> fs w6 = fs w \<and> memory w6 = memory w3
            \<and> run ext pa w =
                (if stored < requested then train_and_report ext data hp m c pa w6
                 else (case build_model ext data hp optimizer of
                         Inl e \<Rightarrow> (w6\<lparr>stdout := stdout w6 @ [''Build model...'']\<rparr>, Inl e)
                       | Inr built \<Rightarrow>
                           train_and_report ext data hp built c pa
                             (w6\<lparr>stdout := stdout w6 @ [''Build model...'']\<rparr>)))"
    using fc f6 m6 r by (intro exI [of _ w6] exI [of _ c]) (simp add: c_def)
  from 1 extension_is_sorted_non_epoch [of "show_val ext" d]
    checkpoint_name_ignores_epochs [of ext d v suffix]
  show ?thesis by (intro conjI)
qed


lemma show_nat_demo: "show_nat 32 = ''32''" "show_nat 50 = ''50''" "show_nat 100 = ''100''"
  by code_simp+

lemma sorted_demo_keys:
  "sort [''epochs'', ''batch_size'', ''dropout'', ''optimizer'', ''rnn_type'',
         ''embed_hidden_size'', ''sent_hidden_size'', ''query_hidden_size''] =
     [''batch_size'', ''dropout'', ''embed_hidden_size'', ''epochs'', ''optimizer'',
      ''query_hidden_size'', ''rnn_type'', ''sent_hidden_size'']"
  by code_simp

lemma demo_parameters:
  "sorted_non_epoch_parameters demo_show (filled_dict e) =
     ''.batch_size=32.dropout=0.5.embed_hidden_size=50.optimizer=adam.query_hidden_size=100.rnn_type=LSTM.sent_hidden_size=100''"
  unfolding sorted_non_epoch_parameters_def filled_dict_def keys_def list.map fst_conv
    sorted_demo_keys
  by (simp add: show_nat_demo)

lemma demo_checkpoint_name:
  "checkpoint_name demo_ext (filled_dict e) suffix =
     ''babi_rnn-.batch_size=32.dropout=0.5.embed_hidden_size=50.optimizer=adam.query_hidden_size=100.rnn_type=LSTM.sent_hidden_size=100''
       @ suffix"
proof -
  have "show_val demo_ext = demo_show" "sha224_hexdigest demo_ext = (\<lambda>s. s)"
    by (simp_all add: demo_ext_def)
  then show ?thesis
    unfolding checkpoint_name_def by (simp add: demo_parameters BNAME_def)
qed

lemma first_fill:
  "fill_loop 0 [(''batch_size'', PInt 32), (''epochs'', PInt 10),
          (''dropout'', PFloat 0x3FE0000000000000), (''optimizer'', PStr ''adam''),
          (''rnn_type'', PStr ''LSTM''), (''embed_hidden_size'', PInt 50),
          (''sent_hidden_size'', PInt 100), (''query_hidden_size'', PInt 100)]
     [[(''epochs'', PInt e)]] = [filled_dict e]"
  by (simp add: contains_def filled_dict_def)

lemma filled_items:
  "getitem (filled_dict e) ''batch_size'' = Inr (PInt 32)"
  "getitem (filled_dict e) ''epochs'' = Inr (PInt e)"
  "getitem (filled_dict e) ''dropout'' = Inr (PFloat 0x3FE0000000000000)"
  "getitem (filled_dict e) ''rnn_type'' = Inr (PStr ''LSTM'')"
  "getitem (filled_dict e) ''embed_hidden_size'' = Inr (PInt 50)"
  "getitem (filled_dict e) ''sent_hidden_size'' = Inr (PInt 100)"
  "getitem (filled_dict e) ''query_hidden_size'' = Inr (PInt 100)"
  by (simp_all add: getitem_def filled_dict_def)

lemma filled_read_hyper: "read_hyper (filled_dict e) = Inr (demo_hyper\<lparr>EPOCHS := PInt e\<rparr>)"
  unfolding read_hyper_def filled_items then_do_Inr demo_hyper_def by simp

lemma filled_prepare:
  assumes "memory w = [[(''epochs'', PInt e)]]"
  shows "snd (prepare demo_ext 0 w) = Inr (''adam'', demo_hyper\<lparr>EPOCHS := PInt e\<rparr>)"
    and "memory (fst (prepare demo_ext 0 w)) ! 0 = filled_dict e"
proof -
  show "snd (prepare demo_ext 0 w) = Inr (''adam'', demo_hyper\<lparr>EPOCHS := PInt e\<rparr>)"
  proof (rule prepare_success [OF demo_defaults])
    show "return_optimizer demo_ext
       (fill_loop 0 [(''batch_size'', PInt 32), (''epochs'', PInt 10),
          (''dropout'', PFloat 0x3FE0000000000000), (''optimizer'', PStr ''adam''),
          (''rnn_type'', PStr ''LSTM''), (''embed_hidden_size'', PInt 50),
          (''sent_hidden_size'', PInt 100), (''query_hidden_size'', PInt 100)]
        (memory w) ! 0) = Inr ''adam''"
      by (rule demo_optimizer)
    show "read_hyper
       (fill_loop 0 [(''batch_size'', PInt 32), (''epochs'', PInt 10),
          (''dropout'', PFloat 0x3FE0000000000000), (''optimizer'', PStr ''adam''),
          (''rnn_type'', PStr ''LSTM''), (''embed_hidden_size'', PInt 50),
          (''sent_hidden_size'', PInt 100), (''query_hidden_size'', PInt 100)]
        (memory w) ! 0) = Inr (demo_hyper\<lparr>EPOCHS := PInt e\<rparr>)"
      by (simp only: assms first_fill nth_Cons_0 filled_read_hyper)
  qed
  show "memory (fst (prepare demo_ext 0 w)) ! 0 = filled_dict e"
    by (simp only: prepare_memory(1) demo_defaults sum.case assms first_fill nth_Cons_0)
qed

lemma demo_hyper_10: "demo_hyper\<lparr>EPOCHS := PInt 10\<rparr> = demo_hyper"
  by (simp add: demo_hyper_def)

lemma first_run_files:
  "fs (fst (run demo_ext 0 (first_world e))) =
     [(checkpoint_name demo_ext (filled_dict e) ''.h5'', H5 1),
      (checkpoint_name demo_ext (filled_dict e) ''.pkl'', Pickle (filled_dict e))]"
proof -
  have m: "memory (first_world e) = [[(''epochs'', PInt e)]]" and f: "fs (first_world e) = []"
    by (simp_all add: first_world_def)
  obtain w3 where p: "prepare demo_ext 0 (first_world e) =
      (w3, Inr (''adam'', demo_hyper\<lparr>EPOCHS := PInt e\<rparr>))"
    using filled_prepare(1) [OF m] by (cases "prepare demo_ext 0 (first_world e)") simp
  have m3: "memory w3 ! 0 = filled_dict e"
    using filled_prepare(2) [OF m] p by simp
  obtain w4 path where s: "stage_dataset demo_ext w3 = (w4, Inr path)"
    using stage_dataset_ok [of demo_ext w3] demo_externals(1) by blast
  have l: "load_data demo_ext path = Inr ([], ())" by (rule demo_externals)
  have b: "build_model demo_ext () (demo_hyper\<lparr>EPOCHS := PInt e\<rparr>) ''adam'' = Inr 0"
    by (rule demo_externals)
  have t: "fit_evaluate demo_ext 0 () (BATCH_SIZE (demo_hyper\<lparr>EPOCHS := PInt e\<rparr>))
             (EPOCHS (demo_hyper\<lparr>EPOCHS := PInt e\<rparr>)) =
           Inr (Suc 0, 0x3FE0000000000000, 0x3FE75C28F5C28F5C)"
    by (rule demo_externals)
  from run_fresh(1) [OF p s l f b t] show ?thesis by (simp only: m3 One_nat_def)
qed

lemma second_world_facts:
  "memory (second_world e) = [[(''epochs'', PInt 10)]]"
  "map_of (fs (second_world e)) (checkpoint_name demo_ext (filled_dict 10) ''.h5'') = Some (H5 1)"
  "map_of (fs (second_world e)) (checkpoint_name demo_ext (filled_dict 10) ''.pkl'') =
     Some (Pickle (filled_dict e))"
  "map_of (filled_dict e) ''epochs'' = Some (PInt e)"
proof -
  show "memory (second_world e) = [[(''epochs'', PInt 10)]]" by (simp add: second_world_def)
  have f: "fs (second_world e) =
     [(checkpoint_name demo_ext (filled_dict 10) ''.h5'', H5 1),
      (checkpoint_name demo_ext (filled_dict 10) ''.pkl'', Pickle (filled_dict e))]"
    by (simp add: second_world_def first_run_files demo_checkpoint_name)
  show "map_of (fs (second_world e)) (checkpoint_name demo_ext (filled_dict 10) ''.h5'') = Some (H5 1)"
    unfolding f by simp
  show "map_of (fs (second_world e)) (checkpoint_name demo_ext (filled_dict 10) ''.pkl'') =
     Some (Pickle (filled_dict e))"
    unfolding f using checkpoint_names_differ [of demo_ext "filled_dict 10"] by simp
  show "map_of (filled_dict e) ''epochs'' = Some (PInt e)" by (simp add: filled_dict_def)
qed

lemma train_and_report_saved:
  assumes "fit_evaluate ext m data (BATCH_SIZE hp) (EPOCHS hp) = Inr (trained, loss, acc)"
    and "model_name c \<noteq> model_mda_name c"
  shows "map_of (fs (fst (train_and_report ext data hp m c pa w))) (model_name c) = Some (H5 trained)"
    and "snd (train_and_report ext data hp m c pa w) = Inr (fneg acc)"
  using assms(2)
  by (simp_all add: train_and_report_files [OF assms(1)] map_of_setitem)

theorem resume_iff_fewer_epochs_witness:
  "snd (prepare demo_ext 0 (second_world 5)) = Inr (''adam'', demo_hyper)
   \<and> memory (fst (prepare demo_ext 0 (second_world 5))) ! 0 = filled_dict 10
   \<and> checkpoint_name demo_ext (filled_dict 10) ''.h5'' =
       ''babi_rnn-.batch_size=32.dropout=0.5.embed_hidden_size=50.optimizer=adam.query_hidden_size=100.rnn_type=LSTM.sent_hidden_size=100.h5''
   \<and> map_of (fs (second_world 5)) (checkpoint_name demo_ext (filled_dict 10) ''.h5'') = Some (H5 1)
   \<and> map_of (fs (second_world 5)) (checkpoint_name demo_ext (filled_dict 10) ''.pkl'') =
       Some (Pickle (filled_dict 5))
   \<and> map_of (filled_dict 5) ''epochs'' = Some (PInt 5)
   \<and> map_of (filled_dict 10) ''epochs'' = Some (PInt 10)
   \<and> map_of (fs (fst (run demo_ext 0 (second_world 5))))
        (checkpoint_name demo_ext (filled_dict 10) ''.h5'') = Some (H5 2)
   \<and> snd (run demo_ext 0 (second_world 5)) = Inr (fneg 0x3FE75C28F5C28F5C)
   \<and> map_of (fs (second_world 10)) (checkpoint_name demo_ext (filled_dict 10) ''.pkl'') =
       Some (Pickle (filled_dict 10))
   \<and> map_of (fs (fst (run demo_ext 0 (second_world 10))))
        (checkpoint_name demo_ext (filled_dict 10) ''.h5'') = Some (H5 1)
   \<and> snd (run demo_ext 0 (second_world 10)) = Inr (fneg 0x3FE75C28F5C28F5C)"
proof -
  let ?N = "checkpoint_name demo_ext (filled_dict 10)"
  have nd: "?N ''.h5'' \<noteq> ?N ''.pkl''" by (rule checkpoint_names_differ)
  have t: "\<And>m. fit_evaluate demo_ext m () (BATCH_SIZE demo_hyper) (EPOCHS demo_hyper) =
             Inr (Suc m, 0x3FE0000000000000, 0x3FE75C28F5C28F5C)"
    by (rule demo_externals)
  have b: "build_model demo_ext () demo_hyper ''adam'' = Inr 0" by (rule demo_externals)
  have resumed: "map_of (fs (fst (run demo_ext 0 (second_world 5)))) (?N ''.h5'') = Some (H5 2)
      \<and> snd (run demo_ext 0 (second_world 5)) = Inr (fneg 0x3FE75C28F5C28F5C)"
  proof -
    note sw = second_world_facts [of 5]
    obtain w3 where p: "prepare demo_ext 0 (second_world 5) = (w3, Inr (''adam'', demo_hyper))"
      using filled_prepare(1) [OF sw(1)] demo_hyper_10
      by (cases "prepare demo_ext 0 (second_world 5)") simp
    have m3: "memory w3 ! 0 = filled_dict 10" using filled_prepare(2) [OF sw(1)] p by simp
    obtain w4 path where s: "stage_dataset demo_ext w3 = (w4, Inr path)"
      using stage_dataset_ok [of demo_ext w3] demo_externals(1) by blast
    have l: "load_data demo_ext path = Inr ([], ())" by (rule demo_externals)
    from resume_iff_fewer_epochs [OF p s l sw(2,3) [folded m3] sw(4)
        second_world_facts(4) [of 10, folded m3], THEN conjunct1]
    have "\<exists>w6 c. model_name c = ?N ''.h5'' \<and> model_mda_name c = ?N ''.pkl''
            \<and> run demo_ext 0 (second_world 5) =
                 train_and_report demo_ext () demo_hyper (Suc 0) c 0 w6"
      unfolding m3 by auto
    then obtain w6 c where
      c: "model_name c = ?N ''.h5''" "model_mda_name c = ?N ''.pkl''"
      and r: "run demo_ext 0 (second_world 5) =
                train_and_report demo_ext () demo_hyper (Suc 0) c 0 w6"
      by blast
    from nd have "model_name c \<noteq> model_mda_name c" unfolding c .
    from train_and_report_saved [OF t this, of "Suc 0" 0 w6] show ?thesis
      unfolding r c by simp
  qed
  have rebuilt: "map_of (fs (fst (run demo_ext 0 (second_world 10)))) (?N ''.h5'') = Some (H5 1)
      \<and> snd (run demo_ext 0 (second_world 10)) = Inr (fneg 0x3FE75C28F5C28F5C)"
  proof -
    note sw = second_world_facts [of 10]
    obtain w3 where p: "prepare demo_ext 0 (second_world 10) = (w3, Inr (''adam'', demo_hyper))"
      using filled_prepare(1) [OF sw(1)] demo_hyper_10
      by (cases "prepare demo_ext 0 (second_world 10)") simp
    have m3: "memory w3 ! 0 = filled_dict 10" using filled_prepare(2) [OF sw(1)] p by simp
    obtain w4 path where s: "stage_dataset demo_ext w3 = (w4, Inr path)"
      using stage_dataset_ok [of demo_ext w3] demo_externals(1) by blast
    have l: "load_data demo_ext path = Inr ([], ())" by (rule demo_externals)
    from resume_iff_fewer_epochs [OF p s l sw(2,3) [folded m3] sw(4) [folded m3] sw(4) [folded m3],
        THEN conjunct1]
    have "\<exists>w6 c. model_name c = ?N ''.h5'' \<and> model_mda_name c = ?N ''.pkl''
            \<and> run demo_ext 0 (second_world 10) =
                 train_and_report demo_ext () demo_hyper 0 c 0
                   (w6\<lparr>stdout := stdout w6 @ [''Build model...'']\<rparr>)"
      unfolding m3 b by auto
    then obtain w6 c where
      c: "model_name c = ?N ''.h5''" "model_mda_name c = ?N ''.pkl''"
      and r: "run demo_ext 0 (second_world 10) =
                train_and_report demo_ext () demo_hyper 0 c 0
                  (w6\<lparr>stdout := stdout w6 @ [''Build model...'']\<rparr>)"
      by blast
    from nd have "model_name c \<noteq> model_mda_name c" unfolding c .
    from train_and_report_saved [OF t this, of 0 0 "w6\<lparr>stdout := stdout w6 @ [''Build model...'']\<rparr>"]
    show ?thesis unfolding r c by simp
  qed
  have p5: "snd (prepare demo_ext 0 (second_world 5)) = Inr (''adam'', demo_hyper)"
    using filled_prepare(1) [OF second_world_facts(1) [of 5]] by (simp only: demo_hyper_10)
  have m5: "memory (fst (prepare demo_ext 0 (second_world 5))) ! 0 = filled_dict 10"
    by (rule filled_prepare(2) [OF second_world_facts(1)])
  have n: "?N ''.h5'' =
       ''babi_rnn-.batch_size=32.dropout=0.5.embed_hidden_size=50.optimizer=adam.query_hidden_size=100.rnn_type=LSTM.sent_hidden_size=100.h5''"
    by (simp add: demo_checkpoint_name)
  from p5 m5 n second_world_facts(2,3,4) [of 5] second_world_facts(4) [of 10] resumed
    second_world_facts(3) [of 10] rebuilt
  show ?thesis by (intro conjI) (simp_all only: conjunct1 conjunct2)
qed

section \<open>Properties of the lazy problem namespace\<close>

lemma attrs_cases:
  "map_of attrs nm = Some attr \<Longrightarrow>
     (nm = ''NaProblem'' \<and> attr = ''_neuralarchitecture:NaProblem'')
     \<or> (nm = ''HpProblem'' \<and> attr = ''_hyperparameter:HpProblem'')"
  by (auto simp: attrs_def split: if_splits)

lemma attrs_split:
  "split_on CHR '':'' ''_neuralarchitecture:NaProblem'' = [''_neuralarchitecture'', ''NaProblem'']"
  "split_on CHR '':'' ''_hyperparameter:HpProblem'' = [''_hyperparameter'', ''HpProblem'']"
  by simp_all

lemma attrs_two_parts:
  "map_of attrs nm = Some attr \<Longrightarrow> \<exists>sub an. split_on CHR '':'' attr = [sub, an]"
  using attrs_cases [of nm attr] attrs_split by auto

lemma import_module_frame:
  "cache (fst (import_module loader nm st)) = cache st"
  "import_calls (fst (import_module loader nm st)) = import_calls st @ [nm]"
  by (simp_all add: import_module_def Let_def split: option.splits sum.splits)

lemma import_module_frameD:
  "import_module loader nm st = (st1, r) \<Longrightarrow>
     cache st1 = cache st \<and> import_calls st1 = import_calls st @ [nm]"
  using import_module_frame [of loader nm st] by simp

lemma getattr_cached:
  "map_of (cache st) nm = Some a \<Longrightarrow> getattr loader self nm st = (st, Inr a)"
  by (simp add: getattr_def)

lemma getattr_first:
  assumes "map_of (cache st) nm = None" and "map_of attrs nm = Some attr"
    and "split_on CHR '':'' attr = [sub, an]"
    and "import_module loader (module_name self @ ''.'' @ sub) st = (st1, Inr m)"
    and "map_of m an = Some a"
  shows "getattr loader self nm st =
     (st1\<lparr>sys_modules := setitem (sys_modules st1) (module_name self @ ''.'' @ sub) m,
          cache := setitem (cache st1) nm a\<rparr>, Inr a)"
  using assms by (simp add: getattr_def Let_def)

lemma getattr_delegated:
  assumes "map_of (cache st) nm = None" and "map_of attrs nm = None"
  shows "getattr loader self nm st =
     (st, case map_of (wrapped self) nm of None \<Rightarrow> Inl (AttributeError nm) | Some v \<Rightarrow> Inr v)"
  using assms by (simp add: getattr_def)

lemma getattr_keeps_cache:
  assumes "map_of (cache st) k = Some a"
  shows "map_of (cache (fst (getattr loader self nm st))) k = Some a"
proof (cases "map_of (cache st) nm")
  case (Some v)
  with assms show ?thesis by (simp add: getattr_cached)
next
  case None
  with assms have ne: "k \<noteq> nm" by auto
  show ?thesis
  proof (cases "map_of attrs nm")
    case n: None
    with None assms show ?thesis by (simp add: getattr_delegated)
  next
    case (Some attr)
    from attrs_two_parts [OF Some] obtain sub an where sp: "split_on CHR '':'' attr = [sub, an]"
      by blast
    obtain st1 r where im: "import_module loader (module_name self @ ''.'' @ sub) st = (st1, r)"
      by (cases "import_module loader (module_name self @ ''.'' @ sub) st")
    from import_module_frameD [OF im] have c1: "cache st1 = cache st" by simp
    show ?thesis
      using None Some sp im c1 assms ne
      by (cases r) (auto simp: getattr_def Let_def map_of_setitem split: option.splits)
  qed
qed

lemma lookups_keep_cache:
  "map_of (cache st) k = Some a \<Longrightarrow> map_of (cache (lookups loader accs st)) k = Some a"
proof (induction accs arbitrary: st)
  case Nil
  then show ?case by simp
next
  case (Cons x accs)
  obtain self nm where x: "x = (self, nm)" by (cases x)
  from Cons.prems have "map_of (cache (fst (getattr loader self nm st))) k = Some a"
    by (rule getattr_keeps_cache)
  from Cons.IH [OF this] show ?case by (simp add: x)
qed


lemma demo_import:
  "import_module demo_loader (module_name demo_lazy @ ''.'' @ ''_neuralarchitecture'') demo_interp =
     (demo_interp\<lparr>import_calls := [''deephyper.problem._neuralarchitecture''],
                  sys_modules := [(''deephyper.problem'', [(''Categorical'', 7)]),
                                  (''deephyper.problem._neuralarchitecture'', [(''NaProblem'', 42)])]\<rparr>,
      Inr [(''NaProblem'', 42)])"
  by (simp add: import_module_def demo_loader_def demo_lazy_def demo_interp_def Let_def)

lemma demo_lazy_facts:
  "map_of (cache demo_interp) ''NaProblem'' = None"
  "map_of attrs ''NaProblem'' = Some ''_neuralarchitecture:NaProblem''"
  "map_of [(''NaProblem'', 42::nat)] ''NaProblem'' = Some 42"
  "map_of (cache demo_interp) ''Categorical'' = None"
  "map_of attrs ''Categorical'' = None"
  "map_of (wrapped demo_lazy) ''Categorical'' = Some 7"
  by (simp_all add: demo_interp_def attrs_def demo_lazy_def)

text \<open>
  Claim C10. For a name listed in \<^verbatim>\<open>LazyImport.attrs\<close>, the entry names a submodule and
  an attribute of it. A lookup of the name while the cache does not have it imports that
  submodule of the instance's module and, when the import succeeds and the submodule has
  the attribute, returns the attribute and stores it in the cache under the name. From
  then on, after any further lookups and through any instance, a lookup of the name
  returns that same object and changes nothing, so nothing is imported again. A lookup of
  a name that is neither in the cache nor in \<^verbatim>\<open>attrs\<close> changes nothing and gives what the
  wrapped module has under that name.
\<close>

theorem lazy_lookup_caches:
  "(\<forall>attr. map_of attrs nm = Some attr \<longrightarrow>
      (\<exists>sub an. split_on CHR '':'' attr = [sub, an]
         \<and> (\<forall>st1 m a. map_of (cache st) nm = None
               \<and> import_module loader (module_name self @ ''.'' @ sub) st = (st1, Inr m)
               \<and> map_of m an = Some a \<longrightarrow>
               snd (getattr loader self nm st) = Inr a
               \<and> map_of (cache (fst (getattr loader self nm st))) nm = Some a
               \<and> import_calls (fst (getattr loader self nm st)) =
                   import_calls st @ [module_name self @ ''.'' @ sub]
               \<and> (\<forall>accs other.
                     getattr loader other nm (lookups loader accs (fst (getattr loader self nm st))) =
                       (lookups loader accs (fst (getattr loader self nm st)), Inr a)))))
   \<and> (\<forall>a other. map_of (cache st) nm = Some a \<longrightarrow> getattr loader other nm st = (st, Inr a))
   \<and> (map_of attrs nm = None \<and> map_of (cache st) nm = None \<longrightarrow>
        getattr loader self nm st =
          (st, case map_of (wrapped self) nm of
                 None \<Rightarrow> Inl (AttributeError nm)
               | Some v \<Rightarrow> Inr v))"
proof (intro conjI allI impI)
  fix attr assume at: "map_of attrs nm = Some attr"
  from attrs_two_parts [OF at] obtain sub an where sp: "split_on CHR '':'' attr = [sub, an]"
    by blast
  have "\<forall>st1 m a. map_of (cache st) nm = None
               \<and> import_module loader (module_name self @ ''.'' @ sub) st = (st1, Inr m)
               \<and> map_of m an = Some a \<longrightarrow>
               snd (getattr loader self nm st) = Inr a
               \<and> map_of (cache (fst (getattr loader self nm st))) nm = Some a
               \<and> import_calls (fst (getattr loader self nm st)) =
                   import_calls st @ [module_name self @ ''.'' @ sub]
               \<and> (\<forall>accs other.
                     getattr loader other nm (lookups loader accs (fst (getattr loader self nm st))) =
                       (lookups loader accs (fst (getattr loader self nm st)), Inr a))"
  proof (intro allI impI)
    fix st1 m a
    assume h: "map_of (cache st) nm = None
               \<and> import_module loader (module_name self @ ''.'' @ sub) st = (st1, Inr m)
               \<and> map_of m an = Some a"
    then have im: "import_module loader (module_name self @ ''.'' @ sub) st = (st1, Inr m)" by simp
    note g = getattr_first [OF _ at sp im, of a]
    from h g have g': "getattr loader self nm st =
       (st1\<lparr>sys_modules := setitem (sys_modules st1) (module_name self @ ''.'' @ sub) m,
            cache := setitem (cache st1) nm a\<rparr>, Inr a)" by simp
    note fr = import_module_frameD [OF im]
    have c: "map_of (cache (fst (getattr loader self nm st))) nm = Some a"
      by (simp add: g' map_of_setitem)
    have later: "\<forall>accs other.
        getattr loader other nm (lookups loader accs (fst (getattr loader self nm st))) =
          (lookups loader accs (fst (getattr loader self nm st)), Inr a)"
      using lookups_keep_cache [OF c] getattr_cached by blast
    show "snd (getattr loader self nm st) = Inr a
               \<and> map_of (cache (fst (getattr loader self nm st))) nm = Some a
               \<and> import_calls (fst (getattr loader self nm st)) =
                   import_calls st @ [module_name self @ ''.'' @ sub]
               \<and> (\<forall>accs other.
                     getattr loader other nm (lookups loader accs (fst (getattr loader self nm st))) =
                       (lookups loader accs (fst (getattr loader self nm st)), Inr a))"
      using c later fr by (simp add: g')
  qed
  with sp show "\<exists>sub an. split_on CHR '':'' attr = [sub, an]
         \<and> (\<forall>st1 m a. map_of (cache st) nm = None
               \<and> import_module loader (module_name self @ ''.'' @ sub) st = (st1, Inr m)
               \<and> map_of m an = Some a \<longrightarrow>
               snd (getattr loader self nm st) = Inr a
               \<and> map_of (cache (fst (getattr loader self nm st))) nm = Some a
               \<and> import_calls (fst (getattr loader self nm st)) =
                   import_calls st @ [module_name self @ ''.'' @ sub]
               \<and> (\<forall>accs other.
                     getattr loader other nm (lookups loader accs (fst (getattr loader self nm st))) =
                       (lookups loader accs (fst (getattr loader self nm st)), Inr a)))"
    by blast
next
  fix a other assume "map_of (cache st) nm = Some a"
  then show "getattr loader other nm st = (st, Inr a)" by (rule getattr_cached)
next
  assume "map_of attrs nm = None \<and> map_of (cache st) nm = None"
  then show "getattr loader self nm st =
          (st, case map_of (wrapped self) nm of
                 None \<Rightarrow> Inl (AttributeError nm)
               | Some v \<Rightarrow> Inr v)"
    by (simp add: getattr_delegated)
qed


theorem lazy_lookup_caches_witness:
  "map_of attrs ''NaProblem'' = Some ''_neuralarchitecture:NaProblem''
   \<and> map_of (cache demo_interp) ''NaProblem'' = None
   \<and> snd (getattr demo_loader demo_lazy ''NaProblem'' demo_interp) = Inr 42
   \<and> getattr demo_loader demo_lazy ''NaProblem''
        (fst (getattr demo_loader demo_lazy ''NaProblem'' demo_interp)) =
        (fst (getattr demo_loader demo_lazy ''NaProblem'' demo_interp), Inr 42)
   \<and> import_calls (fst (getattr demo_loader demo_lazy ''NaProblem'' demo_interp)) =
        [''deephyper.problem._neuralarchitecture'']
   \<and> map_of attrs ''Categorical'' = None
   \<and> map_of (cache demo_interp) ''Categorical'' = None
   \<and> getattr demo_loader demo_lazy ''Categorical'' demo_interp = (demo_interp, Inr 7)"
proof -
  let ?first = "getattr demo_loader demo_lazy ''NaProblem'' demo_interp"
  note t = lazy_lookup_caches [of "''NaProblem''" demo_interp demo_loader demo_lazy]
  from t demo_lazy_facts(2) obtain sub an where
    sp: "split_on CHR '':'' ''_neuralarchitecture:NaProblem'' = [sub, an]"
    and rest: "\<forall>st1 m a. map_of (cache demo_interp) ''NaProblem'' = None
               \<and> import_module demo_loader (module_name demo_lazy @ ''.'' @ sub) demo_interp = (st1, Inr m)
               \<and> map_of m an = Some a \<longrightarrow>
               snd ?first = Inr a
               \<and> map_of (cache (fst ?first)) ''NaProblem'' = Some a
               \<and> import_calls (fst ?first) =
                   import_calls demo_interp @ [module_name demo_lazy @ ''.'' @ sub]
               \<and> (\<forall>accs other.
                     getattr demo_loader other ''NaProblem'' (lookups demo_loader accs (fst ?first)) =
                       (lookups demo_loader accs (fst ?first), Inr a))"
    by blast
  from sp have sub: "sub = ''_neuralarchitecture''" and an: "an = ''NaProblem''"
    by (simp_all add: attrs_split)
  from rest [rule_format, of _ "[(''NaProblem'', 42)]" 42] demo_import demo_lazy_facts(1,3)
  have a: "snd ?first = Inr 42"
    and c: "import_calls (fst ?first) =
              import_calls demo_interp @ [module_name demo_lazy @ ''.'' @ ''_neuralarchitecture'']"
    and b: "\<forall>accs other.
              getattr demo_loader other ''NaProblem'' (lookups demo_loader accs (fst ?first)) =
                (lookups demo_loader accs (fst ?first), Inr 42)"
    unfolding sub an by blast+
  from b [rule_format, of demo_lazy "[]"]
  have b': "getattr demo_loader demo_lazy ''NaProblem'' (fst ?first) = (fst ?first, Inr 42)"
    by simp
  from c have c': "import_calls (fst ?first) = [''deephyper.problem._neuralarchitecture'']"
    by (simp add: demo_interp_def demo_lazy_def)
  note u = lazy_lookup_caches [of "''Categorical''" demo_interp demo_loader demo_lazy]
  from u demo_lazy_facts(4,5,6)
  have d: "getattr demo_loader demo_lazy ''Categorical'' demo_interp = (demo_interp, Inr 7)"
    by simp
  from demo_lazy_facts(2,1) a b' c' demo_lazy_facts(5,4) d show ?thesis by (intro conjI)
qed

end
